(* ===== verification/Prelude.thy ===== *)
theory Prelude
  imports
    Main
    "HOL-Library.Word"
    "HOL-Library.Char_ord"
    "HOL-Library.List_Lexorder"
    "HOL-Library.Code_Target_Nat"
begin

section \<open>Shared types, Rust string operations, and their lemmas\<close>

text \<open>
  What every component of the model uses: the types that stand for Rust's primitive types,
  the operations of Rust's standard library on \<open>str\<close>, \<open>[u8]\<close>, \<open>u64\<close> and \<open>SystemTime\<close> that the
  sources under \<^verbatim>\<open>crates/\<close> call, and the lemmas about them.

  A Rust \<open>String\<close>/\<open>&str\<close> is its UTF-8 byte sequence and a \<open>Vec<u8>\<close> is a byte sequence; both
  are \<open>char list\<close> here (a HOL \<open>char\<close> is eight bits).  ASCII delimiters, ASCII case folding and
  prefix/suffix tests on UTF-8 text act on bytes exactly as they act on characters.
  A panic of the program is a value of type \<open>panic\<close>, carried in the left summand of a sum.
\<close>

named_theorems str_simps \<open>characterisations of the string operations\<close>
named_theorems res_simps \<open>evaluation of the panic monad\<close>

type_synonym bytes = "char list"
type_synonym headers = "(string \<times> string) list"
type_synonym u16 = "16 word"
type_synonym u32 = "32 word"
type_synonym u64 = "64 word"

abbreviation byte_val :: "char \<Rightarrow> nat" where
  "byte_val c \<equiv> of_char c"

subsection \<open>Panics\<close>

datatype panic = TimeOverflow  \<comment> \<open>\<open>SystemTime + Duration\<close> out of range\<close>

type_synonym 'a res = "panic + 'a"

definition rbind :: "'a res \<Rightarrow> ('a \<Rightarrow> 'b res) \<Rightarrow> 'b res" where
  "rbind x f = (case x of Inl p \<Rightarrow> Inl p | Inr a \<Rightarrow> f a)"

lemma rbind_simps [simp, res_simps]:
  "rbind (Inl p) f = Inl p"
  "rbind (Inr a) f = f a"
  by (simp_all add: rbind_def)

lemma rbind_Inr_iff: "rbind x f = Inr b \<longleftrightarrow> (\<exists>a. x = Inr a \<and> f a = Inr b)"
  by (cases x) simp_all

lemma rbind_Inl_iff: "rbind x f = Inl p \<longleftrightarrow> x = Inl p \<or> (\<exists>a. x = Inr a \<and> f a = Inl p)"
  by (cases x) simp_all

subsection \<open>ASCII case folding\<close>

definition ascii_lower :: "char \<Rightarrow> char" where
  "ascii_lower c = (if 65 \<le> byte_val c \<and> byte_val c \<le> 90 then char_of (byte_val c + 32) else c)"

definition to_ascii_lowercase :: "string \<Rightarrow> string" where
  "to_ascii_lowercase s = map ascii_lower s"

definition eq_ignore_ascii_case :: "string \<Rightarrow> string \<Rightarrow> bool" where
  "eq_ignore_ascii_case a b = (to_ascii_lowercase a = to_ascii_lowercase b)"

lemma byte_val_inject [simp]: "byte_val c = byte_val d \<longleftrightarrow> c = d"
  by (metis char_of_char)

lemma byte_val_char_of [simp]: "byte_val (char_of (n :: nat)) = n mod 256"
  by simp

lemma ascii_lower_idem [simp]: "ascii_lower (ascii_lower c) = ascii_lower c"
  by (simp add: ascii_lower_def)

lemma to_ascii_lowercase_idem [simp]:
  "to_ascii_lowercase (to_ascii_lowercase s) = to_ascii_lowercase s"
  by (simp add: to_ascii_lowercase_def)

lemma length_to_ascii_lowercase [simp]: "length (to_ascii_lowercase s) = length s"
  by (simp add: to_ascii_lowercase_def)

lemma eq_ignore_ascii_case_refl [simp]: "eq_ignore_ascii_case s s"
  by (simp add: eq_ignore_ascii_case_def)

lemma eq_ignore_ascii_case_sym: "eq_ignore_ascii_case a b \<Longrightarrow> eq_ignore_ascii_case b a"
  by (simp add: eq_ignore_ascii_case_def)

lemma eq_ignore_ascii_case_trans:
  "eq_ignore_ascii_case a b \<Longrightarrow> eq_ignore_ascii_case b c \<Longrightarrow> eq_ignore_ascii_case a c"
  by (simp add: eq_ignore_ascii_case_def)

lemma ascii_lower_eq_symbol:
  assumes "\<not> (65 \<le> byte_val d \<and> byte_val d \<le> 90)" and "\<not> (97 \<le> byte_val d \<and> byte_val d \<le> 122)"
  shows "ascii_lower c = d \<longleftrightarrow> c = d"
proof -
  have "ascii_lower c \<noteq> d" if "65 \<le> byte_val c" "byte_val c \<le> 90"
  proof
    assume "ascii_lower c = d"
    then have "byte_val d = byte_val c + 32" using that by (auto simp: ascii_lower_def)
    with that assms(2) show False by simp
  qed
  with assms(1) show ?thesis by (auto simp: ascii_lower_def)
qed

subsection \<open>Splitting\<close>

text \<open>\<open>str::split(c)\<close>: the pieces between the separators, at least one.\<close>

fun split_on :: "char \<Rightarrow> string \<Rightarrow> string list" where
  "split_on d [] = [[]]"
| "split_on d (c # cs) =
     (if c = d then [] # split_on d cs
      else (case split_on d cs of [] \<Rightarrow> [[c]] | p # ps \<Rightarrow> (c # p) # ps))"

text \<open>\<open>s.split(c).next().unwrap_or(dflt)\<close>\<close>

definition first_piece :: "char \<Rightarrow> string \<Rightarrow> string \<Rightarrow> string" where
  "first_piece d dflt s = (case split_on d s of [] \<Rightarrow> dflt | p # _ \<Rightarrow> p)"

lemma split_on_not_Nil [simp]: "split_on d s \<noteq> []"
  by (induction s) (auto split: list.splits)

lemma hd_split_on: "hd (split_on d s) = takeWhile (\<lambda>c. c \<noteq> d) s"
proof (induction s)
  case (Cons c cs)
  then show ?case by (cases "split_on d cs") simp_all
qed simp

lemma first_piece_eq [str_simps]: "first_piece d dflt s = takeWhile (\<lambda>c. c \<noteq> d) s"
  using hd_split_on [of d s] by (cases "split_on d s") (simp_all add: first_piece_def)

lemma split_on_no_sep: "d \<notin> set s \<Longrightarrow> split_on d s = [s]"
  by (induction s) auto

lemma split_on_append_sep:
  "d \<notin> set p \<Longrightarrow> split_on d (p @ d # s) = p # split_on d s"
  by (induction p) auto

lemma split_on_piece_no_sep: "p \<in> set (split_on d s) \<Longrightarrow> d \<notin> set p"
proof (induction s arbitrary: p)
  case (Cons c cs)
  obtain q qs where q: "split_on d cs = q # qs" by (cases "split_on d cs") simp_all
  show ?case
  proof (cases "c = d")
    case True
    with Cons show ?thesis by auto
  next
    case False
    with Cons.prems q have "p = c # q \<or> p \<in> set qs" by auto
    then show ?thesis using Cons.IH [of q] Cons.IH [of p] False q by auto
  qed
qed simp

text \<open>Splitting loses nothing: joining the pieces with the separator gives the text back.\<close>

fun join :: "string \<Rightarrow> string list \<Rightarrow> string" where
  "join sep [] = []"
| "join sep [p] = p"
| "join sep (p # q # ps) = p @ sep @ join sep (q # ps)"

lemma join_Cons: "ps \<noteq> [] \<Longrightarrow> join sep (p # ps) = p @ sep @ join sep ps"
  by (cases ps) simp_all

lemma join_split_on: "join [d] (split_on d s) = s"
proof (induction s)
  case (Cons c cs)
  obtain q qs where q: "split_on d cs = q # qs" by (cases "split_on d cs") simp_all
  with Cons show ?case by (cases qs) (auto simp: join_Cons)
qed simp

lemma split_on_join:
  "ps \<noteq> [] \<Longrightarrow> (\<forall>p\<in>set ps. d \<notin> set p) \<Longrightarrow> split_on d (join [d] ps) = ps"
proof (induction ps)
  case (Cons p ps)
  then show ?case
    by (cases "ps = []") (simp_all add: split_on_no_sep join_Cons split_on_append_sep)
qed simp

text \<open>\<open>str::rsplit_once(c)\<close>: split at the last occurrence.\<close>

definition rsplit_once :: "char \<Rightarrow> string \<Rightarrow> (string \<times> string) option" where
  "rsplit_once d s =
     (case dropWhile (\<lambda>c. c \<noteq> d) (rev s) of
        [] \<Rightarrow> None
      | _ # r \<Rightarrow> Some (rev r, rev (takeWhile (\<lambda>c. c \<noteq> d) (rev s))))"

lemma rsplit_once_append [str_simps]:
  assumes "d \<notin> set b" shows "rsplit_once d (a @ d # b) = Some (a, b)"
proof -
  have dw: "dropWhile (\<lambda>c. c \<noteq> d) (rev b @ d # rev a) = d # rev a"
    using assms by (subst dropWhile_append2) auto
  have tw: "takeWhile (\<lambda>c. c \<noteq> d) (rev b @ d # rev a) = rev b"
    using assms by (subst takeWhile_append2) auto
  show ?thesis by (simp add: rsplit_once_def dw tw)
qed

lemma rsplit_once_None [str_simps]: "rsplit_once d s = None \<longleftrightarrow> d \<notin> set s"
proof -
  have e: "dropWhile (\<lambda>c. c \<noteq> d) (rev s) = [] \<longleftrightarrow> d \<notin> set s"
    by (auto simp: dropWhile_eq_Nil_conv)
  show ?thesis
  proof (cases "dropWhile (\<lambda>c. c \<noteq> d) (rev s)")
    case Nil
    with e have "d \<notin> set s" by blast
    then show ?thesis unfolding rsplit_once_def Nil by simp
  next
    case (Cons x xs)
    with e have "d \<in> set s" by (metis list.distinct(1))
    with Cons show ?thesis by (simp add: rsplit_once_def)
  qed
qed

lemma rsplit_once_Some_iff [str_simps]:
  "rsplit_once d s = Some (a, b) \<longleftrightarrow> s = a @ d # b \<and> d \<notin> set b"
proof
  assume r: "rsplit_once d s = Some (a, b)"
  then have "d \<in> set s" by (metis option.distinct(1) rsplit_once_None)
  then obtain a' b' where s: "s = a' @ d # b'" and "d \<notin> set b'"
    by (metis split_list_last)
  with r show "s = a @ d # b \<and> d \<notin> set b" by (simp add: rsplit_once_append)
qed (simp add: rsplit_once_append)

subsection \<open>Prefixes and suffixes\<close>

fun strip_prefix :: "'a list \<Rightarrow> 'a list \<Rightarrow> 'a list option" where
  "strip_prefix [] s = Some s"
| "strip_prefix (p # ps) [] = None"
| "strip_prefix (p # ps) (c # cs) = (if p = c then strip_prefix ps cs else None)"

definition starts_with :: "'a list \<Rightarrow> 'a list \<Rightarrow> bool" where
  "starts_with p s = (strip_prefix p s \<noteq> None)"

definition ends_with :: "'a list \<Rightarrow> 'a list \<Rightarrow> bool" where
  "ends_with p s = starts_with (rev p) (rev s)"

definition trim_end_matches :: "'a \<Rightarrow> 'a list \<Rightarrow> 'a list" where
  "trim_end_matches d s = rev (dropWhile (\<lambda>c. c = d) (rev s))"

lemma strip_prefix_Some_iff [str_simps]: "strip_prefix p s = Some r \<longleftrightarrow> s = p @ r"
  by (induction p s rule: strip_prefix.induct) auto

lemma strip_prefix_None_iff: "strip_prefix p s = None \<longleftrightarrow> (\<nexists>r. s = p @ r)"
  using strip_prefix_Some_iff [of p s] by (metis not_None_eq)

lemma strip_prefix_append [simp]: "strip_prefix p (p @ r) = Some r"
  by (simp add: strip_prefix_Some_iff)

lemma strip_prefix_self [simp]: "strip_prefix p p = Some []"
  by (simp add: strip_prefix_Some_iff)

lemma starts_with_iff [str_simps]: "starts_with p s \<longleftrightarrow> (\<exists>r. s = p @ r)"
  by (auto simp: starts_with_def strip_prefix_None_iff)

lemma ends_with_iff [str_simps]: "ends_with p s \<longleftrightarrow> (\<exists>r. s = r @ p)"
proof
  assume "ends_with p s"
  then obtain r where "rev s = rev p @ r" by (auto simp: ends_with_def starts_with_iff)
  then have "rev (rev s) = rev (rev p @ r)" by simp
  then show "\<exists>r. s = r @ p" by auto
qed (auto simp: ends_with_def starts_with_iff)

lemma trim_end_matches_decomp: "\<exists>n. s = trim_end_matches d s @ replicate n d"
proof -
  have "rev s = takeWhile (\<lambda>c. c = d) (rev s) @ dropWhile (\<lambda>c. c = d) (rev s)" by simp
  then have "s = trim_end_matches d s @ rev (takeWhile (\<lambda>c. c = d) (rev s))"
    by (metis rev_append rev_rev_ident trim_end_matches_def)
  moreover have "\<forall>c\<in>set (takeWhile (\<lambda>c. c = d) (rev s)). c = d"
    by (auto dest: set_takeWhileD)
  then have "takeWhile (\<lambda>c. c = d) (rev s) = replicate (length (takeWhile (\<lambda>c. c = d) (rev s))) d"
    by (metis replicate_length_same)
  then have "rev (takeWhile (\<lambda>c. c = d) (rev s))
      = replicate (length (takeWhile (\<lambda>c. c = d) (rev s))) d"
    by (metis rev_replicate)
  ultimately show ?thesis by metis
qed

lemma trim_end_matches_last: "trim_end_matches d s \<noteq> [] \<Longrightarrow> last (trim_end_matches d s) \<noteq> d"
proof -
  assume "trim_end_matches d s \<noteq> []"
  then have ne: "dropWhile (\<lambda>c. c = d) (rev s) \<noteq> []" by (simp add: trim_end_matches_def)
  then show ?thesis
    using hd_dropWhile [OF ne] by (simp add: trim_end_matches_def last_rev)
qed

lemma trim_end_matches_id: "s = [] \<or> last s \<noteq> d \<Longrightarrow> trim_end_matches d s = s"
  by (cases s rule: rev_cases) (simp_all add: trim_end_matches_def)

subsection \<open>White space\<close>

text \<open>
  \<open>str::trim\<close> removes leading and trailing characters with the Unicode property
  \<open>White_Space\<close>: U+0009 to U+000D, U+0020, U+0085, U+00A0, U+1680, U+2000 to U+200A, U+2028,
  U+2029, U+202F, U+205F and U+3000.  \<open>ws_enc\<close> recognises their UTF-8 encodings.
\<close>

fun ws_enc :: "string \<Rightarrow> bool" where
  "ws_enc [a] = (let n = byte_val a in n = 32 \<or> (9 \<le> n \<and> n \<le> 13))"
| "ws_enc [a, b] = (byte_val a = 0xC2 \<and> (byte_val b = 0x85 \<or> byte_val b = 0xA0))"
| "ws_enc [a, b, c] =
     (if byte_val a = 0xE2
      then (if byte_val b = 0x80
            then (let n = byte_val c in (0x80 \<le> n \<and> n \<le> 0x8A) \<or> n = 0xA8 \<or> n = 0xA9 \<or> n = 0xAF)
            else byte_val b = 0x81 \<and> byte_val c = 0x9F)
      else (byte_val a = 0xE1 \<and> byte_val b = 0x9A \<and> byte_val c = 0x80) \<or>
           (byte_val a = 0xE3 \<and> byte_val b = 0x80 \<and> byte_val c = 0x80))"
| "ws_enc _ = False"

function trim_start :: "string \<Rightarrow> string" where
  "trim_start s =
     (if ws_enc (take 1 s) then trim_start (drop 1 s)
      else if ws_enc (take 2 s) then trim_start (drop 2 s)
      else if ws_enc (take 3 s) then trim_start (drop 3 s)
      else s)"
  by pat_completeness auto
termination
proof (relation "measure length", goal_cases)
  case (2 s) then show ?case by (cases s) simp_all
next
  case (3 s) then show ?case by (cases s) simp_all
next
  case (4 s) then show ?case by (cases s) simp_all
qed simp

function trim_end_rev :: "string \<Rightarrow> string" where
  "trim_end_rev s =
     (if ws_enc (rev (take 1 s)) then trim_end_rev (drop 1 s)
      else if ws_enc (rev (take 2 s)) then trim_end_rev (drop 2 s)
      else if ws_enc (rev (take 3 s)) then trim_end_rev (drop 3 s)
      else s)"
  by pat_completeness auto
termination
proof (relation "measure length", goal_cases)
  case (2 s) then show ?case by (cases s) simp_all
next
  case (3 s) then show ?case by (cases s) simp_all
next
  case (4 s) then show ?case by (cases s) simp_all
qed simp

declare trim_start.simps [simp del] trim_end_rev.simps [simp del]

definition trim :: "string \<Rightarrow> string" where
  "trim s = rev (trim_end_rev (rev (trim_start s)))"

text \<open>A byte that is printable ASCII starts no white space and ends none.\<close>

definition graphic :: "char \<Rightarrow> bool" where
  "graphic c = (33 \<le> byte_val c \<and> byte_val c \<le> 126)"

lemma ws_enc_hd: "ws_enc (c # s) \<Longrightarrow> \<not> graphic c"
  by (cases "c # s" rule: ws_enc.cases) (auto simp: graphic_def Let_def split: if_splits)

lemma ws_enc_last: "ws_enc (s @ [c]) \<Longrightarrow> \<not> graphic c"
  by (cases "s @ [c]" rule: ws_enc.cases)
    (auto simp: graphic_def Let_def append_eq_Cons_conv split: if_splits)

lemma trim_start_graphic [simp]: "graphic c \<Longrightarrow> trim_start (c # s) = c # s"
proof -
  assume g: "graphic c"
  then have "\<not> ws_enc (take (Suc n) (c # s))" for n
    using ws_enc_hd [of c "take n s"] by auto
  then show ?thesis
    by (subst trim_start.simps) (metis One_nat_def Suc_1 numeral_3_eq_3)
qed

lemma trim_start_Nil [simp]: "trim_start [] = []"
  by (subst trim_start.simps) simp

lemma trim_end_rev_graphic [simp]: "graphic c \<Longrightarrow> trim_end_rev (c # s) = c # s"
proof -
  assume g: "graphic c"
  then have "\<not> ws_enc (rev (take (Suc n) (c # s)))" for n
    using ws_enc_last [of "rev (take n s)" c] by auto
  then show ?thesis
    by (subst trim_end_rev.simps) (metis One_nat_def Suc_1 numeral_3_eq_3)
qed

lemma trim_end_rev_Nil [simp]: "trim_end_rev [] = []"
  by (subst trim_end_rev.simps) simp

lemma trim_id [simp]:
  assumes "s \<noteq> [] \<Longrightarrow> graphic (hd s) \<and> graphic (last s)"
  shows "trim s = s"
proof (cases s)
  case (Cons c cs)
  with assms have "graphic c" and "graphic (last s)" by auto
  moreover have "rev s = last s # rev (butlast s)"
    using Cons by (metis append_butlast_last_id list.distinct(1) rev.simps(2) rev_rev_ident rev_append rev_singleton_conv append_Cons append_Nil)
  ultimately show ?thesis using Cons
    by (metis rev_rev_ident trim_def trim_end_rev_graphic trim_start_graphic)
qed (simp add: trim_def)

lemma trim_Nil [simp]: "trim [] = []"
  by simp

lemma set_trim_start: "set (trim_start s) \<subseteq> set s"
proof (induction s rule: trim_start.induct)
  case (1 s)
  then show ?case
    by (subst trim_start.simps) (auto dest!: in_set_dropD split del: if_split split: if_splits)
qed

lemma set_trim_end_rev: "set (trim_end_rev s) \<subseteq> set s"
proof (induction s rule: trim_end_rev.induct)
  case (1 s)
  then show ?case
    by (subst trim_end_rev.simps) (auto dest!: in_set_dropD split del: if_split split: if_splits)
qed

lemma set_trim: "set (trim s) \<subseteq> set s"
  using set_trim_start [of s] set_trim_end_rev [of "rev (trim_start s)"] by (auto simp: trim_def)

subsection \<open>Searching\<close>

text \<open>\<open>Iterator::find_map\<close>\<close>

fun find_map :: "('a \<Rightarrow> 'b option) \<Rightarrow> 'a list \<Rightarrow> 'b option" where
  "find_map f [] = None"
| "find_map f (x # xs) = (case f x of Some y \<Rightarrow> Some y | None \<Rightarrow> find_map f xs)"

lemma find_map_None_iff: "find_map f xs = None \<longleftrightarrow> (\<forall>x\<in>set xs. f x = None)"
  by (induction xs) (auto split: option.splits)

lemma find_map_Some_iff:
  "find_map f xs = Some y \<longleftrightarrow>
     (\<exists>us x vs. xs = us @ x # vs \<and> f x = Some y \<and> (\<forall>u\<in>set us. f u = None))"
proof (induction xs)
  case (Cons a xs)
  show ?case
  proof (cases "f a")
    case None
    have "(\<exists>us x vs. a # xs = us @ x # vs \<and> f x = Some y \<and> (\<forall>u\<in>set us. f u = None)) \<longleftrightarrow>
          (\<exists>us x vs. xs = us @ x # vs \<and> f x = Some y \<and> (\<forall>u\<in>set us. f u = None))"
      (is "?L \<longleftrightarrow> ?R")
    proof
      assume ?L
      then obtain us x vs where *: "a # xs = us @ x # vs" "f x = Some y" "\<forall>u\<in>set us. f u = None"
        by blast
      with None obtain us' where "us = a # us'" by (cases us) auto
      with * show ?R by auto
    next
      assume ?R
      then obtain us x vs where "xs = us @ x # vs" "f x = Some y" "\<forall>u\<in>set us. f u = None"
        by blast
      with None have "a # xs = (a # us) @ x # vs \<and> f x = Some y \<and> (\<forall>u\<in>set (a # us). f u = None)"
        by auto
      then show ?L by blast
    qed
    with Cons None show ?thesis by simp
  next
    case (Some z)
    then show ?thesis
      by (auto intro: exI [of _ "[]"] simp: Cons_eq_append_conv)
  qed
qed simp

subsection \<open>Numbers as text\<close>

definition digit_val :: "char \<Rightarrow> nat option" where
  "digit_val c = (if 48 \<le> byte_val c \<and> byte_val c \<le> 57 then Some (byte_val c - 48) else None)"

fun parse_digits :: "nat \<Rightarrow> string \<Rightarrow> nat option" where
  "parse_digits acc [] = Some acc"
| "parse_digits acc (c # cs) =
     (case digit_val c of None \<Rightarrow> None | Some d \<Rightarrow> parse_digits (10 * acc + d) cs)"

text \<open>
  \<open>str::parse\<close> at an unsigned type of \<open>w\<close> bits: an optional \<open>+\<close>, at least one digit, and a
  value that fits.
\<close>

definition parse_uint :: "nat \<Rightarrow> string \<Rightarrow> nat option" where
  "parse_uint w s =
     (let ds = (case s of c # cs \<Rightarrow> if c = CHR ''+'' then cs else s | [] \<Rightarrow> [])
      in if ds = [] then None
         else case parse_digits 0 ds of
                None \<Rightarrow> None
              | Some n \<Rightarrow> if n < 2 ^ w then Some n else None)"

lemma parse_uint_bound: "parse_uint w s = Some n \<Longrightarrow> n < 2 ^ w"
  by (auto simp: parse_uint_def Let_def split: if_splits option.splits)

text \<open>\<open>to_string\<close> of an unsigned integer\<close>

fun show_nat :: "nat \<Rightarrow> string" where
  "show_nat n = (if n < 10 then [char_of (48 + n)] else show_nat (n div 10) @ [char_of (48 + n mod 10)])"

declare show_nat.simps [simp del]

lemma parse_digits_append:
  "parse_digits acc (s @ t) = (case parse_digits acc s of None \<Rightarrow> None | Some n \<Rightarrow> parse_digits n t)"
  by (induction s arbitrary: acc) (auto split: option.splits)

lemma digit_val_char_of [simp]: "d < 10 \<Longrightarrow> digit_val (char_of (48 + d)) = Some d"
  by (simp add: digit_val_def)

lemma parse_digits_show_nat: "parse_digits 0 (show_nat n) = Some n"
proof (induction n rule: show_nat.induct)
  case (1 n)
  show ?case
  proof (cases "n < 10")
    case True
    then show ?thesis by (subst show_nat.simps) (simp add: digit_val_def)
  next
    case False
    have "n mod 10 < 10" by simp
    with False "1.IH" show ?thesis
      by (subst show_nat.simps) (simp add: parse_digits_append del: add_Suc_right)
  qed
qed

lemma show_nat_not_Nil [simp]: "show_nat n \<noteq> []"
  by (subst show_nat.simps) simp

lemma show_nat_hd: "\<exists>d::nat. d < 10 \<and> hd (show_nat n) = char_of (48 + d)"
proof (induction n rule: show_nat.induct)
  case (1 n)
  show ?case
  proof (cases "n < 10")
    case True
    then show ?thesis by (subst show_nat.simps) auto
  next
    case False
    with "1.IH" show ?thesis by (subst show_nat.simps) simp
  qed
qed

text \<open>Printing and reading back an unsigned integer is the identity where it fits.\<close>

lemma parse_uint_show_nat: "n < 2 ^ w \<Longrightarrow> parse_uint w (show_nat n) = Some n"
proof -
  assume n: "n < 2 ^ w"
  obtain d :: nat where d: "d < 10" "hd (show_nat n) = char_of (48 + d)" using show_nat_hd by blast
  obtain c cs where s: "show_nat n = c # cs" by (cases "show_nat n") simp_all
  with d have "byte_val c = 48 + d" by simp
  with d have "c \<noteq> CHR ''+''" by auto
  with s n show ?thesis using parse_digits_show_nat [of n] by (simp add: parse_uint_def)
qed

subsection \<open>Little-endian bytes\<close>

fun le_bytes :: "nat \<Rightarrow> nat \<Rightarrow> bytes" where
  "le_bytes 0 n = []"
| "le_bytes (Suc k) n = char_of n # le_bytes k (n div 256)"

fun le_nat :: "bytes \<Rightarrow> nat" where
  "le_nat [] = 0"
| "le_nat (c # cs) = byte_val c + 256 * le_nat cs"

lemma length_le_bytes [simp]: "length (le_bytes k n) = k"
  by (induction k arbitrary: n) simp_all

lemma le_nat_le_bytes [simp]: "le_nat (le_bytes k n) = n mod 256 ^ k"
  by (induction k arbitrary: n) (simp_all add: mod_mult2_eq add.commute)

lemma le_nat_bound: "le_nat bs < 256 ^ length bs"
proof (induction bs)
  case (Cons c cs)
  have "byte_val c + 256 * le_nat cs < 256 * Suc (le_nat cs)" by simp
  also have "Suc (le_nat cs) \<le> 256 ^ length cs" using Cons by simp
  then have "256 * Suc (le_nat cs) \<le> 256 * 256 ^ length cs" by (rule mult_le_mono2)
  finally show ?case by simp
qed simp

lemma le_bytes_le_nat: "le_bytes (length bs) (le_nat bs) = bs"
proof (induction bs)
  case (Cons c cs)
  have "byte_val c < 256" by (rule nat_of_char_less_256)
  then have "(byte_val c + 256 * le_nat cs) div 256 = le_nat cs" by simp
  moreover have "char_of (byte_val c + 256 * le_nat cs) = c"
    by (metis char_of_char char_of_mod_256 mod_mult_self2)
  ultimately show ?case using Cons by simp
qed simp

subsection \<open>Machine words\<close>

text \<open>\<open>u64::saturating_sub\<close>\<close>

definition saturating_sub :: "'a::len word \<Rightarrow> 'a word \<Rightarrow> 'a word" where
  "saturating_sub a b = (if b \<le> a then a - b else 0)"

lemma unat_saturating_sub [simp]: "unat (saturating_sub a b) = unat a - unat b"
  by (auto simp: saturating_sub_def unat_sub word_le_nat_alt)

lemma unat_plus_one: "unat (n :: 'a::len word) + 1 < 2 ^ LENGTH('a) \<Longrightarrow> unat (n + 1) = unat n + 1"
  by (simp add: unat_word_ariths)

subsection \<open>System time\<close>

text \<open>
  \<open>SystemTime\<close> on Linux is a signed 64-bit count of seconds and a count of nanoseconds; here
  the nanoseconds since the Unix epoch.  Adding a whole number of seconds panics when the
  seconds leave the 64-bit range.
\<close>

datatype systime = SysTime (nanos: int)

instantiation systime :: linorder
begin

definition less_eq_systime :: "systime \<Rightarrow> systime \<Rightarrow> bool" where
  "less_eq_systime a b = (nanos a \<le> nanos b)"

definition less_systime :: "systime \<Rightarrow> systime \<Rightarrow> bool" where
  "less_systime a b = (nanos a < nanos b)"

instance
  by standard (auto simp: less_eq_systime_def less_systime_def systime.expand)

end

definition systime_secs :: "systime \<Rightarrow> int" where
  "systime_secs t = nanos t div 10 ^ 9"

definition time_add_secs :: "systime \<Rightarrow> nat \<Rightarrow> systime res" where
  "time_add_secs t secs =
     (if systime_secs t + int secs < 2 ^ 63 then Inr (SysTime (nanos t + int secs * 10 ^ 9))
      else Inl TimeOverflow)"

definition unix_epoch :: systime where
  "unix_epoch = SysTime 0"

lemma time_add_secs_Inr:
  "time_add_secs t s = Inr t' \<Longrightarrow> nanos t' = nanos t + int s * 10 ^ 9 \<and> t \<le> t'"
  by (auto simp: time_add_secs_def less_eq_systime_def split: if_splits)

subsection \<open>File writes\<close>

text \<open>
  How \<open>std::fs::write\<close> can end: it replaces the content, fails before it has opened the file, or
  fails after it has truncated the file and written some of the bytes.
\<close>

datatype write_outcome = WriteOk | CreateFails | WriteFailsAfter nat

end
