(* ===== verification/StaticFiles.thy ===== *)
theory StaticFiles
  imports Prelude
begin

section \<open>Static files: \<^verbatim>\<open>crates/zaphyl-core/src/static_files.rs\<close>\<close>

text \<open>
  The resolution of a request path to a file below a root directory.  Paths are byte strings;
  \<open>components\<close>, \<open>path_push\<close> and \<open>path_starts_with\<close> are \<open>Path::components\<close>, \<open>PathBuf::push\<close> and
  \<open>Path::starts_with\<close> of the standard library on Unix.  The percent decoder is a third-party
  package and the file system is the operating system's, so both are arguments: \<open>pdecode\<close> is
  \<open>percent_decode_str(..).decode_utf8().ok()\<close> and a value of type \<open>fs\<close> answers the three
  queries \<open>resolve\<close> makes.
\<close>

named_theorems path_simps \<open>components of built paths\<close>

subsection \<open>Unix paths\<close>

datatype component = RootDir | CurDir | ParentDir | Normal string

abbreviation slash :: char where
  "slash \<equiv> CHR ''/''"

text \<open>One piece between separators: empty pieces and \<open>.\<close> vanish.\<close>

definition piece_component :: "string \<Rightarrow> component list" where
  "piece_component p =
     (if p = [] \<or> p = ''.'' then [] else if p = ''..'' then [ParentDir] else [Normal p])"

definition components :: "string \<Rightarrow> component list" where
  "components s =
     (let ps = split_on slash s
      in (if starts_with [slash] s then [RootDir] else if hd ps = ''.'' then [CurDir] else [])
         @ concat (map piece_component ps))"

definition path_push :: "string \<Rightarrow> string \<Rightarrow> string" where
  "path_push buf part =
     (if starts_with [slash] part then part
      else if buf = [] \<or> last buf = slash then buf @ part
      else buf @ [slash] @ part)"

definition path_starts_with :: "string \<Rightarrow> string \<Rightarrow> bool" where
  "path_starts_with p base = starts_with (components base) (components p)"

subsection \<open>Resolution\<close>

record fs =
  fs_is_dir :: "string \<Rightarrow> bool"
  fs_is_file :: "string \<Rightarrow> bool"
  fs_canonicalize :: "string \<Rightarrow> string option"

record static_dir =
  sd_root :: string

definition static_dir_new :: "string \<Rightarrow> static_dir" where
  "static_dir_new root = \<lparr>sd_root = root\<rparr>"

text \<open>The loop over the components: \<open>None\<close> is the early \<open>return None\<close>.\<close>

fun push_components :: "string \<Rightarrow> component list \<Rightarrow> string option" where
  "push_components candidate [] = Some candidate"
| "push_components candidate (Normal part # cs) = push_components (path_push candidate part) cs"
| "push_components candidate (CurDir # cs) = push_components candidate cs"
| "push_components candidate (RootDir # cs) = push_components candidate cs"
| "push_components candidate (ParentDir # cs) = None"

definition resolve :: "(string \<Rightarrow> string option) \<Rightarrow> fs \<Rightarrow> static_dir \<Rightarrow> string \<Rightarrow> string option" where
  "resolve pdecode fs d request_path =
     (case pdecode request_path of
        None \<Rightarrow> None
      | Some decoded \<Rightarrow>
          (case push_components (sd_root d) (components decoded) of
             None \<Rightarrow> None
           | Some candidate \<Rightarrow>
               (let candidate = (if fs_is_dir fs candidate then path_push candidate ''index.html''
                                 else candidate)
                in case fs_canonicalize fs candidate of
                     None \<Rightarrow> None
                   | Some real \<Rightarrow>
                       (case fs_canonicalize fs (sd_root d) of
                          None \<Rightarrow> None
                        | Some root \<Rightarrow>
                            if path_starts_with real root \<and> fs_is_file fs real then Some real
                            else None))))"

subsection \<open>Lemmas\<close>

definition plain_part :: "string \<Rightarrow> bool" where
  "plain_part p = (p \<noteq> [] \<and> slash \<notin> set p \<and> p \<noteq> ''.'' \<and> p \<noteq> ''..'')"

lemma piece_component_plain [simp]: "plain_part p \<Longrightarrow> piece_component p = [Normal p]"
  by (simp add: piece_component_def plain_part_def)

lemma split_on_append_char:
  "split_on d (s @ d # t) = split_on d s @ split_on d t"
proof (induction s)
  case (Cons c s)
  obtain q qs where "split_on d s = q # qs" by (cases "split_on d s") simp_all
  with Cons show ?case by simp
qed simp

lemma starts_with_slash_append: "s \<noteq> [] \<Longrightarrow> starts_with [slash] (s @ t) = starts_with [slash] s"
  by (cases s) (auto simp: starts_with_iff)

lemma plain_part_no_root: "plain_part p \<Longrightarrow> \<not> starts_with [slash] p"
  by (auto simp: plain_part_def starts_with_iff)

lemma components_plain [path_simps]: "plain_part p \<Longrightarrow> components p = [Normal p]"
proof -
  assume p: "plain_part p"
  then have "split_on slash p = [p]" and "p \<noteq> ''.''"
    by (simp_all add: plain_part_def split_on_no_sep)
  then show ?thesis using p plain_part_no_root [OF p] by (simp add: components_def)
qed

text \<open>Pushing one plain name appends exactly one component, whatever the buffer.\<close>

lemma components_push_plain [path_simps]:
  assumes "plain_part p"
  shows "components (path_push buf p) = components buf @ [Normal p]"
proof -
  have np: "\<not> starts_with [slash] p" and sp: "split_on slash p = [p]"
    using plain_part_no_root [OF assms] assms by (simp_all add: plain_part_def split_on_no_sep)
  consider "buf = []" | b where "buf = b @ [slash]" | "buf \<noteq> []" "last buf \<noteq> slash"
    by (metis append_butlast_last_id)
  then show ?thesis
  proof cases
    case 1
    then show ?thesis using assms np
      by (simp add: path_push_def components_plain) (simp add: components_def piece_component_def starts_with_iff)
  next
    case 2
    have "split_on slash (b @ slash # p) = split_on slash b @ [p]"
      and "split_on slash (b @ [slash]) = split_on slash b @ [[]]"
      using split_on_append_char [of slash b p] split_on_append_char [of slash b "[]"] sp by simp_all
    moreover have "starts_with [slash] (b @ slash # p) = starts_with [slash] (b @ [slash])"
      by (cases b) (auto simp: starts_with_iff)
    ultimately show ?thesis using 2 np assms
      by (simp add: path_push_def components_def Let_def) (simp add: piece_component_def)
  next
    case 3
    have "split_on slash (buf @ slash # p) = split_on slash buf @ [p]"
      using split_on_append_char [of slash buf p] sp by simp
    moreover have "starts_with [slash] (buf @ slash # p) = starts_with [slash] buf"
      using 3 by (simp add: starts_with_slash_append)
    ultimately show ?thesis using 3 np assms
      by (simp add: path_push_def components_def Let_def)
  qed
qed

lemma components_Normal_plain: "Normal p \<in> set (components s) \<Longrightarrow> plain_part p"
  by (auto simp: components_def Let_def piece_component_def plain_part_def
      dest: split_on_piece_no_sep split: if_splits)

lemma components_ParentDir: "ParentDir \<in> set (components s) \<longleftrightarrow> ''..'' \<in> set (split_on slash s)"
  by (auto simp: components_def Let_def piece_component_def split: if_splits)

lemma push_components_None_iff:
  "push_components buf cs = None \<longleftrightarrow> ParentDir \<in> set cs"
  by (induction buf cs rule: push_components.induct) auto

text \<open>What the loop builds: the root, then only plain names.\<close>

definition is_Normal :: "component \<Rightarrow> bool" where
  "is_Normal c = (case c of Normal _ \<Rightarrow> True | _ \<Rightarrow> False)"

lemma push_components_components:
  assumes "push_components buf cs = Some candidate" and "\<forall>p. Normal p \<in> set cs \<longrightarrow> plain_part p"
  shows "components candidate = components buf @ filter is_Normal cs"
  using assms
  by (induction buf cs rule: push_components.induct) (auto simp: components_push_plain is_Normal_def)

lemma resolve_SomeE:
  assumes "resolve pdecode fs d path = Some real"
  obtains decoded candidate root where
    "pdecode path = Some decoded"
    "push_components (sd_root d) (components decoded) = Some candidate"
    "fs_canonicalize fs (if fs_is_dir fs candidate then path_push candidate ''index.html''
       else candidate) = Some real"
    "fs_canonicalize fs (sd_root d) = Some root"
    "path_starts_with real root" "fs_is_file fs real"
  using assms by (auto simp: resolve_def Let_def split: option.splits if_splits)

lemma path_starts_with_self [simp]: "path_starts_with p p"
  by (simp add: path_starts_with_def starts_with_def)

lemma filter_is_Normal_components:
  "filter is_Normal (components s) = map Normal (filter plain_part (split_on slash s))"
proof -
  have "\<forall>p\<in>set ps. slash \<notin> set p \<Longrightarrow>
      filter is_Normal (concat (map piece_component ps)) = map Normal (filter plain_part ps)" for ps
    by (induction ps) (auto simp: piece_component_def plain_part_def is_Normal_def)
  then show ?thesis
    using split_on_piece_no_sep [of _ slash s]
    by (auto simp: components_def Let_def is_Normal_def)
qed

subsection \<open>Properties\<close>

text \<open>
  C0. A decoded request path with a \<open>..\<close> segment resolves to nothing, whatever the file system
  holds and however the path was percent-encoded.
\<close>

theorem resolve_rejects_parent:
  assumes "pdecode path = Some decoded" and "''..'' \<in> set (split_on slash decoded)"
  shows "resolve pdecode fs d path = None"
proof -
  have "push_components (sd_root d) (components decoded) = None"
    using assms by (simp add: push_components_None_iff components_ParentDir)
  with assms show ?thesis by (simp add: resolve_def)
qed

theorem resolve_rejects_parent_witness:
  "resolve (\<lambda>s. if s = ''/%2e%2e/secret'' then Some ''/../secret'' else Some s)
     \<lparr>fs_is_dir = (\<lambda>_. False), fs_is_file = (\<lambda>_. True), fs_canonicalize = Some\<rparr>
     (static_dir_new ''/srv/www'') ''/%2e%2e/secret'' = None"
  by (rule resolve_rejects_parent [of _ _ "''/../secret''"]) (simp, code_simp)

text \<open>
  C0. A resolved path lies under the canonical root, is a regular file, and is what the file
  system makes of the root extended by the plain names of the decoded path (and \<open>index.html\<close> when
  that is a directory): no other name is ever looked up.
\<close>

theorem resolve_stays_under_root:
  assumes "resolve pdecode fs d path = Some real"
  shows "\<exists>decoded root candidate.
     pdecode path = Some decoded \<and> fs_canonicalize fs (sd_root d) = Some root \<and>
     path_starts_with real root \<and> fs_is_file fs real \<and>
     fs_canonicalize fs (if fs_is_dir fs candidate then path_push candidate ''index.html''
       else candidate) = Some real \<and>
     components candidate
       = components (sd_root d) @ map Normal (filter plain_part (split_on slash decoded))"
proof -
  obtain decoded candidate root where *:
    "pdecode path = Some decoded"
    "push_components (sd_root d) (components decoded) = Some candidate"
    "fs_canonicalize fs (if fs_is_dir fs candidate then path_push candidate ''index.html''
       else candidate) = Some real"
    "fs_canonicalize fs (sd_root d) = Some root"
    "path_starts_with real root" "fs_is_file fs real"
    by (rule resolve_SomeE [OF assms])
  have "components candidate = components (sd_root d) @ filter is_Normal (components decoded)"
    using *(2) by (rule push_components_components) (auto intro: components_Normal_plain)
  with * show ?thesis
    by (intro exI [of _ decoded] exI [of _ root] exI [of _ candidate])
      (simp add: filter_is_Normal_components)
qed

definition demo_fs :: fs where
  "demo_fs =
     \<lparr>fs_is_dir = (\<lambda>p. p = ''/srv/www''), fs_is_file = (\<lambda>p. p = ''/srv/www/a/b.txt''),
      fs_canonicalize = (\<lambda>p. if p \<in> set [''/srv/www'', ''/srv/www/a/b.txt''] then Some p else None)\<rparr>"

lemma demo_resolve:
  "resolve Some demo_fs (static_dir_new ''/srv/www'') ''//a/./b.txt'' = Some ''/srv/www/a/b.txt''"
  by code_simp

theorem resolve_stays_under_root_witness:
  "\<exists>decoded root candidate.
     Some ''//a/./b.txt'' = Some decoded \<and> fs_canonicalize demo_fs ''/srv/www'' = Some root \<and>
     path_starts_with ''/srv/www/a/b.txt'' root \<and> fs_is_file demo_fs ''/srv/www/a/b.txt'' \<and>
     fs_canonicalize demo_fs (if fs_is_dir demo_fs candidate then path_push candidate ''index.html''
       else candidate) = Some ''/srv/www/a/b.txt'' \<and>
     components candidate
       = components ''/srv/www'' @ map Normal (filter plain_part (split_on slash decoded))"
  using resolve_stays_under_root [OF demo_resolve] by (simp add: static_dir_new_def)

end
