(* ===== verification/Router.thy ===== *)
theory Router
  imports StaticFiles "HOL-Library.Multiset"
begin

section \<open>Routing and load balancing: \<^verbatim>\<open>crates/zaphyl-core/src/router.rs\<close>\<close>

text \<open>
  Targets, routes and the router.  A target's health flag is an \<open>Arc<AtomicBool>\<close> that its
  clones and the health prober share, so it is a cell of an explicit store (\<open>health\<close>) and a
  target holds the cell's number.  A route's \<open>next\<close> counter is an \<open>AtomicUsize\<close>: a 64-bit word
  whose \<open>fetch_add\<close> wraps around; the operations that advance it return the route updated.
  At the end, the same selection loop run by several threads at once, one atomic action per step.
\<close>

subsection \<open>Targets and their health cells\<close>

record health =
  cells :: "nat \<Rightarrow> bool"
  fresh :: nat

record target =
  t_address :: string
  t_tls :: bool
  t_sni :: string
  t_h2 :: bool
  t_healthy :: nat

definition target_new :: "health \<Rightarrow> string \<Rightarrow> bool \<Rightarrow> string \<Rightarrow> health \<times> target" where
  "target_new h address tls sni =
     (h\<lparr>cells := (cells h)(fresh h := True), fresh := Suc (fresh h)\<rparr>,
      \<lparr>t_address = address, t_tls = tls, t_sni = sni, t_h2 = False, t_healthy = fresh h\<rparr>)"

definition with_h2 :: "target \<Rightarrow> bool \<Rightarrow> target" where
  "with_h2 t h2 = t\<lparr>t_h2 := h2\<rparr>"

definition is_healthy :: "health \<Rightarrow> target \<Rightarrow> bool" where
  "is_healthy h t = cells h (t_healthy t)"

definition health_handle :: "target \<Rightarrow> nat" where
  "health_handle t = t_healthy t"

text \<open>\<open>handle.store(b)\<close>, as the health prober does\<close>

definition store_health :: "health \<Rightarrow> nat \<Rightarrow> bool \<Rightarrow> health" where
  "store_health h cell b = h\<lparr>cells := (cells h)(cell := b)\<rparr>"

subsection \<open>Routes\<close>

record route =
  r_host :: "string option"
  r_path_prefix :: "string option"
  r_targets :: "target list"
  r_strip_prefix :: bool
  r_request_headers :: headers
  r_response_headers :: headers
  r_static_dir :: "static_dir option"
  r_id :: nat
  r_next :: u64

definition route_new :: "string option \<Rightarrow> string option \<Rightarrow> target list \<Rightarrow> route" where
  "route_new host path_prefix targets =
     \<lparr>r_host = host, r_path_prefix = path_prefix, r_targets = targets, r_strip_prefix = False,
      r_request_headers = [], r_response_headers = [], r_static_dir = None, r_id = 0, r_next = 0\<rparr>"

definition with_id :: "route \<Rightarrow> nat \<Rightarrow> route" where
  "with_id r i = r\<lparr>r_id := i\<rparr>"

definition with_static :: "route \<Rightarrow> static_dir \<Rightarrow> route" where
  "with_static r d = r\<lparr>r_static_dir := Some d\<rparr>"

definition with_strip_prefix :: "route \<Rightarrow> bool \<Rightarrow> route" where
  "with_strip_prefix r b = r\<lparr>r_strip_prefix := b\<rparr>"

definition with_headers :: "route \<Rightarrow> headers \<Rightarrow> headers \<Rightarrow> route" where
  "with_headers r req resp = r\<lparr>r_request_headers := req, r_response_headers := resp\<rparr>"

definition rewrite_path :: "route \<Rightarrow> string \<Rightarrow> string option" where
  "rewrite_path r path =
     (if \<not> r_strip_prefix r then None
      else case r_path_prefix r of
             None \<Rightarrow> None
           | Some p \<Rightarrow>
               (let prefix = trim_end_matches slash p;
                    rest = (case strip_prefix prefix path of None \<Rightarrow> path | Some rest \<Rightarrow> rest)
                in Some (if rest = [] then [slash] else rest)))"

text \<open>
  The selection loop.  \<open>fetch_add\<close> returns the old value; \<open>scan_targets\<close> runs the remaining
  iterations from the counter value it is given and returns the counter and the healthy target
  it stopped at, if any.
\<close>

fun scan_targets :: "health \<Rightarrow> target list \<Rightarrow> nat \<Rightarrow> u64 \<Rightarrow> u64 \<times> target option" where
  "scan_targets h ts 0 n = (n, None)"
| "scan_targets h ts (Suc k) n =
     (let index = unat n mod length ts
      in if is_healthy h (ts ! index) then (n + 1, Some (ts ! index))
         else scan_targets h ts k (n + 1))"

definition next_target :: "health \<Rightarrow> route \<Rightarrow> route \<times> target option" where
  "next_target h r =
     (let count = length (r_targets r)
      in if count = 0 then (r, None)
         else case scan_targets h (r_targets r) count (r_next r) of
                (n, Some t) \<Rightarrow> (r\<lparr>r_next := n\<rparr>, Some t)
              | (n, None) \<Rightarrow> (r\<lparr>r_next := n + 1\<rparr>, Some (r_targets r ! (unat n mod count))))"

definition path_under_prefix :: "string \<Rightarrow> string \<Rightarrow> bool" where
  "path_under_prefix path pfx =
     (let prefix = trim_end_matches slash pfx
      in if prefix = [] then True
         else case strip_prefix prefix path of
                Some rest \<Rightarrow> rest = [] \<or> starts_with [slash] rest
              | None \<Rightarrow> False)"

definition host_matches :: "route \<Rightarrow> string option \<Rightarrow> bool" where
  "host_matches r host =
     (case r_host r of
        None \<Rightarrow> True
      | Some expected \<Rightarrow> (case host of None \<Rightarrow> False | Some h \<Rightarrow> eq_ignore_ascii_case h expected))"

definition path_matches :: "route \<Rightarrow> string \<Rightarrow> bool" where
  "path_matches r path =
     (case r_path_prefix r of None \<Rightarrow> True | Some prefix \<Rightarrow> path_under_prefix path prefix)"

definition route_matches :: "route \<Rightarrow> string option \<Rightarrow> string \<Rightarrow> bool" where
  "route_matches r host path = (host_matches r host \<and> path_matches r path)"

subsection \<open>The router\<close>

type_synonym router = "route list"

definition match_route :: "router \<Rightarrow> string option \<Rightarrow> string \<Rightarrow> route option" where
  "match_route rt host path = List.find (\<lambda>r. route_matches r host path) rt"

definition health_probes :: "router \<Rightarrow> (string \<times> nat) list" where
  "health_probes rt = concat (map (\<lambda>r. map (\<lambda>t. (t_address t, health_handle t)) (r_targets r)) rt)"

text \<open>
  \<open>router.match_route(host, path).and_then(Route::next_target)\<close>: the matched route's counter
  advances inside the shared router.
\<close>

fun next_target_for :: "health \<Rightarrow> router \<Rightarrow> string option \<Rightarrow> string \<Rightarrow> router \<times> target option" where
  "next_target_for h [] host path = ([], None)"
| "next_target_for h (r # rs) host path =
     (if route_matches r host path then (let (r', t) = next_target h r in (r' # rs, t))
      else (let (rs', t) = next_target_for h rs host path in (r # rs', t)))"

subsection \<open>The specification of the selection\<close>

text \<open>
  Round robin with health preference, stated over the rotation of the target list that starts
  at the counter: the first healthy target of the rotation, or the rotation's head when none is.
\<close>

definition rr_spec :: "(target \<Rightarrow> bool) \<Rightarrow> target list \<Rightarrow> nat \<Rightarrow> target option" where
  "rr_spec ok ts n =
     (case rotate n ts of
        [] \<Rightarrow> None
      | t # _ \<Rightarrow> (case List.find ok (rotate n ts) of Some u \<Rightarrow> Some u | None \<Rightarrow> Some t))"

lemma scan_targets_eq:
  assumes "ts \<noteq> []" and "unat n + k < 2 ^ 64"
  shows "scan_targets h ts k n =
     (case List.find (is_healthy h) (map (\<lambda>i. ts ! ((unat n + i) mod length ts)) [0..<k]) of
        None \<Rightarrow> (n + of_nat k, None)
      | Some t \<Rightarrow> (fst (scan_targets h ts k n), Some t))"
  using assms
proof (induction k arbitrary: n)
  case (Suc k)
  have up: "unat (n + 1) = unat n + 1" using Suc.prems by (intro unat_plus_one) simp
  have split: "map (\<lambda>i. ts ! ((unat n + i) mod length ts)) [0..<Suc k]
      = ts ! (unat n mod length ts) # map (\<lambda>i. ts ! ((unat (n + 1) + i) mod length ts)) [0..<k]"
    by (simp del: upt_Suc add: map_upt_Suc up)
  have "scan_targets h ts k (n + 1) =
     (case List.find (is_healthy h) (map (\<lambda>i. ts ! ((unat (n + 1) + i) mod length ts)) [0..<k]) of
        None \<Rightarrow> (n + 1 + of_nat k, None)
      | Some t \<Rightarrow> (fst (scan_targets h ts k (n + 1)), Some t))"
    using Suc.prems by (intro Suc.IH) (simp_all add: up)
  then show ?case
    by (simp only: split find.simps) (auto simp: Let_def add.assoc split: option.splits)
qed simp

lemma rotate_conv_map: "ts \<noteq> [] \<Longrightarrow> rotate n ts = map (\<lambda>i. ts ! ((n + i) mod length ts)) [0..<length ts]"
  by (rule nth_equalityI) (simp_all add: nth_rotate add.commute)

lemma scan_targets_None:
  "scan_targets h ts k n = (n', None) \<Longrightarrow> n' = n + of_nat k"
proof (induction k arbitrary: n)
  case (Suc k)
  then have "scan_targets h ts k (n + 1) = (n', None)" by (simp add: Let_def split: if_splits)
  from Suc.IH [OF this] show ?case by (simp add: add.assoc)
qed simp

lemma scan_targets_mem:
  "scan_targets h ts k n = (n', Some t) \<Longrightarrow> ts \<noteq> [] \<Longrightarrow> t \<in> set ts \<and> is_healthy h t"
proof (induction k arbitrary: n)
  case (Suc k)
  then show ?case by (auto simp: Let_def split: if_splits)
qed simp

lemma next_target_frame: "\<exists>n. fst (next_target h r) = r\<lparr>r_next := n\<rparr>"
  by (cases "scan_targets h (r_targets r) (length (r_targets r)) (r_next r)")
    (auto simp: next_target_def Let_def split: option.splits intro: exI [of _ "r_next r"])

lemma next_target_targets [simp]: "r_targets (fst (next_target h r)) = r_targets r"
  using next_target_frame [of h r] by auto

lemma route_matches_r_next [simp]: "route_matches (r\<lparr>r_next := n\<rparr>) = route_matches r"
  by (simp add: fun_eq_iff route_matches_def host_matches_def path_matches_def)

lemma route_matches_next_target [simp]: "route_matches (fst (next_target h r)) = route_matches r"
  using next_target_frame [of h r] by auto

lemma next_target_mem: "snd (next_target h r) = Some t \<Longrightarrow> t \<in> set (r_targets r)"
proof -
  assume s: "snd (next_target h r) = Some t"
  then have ne: "r_targets r \<noteq> []" by (auto simp: next_target_def)
  obtain n' x where sc: "scan_targets h (r_targets r) (length (r_targets r)) (r_next r) = (n', x)"
    by (cases "scan_targets h (r_targets r) (length (r_targets r)) (r_next r)")
  show ?thesis
  proof (cases x)
    case None
    with s sc ne have "t = r_targets r ! (unat n' mod length (r_targets r))"
      by (simp add: next_target_def Let_def)
    with ne show ?thesis by simp
  next
    case (Some u)
    with s sc ne have "t = u" by (simp add: next_target_def Let_def)
    with Some sc ne show ?thesis by (auto dest: scan_targets_mem)
  qed
qed

lemma next_target_None_iff: "snd (next_target h r) = None \<longleftrightarrow> r_targets r = []"
  by (auto simp: next_target_def Let_def split: prod.splits option.splits)

lemma next_target_rr:
  assumes "unat (r_next r) + length (r_targets r) < 2 ^ 64"
  shows "snd (next_target h r) = rr_spec (is_healthy h) (r_targets r) (unat (r_next r))"
proof (cases "r_targets r = []")
  case True
  then show ?thesis by (simp add: next_target_def rr_spec_def)
next
  case False
  define ts n where "ts = r_targets r" and "n = r_next r"
  have rot: "rotate (unat n) ts = map (\<lambda>i. ts ! ((unat n + i) mod length ts)) [0..<length ts]"
    using False by (simp add: rotate_conv_map ts_def)
  have hd_rot: "hd (rotate (unat n) ts) = ts ! (unat n mod length ts)"
    using False by (simp add: hd_rotate_conv_nth ts_def)
  obtain a as where cons: "rotate (unat n) ts = a # as"
    using False by (cases "rotate (unat n) ts") (auto simp: ts_def)
  have bound: "unat (of_nat (length ts) :: u64) = length ts"
    using assms by (simp add: unat_of_nat ts_def)
  have fall: "unat (n + of_nat (length ts)) mod length ts = unat n mod length ts"
    using assms bound by (simp add: unat_word_ariths ts_def n_def)
  have scan: "scan_targets h ts (length ts) n =
     (case List.find (is_healthy h) (rotate (unat n) ts) of
        None \<Rightarrow> (n + of_nat (length ts), None)
      | Some t \<Rightarrow> (fst (scan_targets h ts (length ts) n), Some t))"
    unfolding rot using False assms by (intro scan_targets_eq) (simp_all add: ts_def n_def)
  show ?thesis
  proof (cases "List.find (is_healthy h) (rotate (unat n) ts)")
    case None
    with scan have "scan_targets h ts (length ts) n = (n + of_nat (length ts), None)" by simp
    with None False fall hd_rot cons show ?thesis
      by (simp add: next_target_def rr_spec_def Let_def ts_def n_def split: if_splits option.splits)
  next
    case (Some t)
    with scan obtain m where "scan_targets h ts (length ts) n = (m, Some t)" by auto
    with Some False cons show ?thesis
      by (simp add: next_target_def rr_spec_def Let_def ts_def n_def)
  qed
qed

lemma rr_spec_healthy:
  assumes "u \<in> set ts" and "ok u"
  shows "\<exists>t\<in>set ts. rr_spec ok ts n = Some t \<and> ok t"
proof -
  have u: "u \<in> set (rotate n ts)" using assms by simp
  with assms have "List.find ok (rotate n ts) \<noteq> None" by (auto simp: find_None_iff)
  then obtain t where t: "List.find ok (rotate n ts) = Some t" by blast
  then have "t \<in> set ts" and "ok t" by (metis find_Some_iff nth_mem set_rotate)+
  moreover obtain a as where "rotate n ts = a # as" using u by (cases "rotate n ts") auto
  ultimately show ?thesis using t by (auto simp: rr_spec_def)
qed

subsection \<open>The balancer's contract\<close>

text \<open>
  What the request handlers rely on: a pick comes from the members, it exists when there are
  members, and it leaves the members as they are.  The lemmas about several picks in a row are
  proved once, from the contract.
\<close>

fun picks :: "('s \<Rightarrow> 's \<times> 'a option) \<Rightarrow> nat \<Rightarrow> 's \<Rightarrow> 's \<times> 'a option list" where
  "picks f 0 s = (s, [])"
| "picks f (Suc k) s = (let (s', x) = f s; (s'', xs) = picks f k s' in (s'', x # xs))"

locale balancer =
  fixes pick :: "'s \<Rightarrow> 's \<times> 'a option"
    and members :: "'s \<Rightarrow> 'a list"
  assumes pick_frame: "members (fst (pick s)) = members s"
    and pick_mem: "snd (pick s) = Some t \<Longrightarrow> t \<in> set (members s)"
    and pick_total: "members s \<noteq> [] \<Longrightarrow> snd (pick s) \<noteq> None"
begin

lemma pick_None_iff: "snd (pick s) = None \<longleftrightarrow> members s = []"
  using pick_total [of s] pick_mem [of s] by (cases "snd (pick s)") auto

lemma picks_frame: "members (fst (picks pick k s)) = members s"
proof (induction k arbitrary: s)
  case (Suc k)
  then show ?case using pick_frame [of s] by (auto split: prod.splits) (metis fst_conv)
qed simp

lemma picks_mem: "Some t \<in> set (snd (picks pick k s)) \<Longrightarrow> t \<in> set (members s)"
proof (induction k arbitrary: s)
  case (Suc k)
  obtain s' x s'' xs where p: "pick s = (s', x)" "picks pick k s' = (s'', xs)" by fastforce
  with Suc.prems have "x = Some t \<or> Some t \<in> set (snd (picks pick k s'))" by auto
  moreover have "members s' = members s" using pick_frame [of s] p by simp
  ultimately show ?case using pick_mem [of s] Suc.IH [of s'] p by auto
qed simp

end

interpretation route_lb: balancer "next_target h" r_targets for h :: health
  by unfold_locales (auto simp: next_target_None_iff intro: next_target_mem)

definition matched_targets :: "string option \<Rightarrow> string \<Rightarrow> router \<Rightarrow> target list" where
  "matched_targets host path rt =
     (case match_route rt host path of None \<Rightarrow> [] | Some r \<Rightarrow> r_targets r)"

lemma matched_targets_simps [simp]:
  "matched_targets host path [] = []"
  "matched_targets host path (r # rs) =
     (if route_matches r host path then r_targets r else matched_targets host path rs)"
  by (simp_all add: matched_targets_def match_route_def)

text \<open>Advancing the matched route is what the two-step call does.\<close>

lemma next_target_for_snd:
  "snd (next_target_for h rt host path) =
     (case match_route rt host path of None \<Rightarrow> None | Some r \<Rightarrow> snd (next_target h r))"
  by (induction rt) (auto simp: match_route_def split: prod.splits)

lemma next_target_for_frame:
  "list_all2 (\<lambda>r r'. \<exists>n. r' = r\<lparr>r_next := n\<rparr>) rt (fst (next_target_for h rt host path))"
proof (induction rt)
  case (Cons r rs)
  have same: "\<exists>n. x = x\<lparr>r_next := n\<rparr>" for x :: route by (rule exI [of _ "r_next x"]) simp
  then have "list_all2 (\<lambda>r r'. \<exists>n. r' = r\<lparr>r_next := n\<rparr>) rs rs" by (simp add: list_all2_same)
  with Cons same next_target_frame [of h r] show ?case by (auto split: prod.splits)
qed simp

lemma matched_targets_frame [simp]:
  "matched_targets host' path' (fst (next_target_for h rt host path)) = matched_targets host' path' rt"
proof (induction rt)
  case (Cons r rs)
  obtain r' t where nt: "next_target h r = (r', t)" by fastforce
  then have "route_matches r' = route_matches r" "r_targets r' = r_targets r"
    using route_matches_next_target [of h r] next_target_targets [of h r] by simp_all
  with nt Cons show ?case by (auto split: prod.splits)
qed simp

interpretation router_lb: balancer "\<lambda>rt. next_target_for h rt host path" "matched_targets host path"
  for h host path
proof unfold_locales
  fix rt t
  assume "snd (next_target_for h rt host path) = Some t"
  then show "t \<in> set (matched_targets host path rt)"
    by (auto simp: next_target_for_snd matched_targets_def split: option.splits intro: next_target_mem)
next
  fix rt
  assume "matched_targets host path rt \<noteq> []"
  then show "snd (next_target_for h rt host path) \<noteq> None"
    using next_target_None_iff by (auto simp: next_target_for_snd matched_targets_def split: option.splits)
qed simp

subsection \<open>What a route accepts\<close>

text \<open>
  The declarative reading of a route's matchers: the host equals the configured one up to ASCII
  case, the path is the prefix (trailing slashes dropped) or continues it at a segment boundary.
\<close>

definition accepts :: "string option \<Rightarrow> string \<Rightarrow> route \<Rightarrow> bool" where
  "accepts host path r =
     ((\<forall>h. r_host r = Some h \<longrightarrow>
         (\<exists>g. host = Some g \<and> to_ascii_lowercase g = to_ascii_lowercase h)) \<and>
      (\<forall>p. r_path_prefix r = Some p \<longrightarrow>
         (let q = trim_end_matches slash p
          in q = [] \<or> path = q \<or> (\<exists>rest. path = q @ slash # rest))))"

lemma path_under_prefix_iff:
  "path_under_prefix path p \<longleftrightarrow>
     (let q = trim_end_matches slash p
      in q = [] \<or> path = q \<or> (\<exists>rest. path = q @ slash # rest))"
  by (auto simp: path_under_prefix_def Let_def str_simps strip_prefix_None_iff split: option.splits)

lemma route_matches_iff_accepts: "route_matches r host path \<longleftrightarrow> accepts host path r"
  by (auto simp: route_matches_def host_matches_def path_matches_def eq_ignore_ascii_case_def
      path_under_prefix_iff accepts_def split: option.splits)

lemma match_route_None_iff: "match_route rt host path = None \<longleftrightarrow> list_all (\<lambda>s. \<not> accepts host path s) rt"
  by (induction rt) (auto simp: match_route_def route_matches_iff_accepts)

text \<open>
  C31. The router answers with the first route, in configuration order, that accepts the host and
  the path, and with none exactly when no route accepts them; a route accepts the configured host
  in any ASCII case and the configured prefix at segment boundaries only.
\<close>

theorem match_route_first_match:
  "(match_route rt host path = Some r \<longleftrightarrow>
     (\<exists>before after. rt = before @ r # after \<and> accepts host path r \<and>
        list_all (\<lambda>s. \<not> accepts host path s) before)) \<and>
   (match_route rt host path = None \<longleftrightarrow> list_all (\<lambda>s. \<not> accepts host path s) rt)"
proof (induction rt)
  case (Cons a rt)
  show ?case
  proof (cases "accepts host path a")
    case True
    then have "(\<exists>before after. a # rt = before @ r # after \<and> accepts host path r \<and>
        list_all (\<lambda>s. \<not> accepts host path s) before) \<longleftrightarrow> a = r"
      by (auto simp: Cons_eq_append_conv intro: exI [of _ "[]"])
    with True show ?thesis by (simp add: match_route_def route_matches_iff_accepts)
  next
    case False
    then have "(\<exists>before after. a # rt = before @ r # after \<and> accepts host path r \<and>
        list_all (\<lambda>s. \<not> accepts host path s) before) \<longleftrightarrow>
      (\<exists>before after. rt = before @ r # after \<and> accepts host path r \<and>
        list_all (\<lambda>s. \<not> accepts host path s) before)"
      (is "?L \<longleftrightarrow> ?R")
    proof (intro iffI; elim exE conjE)
      fix before after
      assume *: "a # rt = before @ r # after" "accepts host path r"
        "list_all (\<lambda>s. \<not> accepts host path s) before"
      with False obtain b where "before = a # b" by (cases before) auto
      with * show ?R by auto
    next
      fix before after
      assume "rt = before @ r # after" "accepts host path r"
        "list_all (\<lambda>s. \<not> accepts host path s) before"
      with False show ?L by (intro exI [of _ "a # before"] exI [of _ after]) simp
    qed
    with False Cons show ?thesis by (simp add: match_route_def route_matches_iff_accepts)
  qed
qed (simp add: match_route_def)

lemma accepts_rest:
  assumes "accepts host path r" and "r_path_prefix r = Some p"
  shows "\<exists>rest. path = trim_end_matches slash p @ rest \<and>
     (trim_end_matches slash p = [] \<or> rest = [] \<or> hd rest = slash)"
  using assms by (auto simp: accepts_def Let_def)

lemma rewrite_path_slash:
  assumes "accepts host (slash # path) r" and "r_strip_prefix r" and "r_path_prefix r = Some p"
  shows "\<exists>rest. rewrite_path r (slash # path) = Some (slash # rest) \<and>
     (slash # path = trim_end_matches slash p @ slash # rest \<or>
      slash # path = trim_end_matches slash p \<and> rest = [])"
proof -
  obtain rest where rest: "slash # path = trim_end_matches slash p @ rest"
    and hd: "trim_end_matches slash p = [] \<or> rest = [] \<or> hd rest = slash"
    using accepts_rest [OF assms(1,3)] by blast
  then have "rewrite_path r (slash # path) = Some (if rest = [] then [slash] else rest)"
    using assms by (simp add: rewrite_path_def)
  then show ?thesis using rest hd by (cases rest) auto
qed

text \<open>
  On a route that accepts an absolute path and strips its prefix, the forwarded path starts
  with a slash, and prepending the prefix gives the request path back (the bare prefix being
  forwarded as the root).
\<close>

theorem rewrite_path_absolute:
  assumes "accepts host (slash # path) r" and "r_strip_prefix r" and "r_path_prefix r = Some p"
  shows "\<exists>rest. rewrite_path r (slash # path) = Some (slash # rest) \<and>
     (slash # path = trim_end_matches slash p @ slash # rest \<or>
      slash # path = trim_end_matches slash p \<and> rest = [])"
  using assms by (rule rewrite_path_slash)

definition api_route :: route where
  "api_route = with_strip_prefix (route_new None (Some ''/api/'') []) True"

theorem rewrite_path_absolute_witness:
  "\<exists>rest. rewrite_path api_route ''/api/users'' = Some (slash # rest) \<and>
     (''/api/users'' = trim_end_matches slash ''/api/'' @ slash # rest \<or>
      ''/api/users'' = trim_end_matches slash ''/api/'' \<and> rest = [])"
proof -
  have "accepts None ''/api/users'' api_route"
    unfolding route_matches_iff_accepts [symmetric] by code_simp
  moreover have "r_strip_prefix api_route" "r_path_prefix api_route = Some ''/api/''"
    by (simp_all add: api_route_def with_strip_prefix_def route_new_def)
  ultimately show ?thesis using rewrite_path_absolute [of None "''api/users''" api_route] by simp
qed

subsection \<open>Properties of the selection\<close>

text \<open>
  C21. As long as the counter does not wrap around within the scan, picking a target implements
  the specification: the first healthy target of the rotation that starts at the counter, the
  rotation's head when none is healthy, and none for a route without targets.
\<close>

theorem next_target_refines_rr:
  assumes "unat (r_next r) + length (r_targets r) < 2 ^ 64"
  shows "snd (next_target h r) = rr_spec (is_healthy h) (r_targets r) (unat (r_next r))"
  using assms by (rule next_target_rr)

definition tgt :: "string \<Rightarrow> nat \<Rightarrow> target" where
  "tgt a cell = \<lparr>t_address = a, t_tls = False, t_sni = [], t_h2 = False, t_healthy = cell\<rparr>"

definition three_targets :: route where
  "three_targets = route_new None None [tgt ''a:1'' 0, tgt ''b:2'' 1, tgt ''c:3'' 2]"

definition only_c :: health where
  "only_c = \<lparr>cells = (\<lambda>i. i = 2), fresh = 3\<rparr>"

theorem next_target_refines_rr_witness:
  "snd (next_target only_c three_targets)
     = rr_spec (is_healthy only_c) (r_targets three_targets) (unat (r_next three_targets))
   \<and> snd (next_target only_c three_targets) = Some (tgt ''c:3'' 2)"
proof
  show "snd (next_target only_c three_targets)
     = rr_spec (is_healthy only_c) (r_targets three_targets) (unat (r_next three_targets))"
    by (rule next_target_refines_rr) (simp add: three_targets_def route_new_def)
  show "snd (next_target only_c three_targets) = Some (tgt ''c:3'' 2)" by code_simp
qed

text \<open>
  Without interference, a healthy target is chosen whenever the route has one.
\<close>

theorem next_target_prefers_healthy:
  assumes "u \<in> set (r_targets r)" and "is_healthy h u"
    and "unat (r_next r) + length (r_targets r) < 2 ^ 64"
  shows "\<exists>t\<in>set (r_targets r). snd (next_target h r) = Some t \<and> is_healthy h t"
  using next_target_rr [OF assms(3), of h] rr_spec_healthy [OF assms(1), of "is_healthy h"] assms(2)
  by simp

theorem next_target_prefers_healthy_witness:
  "\<exists>t\<in>set (r_targets three_targets).
     snd (next_target only_c three_targets) = Some t \<and> is_healthy only_c t"
  by (rule next_target_prefers_healthy [of "tgt ''c:3'' 2"])
    (simp_all add: three_targets_def route_new_def is_healthy_def only_c_def tgt_def)

text \<open>The picks of a route whose targets are all healthy walk round the list.\<close>

lemma next_target_all_healthy:
  assumes "list_all (is_healthy h) (r_targets r)" and "r_targets r \<noteq> []"
  shows "next_target h r
    = (r\<lparr>r_next := r_next r + 1\<rparr>, Some (r_targets r ! (unat (r_next r) mod length (r_targets r))))"
proof -
  obtain k where k: "length (r_targets r) = Suc k" using assms(2) by (cases "r_targets r") auto
  have "is_healthy h (r_targets r ! (unat (r_next r) mod length (r_targets r)))"
    using assms by (simp add: list_all_length)
  with k show ?thesis using assms(2) by (simp add: next_target_def Let_def)
qed

lemma picks_all_healthy:
  assumes "list_all (is_healthy h) (r_targets r)" and "r_targets r \<noteq> []"
    and "unat (r_next r) + k < 2 ^ 64"
  shows "snd (picks (next_target h) k r)
    = map (\<lambda>i. Some (r_targets r ! ((unat (r_next r) + i) mod length (r_targets r)))) [0..<k]"
  using assms
proof (induction k arbitrary: r)
  case (Suc k)
  let ?r = "r\<lparr>r_next := r_next r + 1\<rparr>"
  have up: "unat (r_next r + 1) = unat (r_next r) + 1" using Suc.prems by (intro unat_plus_one) simp
  have "snd (picks (next_target h) k ?r)
    = map (\<lambda>i. Some (r_targets r ! ((unat (r_next r) + 1 + i) mod length (r_targets r)))) [0..<k]"
    using Suc.IH [of ?r] Suc.prems by (simp add: up)
  then show ?case using next_target_all_healthy [OF Suc.prems(1,2)]
    by (simp del: upt_Suc add: map_upt_Suc split: prod.splits) auto
qed simp

lemma mset_rotate [simp]: "mset (rotate n xs) = mset xs"
proof (induction n)
  case (Suc n)
  then show ?case by (cases "rotate n xs") simp_all
qed simp

text \<open>
  C0. Fairness: when every target is healthy, any \<open>count\<close> consecutive picks choose every target
  of the route exactly once.
\<close>

theorem next_target_fair:
  assumes "list_all (is_healthy h) (r_targets r)" and "r_targets r \<noteq> []"
    and "unat (r_next r) + length (r_targets r) < 2 ^ 64"
  shows "mset (snd (picks (next_target h) (length (r_targets r)) r)) = mset (map Some (r_targets r))"
proof -
  have "snd (picks (next_target h) (length (r_targets r)) r)
      = map Some (rotate (unat (r_next r)) (r_targets r))"
    using picks_all_healthy [OF assms] assms(2) by (simp add: rotate_conv_map)
  then show ?thesis by simp
qed

theorem next_target_fair_witness:
  "mset (snd (picks (next_target \<lparr>cells = (\<lambda>_. True), fresh = 3\<rparr>) (length (r_targets three_targets))
       three_targets))
     = mset (map Some (r_targets three_targets))"
  by (rule next_target_fair) (simp_all add: three_targets_def route_new_def is_healthy_def)

end
