(* ===== verification/ConcurrentPick.thy ===== *)
theory ConcurrentPick
  imports Router
begin

section \<open>\<open>Route::next_target\<close> under concurrency\<close>

text \<open>
  \<open>next_target\<close> takes no lock: concurrent requests share the route's atomic counter, and the
  health prober stores into the flags meanwhile.  Here every thread runs the loop of
  \<^verbatim>\<open>crates/zaphyl-core/src/router.rs\<close> one atomic action at a time: \<open>Scan k\<close> is the head of the
  \<open>for\<close> loop with \<open>k\<close> iterations left, \<open>Probe i k\<close> is between the \<open>fetch_add\<close> and the load of the
  flag of target \<open>i\<close>, and \<open>Done t\<close> is the return of \<open>t\<close>.  A step is labelled with the thread
  that moves, or \<open>None\<close> for a store of the prober.
\<close>

datatype pick_pc = Scan nat | Probe nat nat | Done target

record lb_state =
  lb_health :: health
  lb_next :: u64
  lb_pcs :: "pick_pc list"

inductive lb_step :: "target list \<Rightarrow> nat option \<Rightarrow> lb_state \<Rightarrow> lb_state \<Rightarrow> bool" for ts where
  fetch: "i < length (lb_pcs s) \<Longrightarrow> lb_pcs s ! i = Scan (Suc k) \<Longrightarrow>
    lb_step ts (Some i) s
      (s\<lparr>lb_next := lb_next s + 1,
         lb_pcs := (lb_pcs s)[i := Probe (unat (lb_next s) mod length ts) k]\<rparr>)"
| hit: "i < length (lb_pcs s) \<Longrightarrow> lb_pcs s ! i = Probe j k \<Longrightarrow> is_healthy (lb_health s) (ts ! j) \<Longrightarrow>
    lb_step ts (Some i) s (s\<lparr>lb_pcs := (lb_pcs s)[i := Done (ts ! j)]\<rparr>)"
| miss: "i < length (lb_pcs s) \<Longrightarrow> lb_pcs s ! i = Probe j k \<Longrightarrow> \<not> is_healthy (lb_health s) (ts ! j) \<Longrightarrow>
    lb_step ts (Some i) s (s\<lparr>lb_pcs := (lb_pcs s)[i := Scan k]\<rparr>)"
| fallback: "i < length (lb_pcs s) \<Longrightarrow> lb_pcs s ! i = Scan 0 \<Longrightarrow>
    lb_step ts (Some i) s
      (s\<lparr>lb_next := lb_next s + 1,
         lb_pcs := (lb_pcs s)[i := Done (ts ! (unat (lb_next s) mod length ts))]\<rparr>)"
| prober: "lb_step ts None s (s\<lparr>lb_health := store_health (lb_health s) c b\<rparr>)"

inductive lb_run :: "target list \<Rightarrow> lb_state \<Rightarrow> nat option list \<Rightarrow> lb_state \<Rightarrow> bool" for ts where
  stop: "lb_run ts s [] s"
| more: "lb_step ts l s s' \<Longrightarrow> lb_run ts s' ls s'' \<Longrightarrow> lb_run ts s (l # ls) s''"

inductive_cases lb_step_prober: "lb_step ts None s s'"
inductive_cases lb_step_thread: "lb_step ts (Some i) s s'"
inductive_simps lb_run_Nil: "lb_run ts s [] s'"
inductive_simps lb_run_Cons: "lb_run ts s (l # ls) s'"

text \<open>All threads at the start of \<open>next_target\<close>.\<close>

definition lb_init :: "target list \<Rightarrow> health \<Rightarrow> u64 \<Rightarrow> nat \<Rightarrow> lb_state" where
  "lb_init ts h n threads =
     \<lparr>lb_health = h, lb_next = n, lb_pcs = replicate threads (Scan (length ts))\<rparr>"

subsection \<open>Invariant and progress\<close>

definition pc_ok :: "target list \<Rightarrow> pick_pc \<Rightarrow> bool" where
  "pc_ok ts pc = (case pc of Scan k \<Rightarrow> k \<le> length ts | Probe j k \<Rightarrow> j < length ts \<and> k < length ts
                   | Done t \<Rightarrow> t \<in> set ts)"

definition lb_inv :: "target list \<Rightarrow> lb_state \<Rightarrow> bool" where
  "lb_inv ts s = list_all (pc_ok ts) (lb_pcs s)"

lemma list_all_update: "list_all P xs \<Longrightarrow> P x \<Longrightarrow> list_all P (xs[i := x])"
  by (auto simp: list_all_iff dest!: set_update_subset_insert [THEN subsetD])

lemma lb_inv_pc: "lb_inv ts s \<Longrightarrow> i < length (lb_pcs s) \<Longrightarrow> pc_ok ts (lb_pcs s ! i)"
  by (simp add: lb_inv_def list_all_length)

lemma lb_step_inv: "lb_step ts l s s' \<Longrightarrow> ts \<noteq> [] \<Longrightarrow> lb_inv ts s \<Longrightarrow> lb_inv ts s'"
proof (induction rule: lb_step.induct)
  case (fetch i s k)
  then show ?case using lb_inv_pc [of ts s i]
    by (auto simp: lb_inv_def pc_ok_def intro!: list_all_update)
next
  case (hit i s j k)
  then show ?case using lb_inv_pc [of ts s i]
    by (auto simp: lb_inv_def pc_ok_def intro!: list_all_update)
next
  case (miss i s j k)
  then show ?case using lb_inv_pc [of ts s i]
    by (auto simp: lb_inv_def pc_ok_def intro!: list_all_update)
next
  case (fallback i s)
  then show ?case
    by (auto simp: lb_inv_def pc_ok_def intro!: list_all_update)
qed (simp add: lb_inv_def)

lemma lb_run_inv: "lb_run ts s ls s' \<Longrightarrow> ts \<noteq> [] \<Longrightarrow> lb_inv ts s \<Longrightarrow> lb_inv ts s'"
  by (induction rule: lb_run.induct) (auto dest: lb_step_inv)

lemma lb_inv_init: "lb_inv ts (lb_init ts h n threads)"
  by (simp add: lb_inv_def lb_init_def pc_ok_def list_all_length)

text \<open>The number of own steps a thread still has to make, at most.\<close>

definition rank :: "pick_pc \<Rightarrow> nat" where
  "rank pc = (case pc of Scan k \<Rightarrow> 2 * k + 1 | Probe j k \<Rightarrow> 2 * k + 2 | Done t \<Rightarrow> 0)"

lemma lb_step_length: "lb_step ts l s s' \<Longrightarrow> length (lb_pcs s') = length (lb_pcs s)"
  by (induction rule: lb_step.induct) simp_all

lemma lb_step_rank:
  "lb_step ts l s s' \<Longrightarrow> i < length (lb_pcs s) \<Longrightarrow>
    rank (lb_pcs s' ! i) + (if l = Some i then 1 else 0) \<le> rank (lb_pcs s ! i)"
  by (induction rule: lb_step.induct) (auto simp: rank_def nth_list_update)

lemma lb_run_rank:
  "lb_run ts s ls s' \<Longrightarrow> i < length (lb_pcs s) \<Longrightarrow>
    rank (lb_pcs s' ! i) + count_list ls (Some i) \<le> rank (lb_pcs s ! i)"
proof (induction rule: lb_run.induct)
  case (more l s s' ls s'')
  then have "rank (lb_pcs s'' ! i) + count_list ls (Some i) \<le> rank (lb_pcs s' ! i)"
    by (simp add: lb_step_length)
  with lb_step_rank [OF more(1,4)] show ?case by (auto split: if_splits)
qed simp

lemma lb_step_enabled:
  assumes "i < length (lb_pcs s)" and "\<nexists>t. lb_pcs s ! i = Done t"
  shows "\<exists>s'. lb_step ts (Some i) s s'"
proof (cases "lb_pcs s ! i")
  case (Scan k)
  with assms show ?thesis by (cases k) (auto intro: lb_step.intros)
next
  case (Probe j k)
  with assms show ?thesis
    by (cases "is_healthy (lb_health s) (ts ! j)") (blast intro: lb_step.intros)+
qed (use assms in simp)

subsection \<open>A thread alone computes \<open>next_target\<close>\<close>

definition solo_end :: "target list \<Rightarrow> lb_state \<Rightarrow> u64 \<times> target option \<Rightarrow> lb_state" where
  "solo_end ts s r =
     (case r of
        (n, Some t) \<Rightarrow> s\<lparr>lb_next := n, lb_pcs := [Done t]\<rparr>
      | (n, None) \<Rightarrow> s\<lparr>lb_next := n + 1, lb_pcs := [Done (ts ! (unat n mod length ts))]\<rparr>)"

lemma solo_end_update [simp]: "solo_end ts (s\<lparr>lb_next := n, lb_pcs := pcs\<rparr>) r = solo_end ts s r"
  by (simp add: solo_end_def split: prod.splits option.splits)

lemma solo_scan:
  assumes "lb_pcs s = [Scan k]"
  shows "\<exists>ls. lb_run ts s ls (solo_end ts s (scan_targets (lb_health s) ts k (lb_next s)))"
  using assms
proof (induction k arbitrary: s)
  case 0
  then have "lb_step ts (Some 0) s (solo_end ts s (lb_next s, None))"
    using lb_step.fallback [of 0 s ts] by (simp add: solo_end_def)
  then have "lb_run ts s [Some 0] (solo_end ts s (lb_next s, None))"
    by (auto intro: lb_run.intros)
  then show ?case by auto
next
  case (Suc k)
  let ?h = "lb_health s" and ?n = "lb_next s" and ?j = "unat (lb_next s) mod length ts"
  let ?s1 = "s\<lparr>lb_next := ?n + 1, lb_pcs := [Probe ?j k]\<rparr>"
  have one: "lb_step ts (Some 0) s ?s1" using Suc.prems lb_step.fetch [of 0 s k ts] by simp
  show ?case
  proof (cases "is_healthy ?h (ts ! ?j)")
    case True
    then have "lb_step ts (Some 0) ?s1 (solo_end ts s (?n + 1, Some (ts ! ?j)))"
      using lb_step.hit [of 0 ?s1 ?j k ts] by (simp add: solo_end_def)
    with one have "lb_run ts s [Some 0, Some 0] (solo_end ts s (?n + 1, Some (ts ! ?j)))"
      by (auto intro: lb_run.intros)
    with True show ?thesis by (auto simp: Let_def)
  next
    case False
    let ?s2 = "s\<lparr>lb_next := ?n + 1, lb_pcs := [Scan k]\<rparr>"
    have two: "lb_step ts (Some 0) ?s1 ?s2"
      using False lb_step.miss [of 0 ?s1 ?j k ts] by simp
    have "\<exists>ls. lb_run ts ?s2 ls (solo_end ts ?s2 (scan_targets ?h ts k (?n + 1)))"
      using Suc.IH [of ?s2] by simp
    then obtain ls where "lb_run ts ?s2 ls (solo_end ts s (scan_targets ?h ts k (?n + 1)))"
      by auto
    with one two have "lb_run ts s (Some 0 # Some 0 # ls) (solo_end ts s (scan_targets ?h ts k (?n + 1)))"
      by (blast intro: lb_run.intros)
    with False show ?thesis by (auto simp: Let_def)
  qed
qed

subsection \<open>Properties\<close>

text \<open>
  C0. The step relation is the code: a thread that runs alone from the start of the loop can
  finish, and it then holds the target and leaves the counter that \<open>next_target\<close> computes.
\<close>

theorem solo_run_is_next_target:
  assumes "r_targets r \<noteq> []"
  shows "\<exists>ls s t. lb_run (r_targets r) (lb_init (r_targets r) h (r_next r) 1) ls s \<and>
     lb_pcs s = [Done t] \<and> next_target h r = (r\<lparr>r_next := lb_next s\<rparr>, Some t)"
proof -
  let ?s = "lb_init (r_targets r) h (r_next r) 1"
  obtain n x where sc: "scan_targets h (r_targets r) (length (r_targets r)) (r_next r) = (n, x)"
    by fastforce
  have "lb_pcs ?s = [Scan (length (r_targets r))]" by (simp add: lb_init_def)
  from solo_scan [OF this, of "r_targets r"]
  obtain ls where run: "lb_run (r_targets r) ?s ls (solo_end (r_targets r) ?s (n, x))"
    by (auto simp: lb_init_def sc)
  show ?thesis
    by (rule exI, rule exI,
        rule exI [of _ "case x of Some t \<Rightarrow> t | None \<Rightarrow> r_targets r ! (unat n mod length (r_targets r))"],
        rule conjI [OF run])
      (use assms in \<open>auto simp: next_target_def Let_def sc solo_end_def split: option.splits\<close>)
qed

theorem solo_run_is_next_target_witness:
  "\<exists>ls s t. lb_run (r_targets three_targets)
       (lb_init (r_targets three_targets) only_c (r_next three_targets) 1) ls s \<and>
     lb_pcs s = [Done t] \<and>
     next_target only_c three_targets = (three_targets\<lparr>r_next := lb_next s\<rparr>, Some t)"
  by (rule solo_run_is_next_target) (simp add: three_targets_def route_new_def)

text \<open>
  C0. Wait freedom: however many threads pick at once and whatever the prober stores, a thread
  that has not returned can always take a step, returns after at most \<open>2 * count + 1\<close> steps of
  its own, and returns one of the route's targets.
\<close>

theorem concurrent_pick_wait_free:
  assumes "lb_run ts (lb_init ts h n threads) ls s" and "ts \<noteq> []" and "i < threads"
  shows "count_list ls (Some i) \<le> 2 * length ts + 1 \<and>
     ((\<exists>t\<in>set ts. lb_pcs s ! i = Done t) \<or> (\<exists>s'. lb_step ts (Some i) s s'))"
proof
  have len: "length (lb_pcs (lb_init ts h n threads)) = threads" by (simp add: lb_init_def)
  have "length (lb_pcs s) = length (lb_pcs (lb_init ts h n threads))"
    using assms(1) by (induction rule: lb_run.induct) (simp_all add: lb_step_length)
  with len have i: "i < length (lb_pcs s)" using assms(3) by simp
  show "count_list ls (Some i) \<le> 2 * length ts + 1"
    using lb_run_rank [OF assms(1), of i] assms(3) by (simp add: lb_init_def rank_def)
  have "pc_ok ts (lb_pcs s ! i)"
    using lb_run_inv [OF assms(1,2) lb_inv_init] i by (rule lb_inv_pc)
  then show "(\<exists>t\<in>set ts. lb_pcs s ! i = Done t) \<or> (\<exists>s'. lb_step ts (Some i) s s')"
    using lb_step_enabled [OF i, of ts] by (auto simp: pc_ok_def split: pick_pc.splits)
qed

theorem concurrent_pick_wait_free_witness:
  "count_list [] (Some (0::nat)) \<le> 2 * length [tgt ''a:1'' 0] + 1 \<and>
     ((\<exists>t\<in>set [tgt ''a:1'' 0]. lb_pcs (lb_init [tgt ''a:1'' 0] only_c 0 2) ! 0 = Done t) \<or>
      (\<exists>s'. lb_step [tgt ''a:1'' 0] (Some 0) (lb_init [tgt ''a:1'' 0] only_c 0 2) s'))"
  by (rule concurrent_pick_wait_free [OF lb_run.stop]) simp_all

definition two_targets :: "target list" where
  "two_targets = [tgt ''a:1'' 0, tgt ''b:2'' 1]"

definition only_b :: health where
  "only_b = \<lparr>cells = (\<lambda>i. i = 1), fresh = 2\<rparr>"

text \<open>
  The preference for healthy targets is not kept under concurrency: with one healthy target
  among two, whose flags never change, a thread can return the unhealthy one, because other
  threads take the counter values at which it would have seen the healthy one.
\<close>

theorem concurrent_pick_may_be_unhealthy:
  "\<exists>ls s. lb_run two_targets (lb_init two_targets only_b 0 3) ls s \<and>
     None \<notin> set ls \<and> lb_health s = only_b \<and> is_healthy only_b (tgt ''b:2'' 1) \<and>
     lb_pcs s ! 0 = Done (tgt ''a:1'' 0) \<and> \<not> is_healthy only_b (tgt ''a:1'' 0)"
proof -
  let ?st = "\<lambda>n pcs. \<lparr>lb_health = only_b, lb_next = n, lb_pcs = pcs\<rparr>"
  have init: "lb_init two_targets only_b 0 3 = ?st 0 [Scan 2, Scan 2, Scan 2]"
    by (simp add: lb_init_def two_targets_def numeral_3_eq_3 numeral_2_eq_2)
  have hb: "is_healthy only_b (two_targets ! 1)" and ha: "\<not> is_healthy only_b (two_targets ! 0)"
    by (simp_all add: is_healthy_def only_b_def two_targets_def tgt_def)
  have len: "length two_targets = 2" by (simp add: two_targets_def)
  have s1: "lb_step two_targets (Some 0) (?st 0 [Scan 2, Scan 2, Scan 2]) (?st 1 [Probe 0 1, Scan 2, Scan 2])"
    using lb_step.fetch [of 0 "?st 0 [Scan 2, Scan 2, Scan 2]" 1 two_targets] by (simp add: len)
  have s2: "lb_step two_targets (Some 0) (?st 1 [Probe 0 1, Scan 2, Scan 2]) (?st 1 [Scan 1, Scan 2, Scan 2])"
    using lb_step.miss [of 0 "?st 1 [Probe 0 1, Scan 2, Scan 2]" 0 1 two_targets] ha by simp
  have s3: "lb_step two_targets (Some 1) (?st 1 [Scan 1, Scan 2, Scan 2]) (?st 2 [Scan 1, Probe 1 1, Scan 2])"
    using lb_step.fetch [of 1 "?st 1 [Scan 1, Scan 2, Scan 2]" 1 two_targets] by (simp add: len)
  have s4: "lb_step two_targets (Some 0) (?st 2 [Scan 1, Probe 1 1, Scan 2]) (?st 3 [Probe 0 0, Probe 1 1, Scan 2])"
    using lb_step.fetch [of 0 "?st 2 [Scan 1, Probe 1 1, Scan 2]" 0 two_targets] by (simp add: len)
  have s5: "lb_step two_targets (Some 0) (?st 3 [Probe 0 0, Probe 1 1, Scan 2]) (?st 3 [Scan 0, Probe 1 1, Scan 2])"
    using lb_step.miss [of 0 "?st 3 [Probe 0 0, Probe 1 1, Scan 2]" 0 0 two_targets] ha by simp
  have s6: "lb_step two_targets (Some 2) (?st 3 [Scan 0, Probe 1 1, Scan 2]) (?st 4 [Scan 0, Probe 1 1, Probe 1 1])"
    using lb_step.fetch [of 2 "?st 3 [Scan 0, Probe 1 1, Scan 2]" 1 two_targets] by (simp add: len)
  have s7: "lb_step two_targets (Some 0) (?st 4 [Scan 0, Probe 1 1, Probe 1 1])
      (?st 5 [Done (two_targets ! 0), Probe 1 1, Probe 1 1])"
    using lb_step.fallback [of 0 "?st 4 [Scan 0, Probe 1 1, Probe 1 1]" two_targets] by (simp add: len)
  have run: "lb_run two_targets (lb_init two_targets only_b 0 3)
      [Some 0, Some 0, Some 1, Some 0, Some 0, Some 2, Some 0]
      (?st 5 [Done (two_targets ! 0), Probe 1 1, Probe 1 1])"
    unfolding init by (intro lb_run.more [OF s1] lb_run.more [OF s2] lb_run.more [OF s3]
        lb_run.more [OF s4] lb_run.more [OF s5] lb_run.more [OF s6] lb_run.more [OF s7] lb_run.stop)
  show ?thesis
    by (rule exI, rule exI, rule conjI [OF run]) (use ha hb in \<open>simp add: two_targets_def\<close>)
qed

end
