(* ===== verification/CachePolicy.thy ===== *)
theory CachePolicy
  imports Prelude
begin

section \<open>What may be cached, and under which key: \<^verbatim>\<open>crates/zaphyl-core/src/cache.rs\<close>\<close>

text \<open>
  The cache's decision functions: request and response cacheability, the \<open>Cache-Control\<close> and
  \<open>Vary\<close> readers, the canonical \<open>Accept-Encoding\<close> and the cache key, weak \<open>ETag\<close> comparison, and
  the two helpers the HTTP/1 and HTTP/3 sides share (\<open>stored_ttl\<close> and \<open>is_uncacheable_header\<close> in
  \<^verbatim>\<open>zaphyl/src/main.rs\<close> and \<^verbatim>\<open>zaphyl/src/http3.rs\<close>).  A \<open>Duration\<close> is a whole number of seconds here.
\<close>

subsection \<open>Header readers\<close>

definition directive_name :: "string \<Rightarrow> string" where
  "directive_name part = trim (first_piece CHR ''='' [] (trim part))"

definition has_directive :: "string option \<Rightarrow> string \<Rightarrow> bool" where
  "has_directive cache_control directive =
     (case cache_control of
        None \<Rightarrow> False
      | Some value \<Rightarrow> list_ex (\<lambda>part. directive_name part = directive) (split_on CHR '','' value))"

definition max_age :: "string \<Rightarrow> nat option" where
  "max_age cache_control =
     find_map (\<lambda>part. case strip_prefix ''max-age='' (trim part) of
                        None \<Rightarrow> None
                      | Some n \<Rightarrow> parse_uint 64 (trim n))
       (split_on CHR '','' cache_control)"

definition request_cacheable :: "string \<Rightarrow> string option \<Rightarrow> bool \<Rightarrow> bool" where
  "request_cacheable meth cache_control has_authorization =
     (meth = ''GET'' \<and> \<not> has_authorization \<and>
      \<not> has_directive cache_control ''no-store'' \<and> \<not> has_directive cache_control ''no-cache'')"

definition vary_cacheable :: "string option \<Rightarrow> bool" where
  "vary_cacheable vary =
     (case vary of
        None \<Rightarrow> True
      | Some value \<Rightarrow>
          (let value = trim value
           in value \<noteq> ''*'' \<and>
              list_all (\<lambda>token. eq_ignore_ascii_case (trim token) ''accept-encoding'')
                (split_on CHR '','' value)))"

definition response_ttl :: "nat \<Rightarrow> string option \<Rightarrow> bool \<Rightarrow> string option \<Rightarrow> nat option" where
  "response_ttl status cache_control has_set_cookie vary =
     (if status \<noteq> 200 \<or> has_set_cookie \<or> \<not> vary_cacheable vary then None
      else if has_directive cache_control ''no-store'' \<or> has_directive cache_control ''no-cache''
           \<or> has_directive cache_control ''private'' then None
      else case cache_control of
             None \<Rightarrow> None
           | Some cc \<Rightarrow> (case max_age cc of Some s \<Rightarrow> if s > 0 then Some s else None | None \<Rightarrow> None))"

subsection \<open>The cache key\<close>

definition coding_token :: "string \<Rightarrow> string option" where
  "coding_token part =
     (let token = to_ascii_lowercase (trim (first_piece CHR '';'' [] part))
      in if token = [] then None else Some token)"

definition normalize_accept_encoding :: "string option \<Rightarrow> string" where
  "normalize_accept_encoding accept_encoding =
     (let tokens = List.map_filter coding_token
                     (split_on CHR '','' (case accept_encoding of None \<Rightarrow> [] | Some v \<Rightarrow> v))
      in join '','' (remdups_adj (sort tokens)))"

definition unit_sep :: char where
  "unit_sep = CHR 0x1F"

definition cache_key :: "string \<Rightarrow> string \<Rightarrow> string option \<Rightarrow> string" where
  "cache_key host path_and_query accept_encoding =
     host @ path_and_query @ unit_sep # normalize_accept_encoding accept_encoding"

subsection \<open>Entity tags\<close>

definition strip_weak :: "string \<Rightarrow> string" where
  "strip_weak etag =
     trim (case strip_prefix ''W/'' (trim etag) of None \<Rightarrow> etag | Some r \<Rightarrow> r)"

definition if_none_match_satisfied :: "string \<Rightarrow> string \<Rightarrow> bool" where
  "if_none_match_satisfied if_none_match etag =
     (let if_none_match = trim if_none_match
      in if if_none_match = ''*'' then True
         else let target = strip_weak etag
              in list_ex (\<lambda>candidate. strip_weak (trim candidate) = target)
                   (split_on CHR '','' if_none_match))"

subsection \<open>Stored responses\<close>

record cached_response =
  cr_status :: u16
  cr_headers :: headers
  cr_body :: bytes

text \<open>The value of the first header with the name, in any ASCII case.\<close>

definition header_get :: "headers \<Rightarrow> string \<Rightarrow> string option" where
  "header_get hs name = map_option snd (find (\<lambda>h. eq_ignore_ascii_case (fst h) name) hs)"

definition etag :: "cached_response \<Rightarrow> string option" where
  "etag r = header_get (cr_headers r) ''etag''"

definition stored_ttl :: "cached_response \<Rightarrow> nat option" where
  "stored_ttl response =
     response_ttl 200 (header_get (cr_headers response) ''cache-control'') False
       (header_get (cr_headers response) ''vary'')"

definition stored_ttl_h3 :: "cached_response \<Rightarrow> nat option" where
  "stored_ttl_h3 response =
     response_ttl 200 (header_get (cr_headers response) ''cache-control'') False
       (header_get (cr_headers response) ''vary'')"

definition is_uncacheable_header :: "string \<Rightarrow> bool" where
  "is_uncacheable_header name =
     (to_ascii_lowercase name \<in> set [''connection'', ''keep-alive'', ''proxy-connection'',
        ''transfer-encoding'', ''upgrade'', ''content-length''])"

definition is_uncacheable_header_h3 :: "string \<Rightarrow> bool" where
  "is_uncacheable_header_h3 name =
     (to_ascii_lowercase name \<in> set [''connection'', ''keep-alive'', ''proxy-connection'',
        ''transfer-encoding'', ''upgrade'', ''content-length''])"

subsection \<open>Comma-separated header values\<close>

text \<open>
  The list syntax of HTTP: elements without commas that start and end with a graphic character,
  joined by a comma and a space.
\<close>

definition element :: "string \<Rightarrow> bool" where
  "element s = (s \<noteq> [] \<and> graphic (hd s) \<and> graphic (last s) \<and> CHR '','' \<notin> set s)"

definition comma_list :: "string list \<Rightarrow> string" where
  "comma_list es = join '', '' es"

lemma trim_space [simp]: "trim (CHR '' '' # s) = trim s"
proof -
  have "ws_enc (take 1 (CHR '' '' # s))" by (simp add: Let_def)
  then have "trim_start (CHR '' '' # s) = trim_start s" by (subst trim_start.simps) simp
  then show ?thesis by (simp add: trim_def)
qed

lemma trim_element [simp]: "element s \<Longrightarrow> trim s = s"
  by (rule trim_id) (simp add: element_def)

lemma split_on_comma_list:
  assumes "es \<noteq> []" and "list_all element es"
  shows "split_on CHR '','' (comma_list es) = hd es # map ((#) CHR '' '') (tl es)"
  using assms
proof (induction es rule: list_nonempty_induct)
  case (single e)
  then show ?case by (simp add: comma_list_def element_def split_on_no_sep)
next
  case (cons e es)
  then have e: "CHR '','' \<notin> set e" by (simp add: element_def)
  obtain f fs where es: "es = f # fs" using cons by (cases es) auto
  have "comma_list (e # es) = e @ CHR '','' # (CHR '' '' # comma_list es)"
    using es by (simp add: comma_list_def)
  then have "split_on CHR '','' (comma_list (e # es)) = e # split_on CHR '','' (CHR '' '' # comma_list es)"
    by (simp only: split_on_append_sep [OF e])
  with cons es show ?case by simp
qed

lemma comma_list_map_trim:
  assumes "es \<noteq> []" and "list_all element es" and "\<And>s. f (CHR '' '' # s) = f s"
  shows "map f (split_on CHR '','' (comma_list es)) = map f es"
proof -
  obtain e es' where "es = e # es'" using assms(1) by (cases es) auto
  with split_on_comma_list [OF assms(1,2)] assms(3) show ?thesis by (simp add: comp_def)
qed

lemma list_ex_map': "list_ex P xs = (True \<in> set (map P xs))"
  by (induction xs) auto

lemma list_all_map': "list_all P xs = (False \<notin> set (map P xs))"
  by (induction xs) auto

lemma find_map_map: "find_map f xs = find_map id (map f xs)"
  by (induction xs) (auto split: option.split)

lemma comma_list_ex:
  assumes "es \<noteq> []" and "list_all element es" and "\<And>s. P (CHR '' '' # s) = P s"
  shows "list_ex P (split_on CHR '','' (comma_list es)) = list_ex P es"
  using comma_list_map_trim [where f = P, OF assms] by (simp only: list_ex_map')

lemma comma_list_all:
  assumes "es \<noteq> []" and "list_all element es" and "\<And>s. P (CHR '' '' # s) = P s"
  shows "list_all P (split_on CHR '','' (comma_list es)) = list_all P es"
  using comma_list_map_trim [where f = P, OF assms] by (simp only: list_all_map')

lemma comma_list_find_map:
  assumes "es \<noteq> []" and "list_all element es" and "\<And>s. f (CHR '' '' # s) = f s"
  shows "find_map f (split_on CHR '','' (comma_list es)) = find_map f es"
  using comma_list_map_trim [where f = f, OF assms] by (simp only: find_map_map [of f])

lemma element_comma_list:
  assumes "es \<noteq> []" and "list_all element es"
  shows "trim (comma_list es) = comma_list es" and "comma_list es \<noteq> []"
proof -
  have "comma_list es \<noteq> [] \<and> hd (comma_list es) = hd (hd es) \<and> last (comma_list es) = last (last es)"
    using assms
  proof (induction es rule: list_nonempty_induct)
    case (cons e es)
    then show ?case by (cases es) (simp_all add: comma_list_def element_def)
  qed (simp add: comma_list_def element_def)
  moreover have "graphic (hd (hd es))" "graphic (last (last es))"
    using assms by (auto simp: element_def list_all_iff)
  ultimately show "trim (comma_list es) = comma_list es" and "comma_list es \<noteq> []"
    by (simp_all add: trim_id)
qed

subsection \<open>Cache-Control as a list of directives\<close>

datatype directive = Flag string | Arg string string

fun directive_text :: "directive \<Rightarrow> string" where
  "directive_text (Flag n) = n"
| "directive_text (Arg n v) = n @ CHR ''='' # v"

fun dir_name :: "directive \<Rightarrow> string" where
  "dir_name (Flag n) = n"
| "dir_name (Arg n v) = n"

fun directive_ok :: "directive \<Rightarrow> bool" where
  "directive_ok (Flag n) = (element n \<and> CHR ''='' \<notin> set n)"
| "directive_ok (Arg n v) = (element n \<and> CHR ''='' \<notin> set n \<and> element v)"

fun age_arg :: "directive \<Rightarrow> nat option" where
  "age_arg (Arg n v) = (if n = ''max-age'' then parse_uint 64 v else None)"
| "age_arg (Flag n) = None"

lemma takeWhile_until: "d \<notin> set s \<Longrightarrow> takeWhile (\<lambda>c. c \<noteq> d) (s @ d # t) = s"
  by (induction s) auto

lemma takeWhile_none: "d \<notin> set s \<Longrightarrow> takeWhile (\<lambda>c. c \<noteq> d) s = s"
  by (induction s) auto

lemma element_directive: "directive_ok d \<Longrightarrow> element (directive_text d)"
  by (cases d) (auto simp: element_def)

lemma directive_name_text: "directive_ok d \<Longrightarrow> directive_name (directive_text d) = dir_name d"
proof (cases d)
  case (Flag n)
  assume "directive_ok d"
  with Flag show ?thesis by (simp add: directive_name_def first_piece_eq takeWhile_none)
next
  case (Arg n v)
  assume ok: "directive_ok d"
  then have "trim (directive_text d) = directive_text d" using element_directive by simp
  with ok Arg show ?thesis by (simp add: directive_name_def first_piece_eq takeWhile_until)
qed

lemma strip_prefix_name:
  assumes "x \<notin> set n" and "x \<notin> set p"
  shows "strip_prefix (p @ [x]) (n @ x # v) = (if n = p then Some v else None)"
proof (cases "n = p")
  case True
  then show ?thesis by (simp add: strip_prefix_Some_iff)
next
  case False
  have "n @ x # v \<noteq> (p @ [x]) @ r" for r
  proof
    assume "n @ x # v = (p @ [x]) @ r"
    then have "takeWhile (\<lambda>c. c \<noteq> x) (n @ x # v) = takeWhile (\<lambda>c. c \<noteq> x) (p @ x # r)" by simp
    with False show False unfolding takeWhile_until [OF assms(1)] takeWhile_until [OF assms(2)] by simp
  qed
  then have "strip_prefix (p @ [x]) (n @ x # v) = None" unfolding strip_prefix_None_iff by blast
  with False show ?thesis by simp
qed

lemma max_age_part:
  assumes "directive_ok d"
  shows "(case strip_prefix ''max-age='' (trim (directive_text d)) of
            None \<Rightarrow> None | Some n \<Rightarrow> parse_uint 64 (trim n)) = age_arg d"
proof -
  have t: "trim (directive_text d) = directive_text d" using assms element_directive by simp
  show ?thesis
  proof (cases d)
    case (Flag n)
    then have "strip_prefix ''max-age='' n = None" using assms by (auto simp: strip_prefix_None_iff)
    with Flag t show ?thesis by simp
  next
    case (Arg n v)
    then have "strip_prefix (''max-age'' @ [CHR ''='']) (n @ CHR ''='' # v)
        = (if n = ''max-age'' then Some v else None)"
      using assms by (intro strip_prefix_name) auto
    with Arg t assms show ?thesis by simp
  qed
qed

lemma has_directive_list:
  assumes "ds \<noteq> []" and "list_all directive_ok ds"
  shows "has_directive (Some (comma_list (map directive_text ds))) n = list_ex (\<lambda>d. dir_name d = n) ds"
proof -
  have es: "map directive_text ds \<noteq> []" "list_all element (map directive_text ds)"
    using assms element_directive by (auto simp: list_all_iff)
  have "directive_name (CHR '' '' # s) = directive_name s" for s by (simp add: directive_name_def)
  then have "has_directive (Some (comma_list (map directive_text ds))) n
      = list_ex (\<lambda>p. directive_name p = n) (map directive_text ds)"
    by (simp add: has_directive_def comma_list_ex [OF es])
  with assms(2) directive_name_text show ?thesis by (auto simp: list_ex_iff list_all_iff)
qed

lemma max_age_list:
  assumes "ds \<noteq> []" and "list_all directive_ok ds"
  shows "max_age (comma_list (map directive_text ds)) = find_map age_arg ds"
proof -
  have es: "map directive_text ds \<noteq> []" "list_all element (map directive_text ds)"
    using assms element_directive by (auto simp: list_all_iff)
  have "max_age (comma_list (map directive_text ds))
      = find_map (\<lambda>part. case strip_prefix ''max-age='' (trim part) of None \<Rightarrow> None
                          | Some n \<Rightarrow> parse_uint 64 (trim n)) (map directive_text ds)"
    unfolding max_age_def by (rule comma_list_find_map [OF es]) simp
  also have "\<dots> = find_map age_arg ds"
    using assms(2) by (induction ds) (simp_all add: max_age_part split: option.split)
  finally show ?thesis .
qed

lemma vary_cacheable_list:
  assumes "vs \<noteq> []" and "list_all element vs" and "''*'' \<notin> set vs"
  shows "vary_cacheable (Some (comma_list vs))
     = list_all (\<lambda>v. to_ascii_lowercase v = ''accept-encoding'') vs"
proof -
  have star: "comma_list vs \<noteq> ''*''"
  proof (cases vs)
    case (Cons v vs')
    with assms show ?thesis by (cases vs') (auto simp: comma_list_def element_def append_eq_Cons_conv)
  qed (use assms in simp)
  have low: "to_ascii_lowercase ''accept-encoding'' = ''accept-encoding''" by code_simp
  have "vary_cacheable (Some (comma_list vs))
      = list_all (\<lambda>t. eq_ignore_ascii_case (trim t) ''accept-encoding'') vs"
    using star element_comma_list [OF assms(1,2)]
    by (simp add: vary_cacheable_def comma_list_all [OF assms(1,2)])
  also have "\<dots> = list_all (\<lambda>v. to_ascii_lowercase v = ''accept-encoding'') vs"
    using assms(2) by (auto simp: list_all_iff eq_ignore_ascii_case_def low)
  finally show ?thesis .
qed

subsection \<open>Properties of the policy\<close>

definition uncacheable_names :: "string list" where
  "uncacheable_names = [''no-store'', ''no-cache'', ''private'']"

text \<open>The names by which a list of directives forbids storing, and its lifetime.\<close>

definition directives_ttl :: "directive list \<Rightarrow> nat option" where
  "directives_ttl ds =
     (if list_ex (\<lambda>d. dir_name d \<in> set uncacheable_names) ds then None
      else case find_map age_arg ds of Some s \<Rightarrow> if s > 0 then Some s else None | None \<Rightarrow> None)"

text \<open>
  C0. The response policy, over the structure of the headers: a response is stored only with
  status 200, without \<open>Set-Cookie\<close>, when \<open>Vary\<close> lists nothing but \<open>Accept-Encoding\<close> (in any case),
  no directive of \<open>Cache-Control\<close> is named \<open>no-store\<close>, \<open>no-cache\<close> or \<open>private\<close>, and then for the
  seconds of its first readable \<open>max-age\<close>, if they are positive.
\<close>

theorem response_ttl_directives:
  assumes "ds \<noteq> []" and "list_all directive_ok ds"
    and "vs \<noteq> []" and "list_all element vs" and "''*'' \<notin> set vs"
  shows "response_ttl status (Some (comma_list (map directive_text ds))) has_set_cookie
           (Some (comma_list vs))
     = (if status = 200 \<and> \<not> has_set_cookie \<and>
           list_all (\<lambda>v. to_ascii_lowercase v = ''accept-encoding'') vs
        then directives_ttl ds else None)"
proof -
  have forbid: "list_ex (\<lambda>d. dir_name d \<in> set uncacheable_names) ds \<longleftrightarrow>
      list_ex (\<lambda>d. dir_name d = ''no-store'') ds \<or> list_ex (\<lambda>d. dir_name d = ''no-cache'') ds
      \<or> list_ex (\<lambda>d. dir_name d = ''private'') ds"
    by (auto simp: list_ex_iff uncacheable_names_def)
  show ?thesis
    by (simp add: response_ttl_def has_directive_list [OF assms(1,2)] max_age_list [OF assms(1,2)]
        vary_cacheable_list [OF assms(3-5)] directives_ttl_def forbid)
qed

theorem response_ttl_directives_witness:
  "response_ttl 200 (Some ''public, max-age=60'') False (Some ''Accept-Encoding'') = Some 60"
proof -
  let ?ds = "[Flag ''public'', Arg ''max-age'' ''60'']" and ?vs = "[''Accept-Encoding'']"
  have "response_ttl 200 (Some (comma_list (map directive_text ?ds))) False (Some (comma_list ?vs))
     = (if (200 :: nat) = 200 \<and> \<not> False \<and>
           list_all (\<lambda>v. to_ascii_lowercase v = ''accept-encoding'') ?vs
        then directives_ttl ?ds else None)"
    by (rule response_ttl_directives) (code_simp, code_simp, simp, code_simp, simp)
  moreover have "comma_list (map directive_text ?ds) = ''public, max-age=60''"
    "comma_list ?vs = ''Accept-Encoding''" by code_simp+
  moreover have "list_all (\<lambda>v. to_ascii_lowercase v = ''accept-encoding'') ?vs"
    "directives_ttl ?ds = Some 60" by code_simp+
  ultimately show ?thesis by simp
qed

text \<open>
  C0. Directive names are compared with their case: a response marked \<open>Private\<close> is stored in the
  shared cache.
\<close>

theorem directives_case_sensitive:
  "response_ttl 200 (Some ''Private, max-age=60'') False None = Some 60
   \<and> response_ttl 200 (Some ''private, max-age=60'') False None = None"
proof -
  have "max_age ''Private, max-age=60'' = Some 60"
    "\<not> has_directive (Some ''Private, max-age=60'') ''private''"
    "\<not> has_directive (Some ''Private, max-age=60'') ''no-store''"
    "\<not> has_directive (Some ''Private, max-age=60'') ''no-cache''"
    "has_directive (Some ''private, max-age=60'') ''private''"
    by code_simp+
  then show ?thesis by (simp add: response_ttl_def vary_cacheable_def)
qed

text \<open>A lifetime is always positive and fits 64 bits.\<close>

lemma response_ttl_bounds: "response_ttl st cc sc v = Some t \<Longrightarrow> 0 < t \<and> t < 2 ^ 64"
proof -
  assume a: "response_ttl st cc sc v = Some t"
  then obtain c where "max_age c = Some t" and "0 < t"
    by (auto simp: response_ttl_def split: if_splits option.splits)
  then show ?thesis
    by (auto simp: max_age_def find_map_Some_iff split: option.splits dest: parse_uint_bound)
qed

subsection \<open>Properties of the key\<close>

definition codings :: "string option \<Rightarrow> string list" where
  "codings ae = List.map_filter coding_token (split_on CHR '','' (case ae of None \<Rightarrow> [] | Some v \<Rightarrow> v))"

lemma set_remdups_adj_sort: "set (remdups_adj (sort xs)) = set xs"
  by simp

lemma sorted_remdups_adj_strict:
  "sorted xs \<Longrightarrow> sorted_wrt (<) (remdups_adj (xs :: 'a::linorder list))"
  by (induction xs rule: remdups_adj.induct) auto

lemma sorted_distinct_remdups_adj: "sorted_wrt (<) (remdups_adj (sort (xs :: 'a::linorder list)))"
  by (rule sorted_remdups_adj_strict) simp

lemma canonical_eq_iff:
  "remdups_adj (sort xs) = remdups_adj (sort ys) \<longleftrightarrow> set xs = set (ys :: 'a::linorder list)"
proof
  assume "set xs = set ys"
  then show "remdups_adj (sort xs) = remdups_adj (sort ys)"
    by (intro strict_sorted_equal sorted_distinct_remdups_adj) simp
qed (metis set_remdups_adj_sort)

lemma comma_lower: "ascii_lower c = CHR '','' \<longleftrightarrow> c = CHR '',''"
  by (rule ascii_lower_eq_symbol) simp_all

lemma set_takeWhile_subset: "set (takeWhile P xs) \<subseteq> set xs"
  using set_takeWhileD by fastforce

lemma coding_token_Some:
  "coding_token part = Some t \<longleftrightarrow>
     t = to_ascii_lowercase (trim (first_piece CHR '';'' [] part)) \<and> t \<noteq> []"
  unfolding coding_token_def Let_def by (metis option.distinct(1) option.inject)

lemma set_trim_piece: "set (trim (first_piece d [] part)) \<subseteq> set part"
  unfolding first_piece_eq using set_trim set_takeWhile_subset by (rule subset_trans)

lemma comma_lowercase: "CHR '','' \<in> set (to_ascii_lowercase s) \<Longrightarrow> CHR '','' \<in> set s"
  unfolding to_ascii_lowercase_def set_map using comma_lower by (metis imageE)

lemma coding_token_ok:
  assumes "part \<in> set (split_on CHR '','' s)" and "coding_token part = Some t"
  shows "t \<noteq> [] \<and> CHR '','' \<notin> set t"
proof -
  have "CHR '','' \<notin> set part" using assms(1) by (rule split_on_piece_no_sep)
  then have "CHR '','' \<notin> set (trim (first_piece CHR '';'' [] part))" using set_trim_piece by blast
  with comma_lowercase show ?thesis using assms(2) unfolding coding_token_Some by blast
qed

lemma codings_ok: "t \<in> set (codings ae) \<Longrightarrow> t \<noteq> [] \<and> CHR '','' \<notin> set t"
  by (auto simp: codings_def map_filter_def dest: coding_token_ok)

lemma join_eq_Nil:
  assumes "list_all (\<lambda>t. t \<noteq> []) ts"
  shows "join sep ts = [] \<longleftrightarrow> ts = []"
proof (cases ts)
  case (Cons u us)
  with assms show ?thesis by (cases us) simp_all
qed simp

lemma join_comma_inj:
  assumes "\<forall>t\<in>set ts. t \<noteq> [] \<and> CHR '','' \<notin> set t" and "\<forall>t\<in>set us. t \<noteq> [] \<and> CHR '','' \<notin> set t"
    and "join '','' ts = join '','' us"
  shows "ts = us"
proof (cases "ts = []")
  case True
  then have "join '','' us = []" using assms(3) by simp
  then have "us = []" using join_eq_Nil [of us "'',''"] assms(2) by (simp add: list_all_iff)
  with True show ?thesis by simp
next
  case False
  then have "join '','' us \<noteq> []"
    using join_eq_Nil [of ts "'',''"] assms(1) unfolding assms(3) by (simp add: list_all_iff)
  then have "us \<noteq> []" by auto
  have "ts = split_on CHR '','' (join '','' ts)"
    using assms(1) by (intro split_on_join [OF False, symmetric]) blast
  also have "\<dots> = split_on CHR '','' (join '','' us)" by (simp only: assms(3))
  also have "\<dots> = us" using assms(2) by (intro split_on_join [OF \<open>us \<noteq> []\<close>]) blast
  finally show ?thesis .
qed

lemma normalize_eq_iff:
  "normalize_accept_encoding a = normalize_accept_encoding b \<longleftrightarrow> set (codings a) = set (codings b)"
proof -
  have n: "normalize_accept_encoding x = join '','' (remdups_adj (sort (codings x)))" for x
    by (simp add: normalize_accept_encoding_def codings_def)
  have "normalize_accept_encoding a = normalize_accept_encoding b \<longleftrightarrow>
      remdups_adj (sort (codings a)) = remdups_adj (sort (codings b))"
  proof
    assume "normalize_accept_encoding a = normalize_accept_encoding b"
    then show "remdups_adj (sort (codings a)) = remdups_adj (sort (codings b))"
      unfolding n by (intro join_comma_inj) (simp_all add: codings_ok)
  qed (simp add: n)
  then show ?thesis by (simp add: canonical_eq_iff)
qed

lemma append_sep_eq_iff:
  assumes "d \<notin> set a" and "d \<notin> set b"
  shows "a @ d # x = b @ d # y \<longleftrightarrow> a = b \<and> x = y"
proof
  assume eq: "a @ d # x = b @ d # y"
  then have "takeWhile (\<lambda>c. c \<noteq> d) (a @ d # x) = takeWhile (\<lambda>c. c \<noteq> d) (b @ d # y)" by simp
  then have "a = b" unfolding takeWhile_until [OF assms(1)] takeWhile_until [OF assms(2)] .
  with eq show "a = b \<and> x = y" by simp
qed simp



text \<open>
  The canonical form drops the weights, so a client that refuses gzip (weight zero) shares its
  key, hence its cached variant, with one that asks for it.
\<close>

theorem refused_coding_shares_key:
  "cache_key host path_and_query (Some ''gzip;q=0'') = cache_key host path_and_query (Some ''gzip'')"
proof -
  have "normalize_accept_encoding (Some ''gzip;q=0'') = normalize_accept_encoding (Some ''gzip'')"
    by code_simp
  then show ?thesis by (simp add: cache_key_def)
qed

text \<open>
  Host and target are concatenated without a separator: a Host header that contains a slash
  shares its key with another request of the plain host.
\<close>

theorem host_slash_shares_key:
  "cache_key (host @ CHR ''/'' # dir) path_and_query ae
     = cache_key host (CHR ''/'' # dir @ path_and_query) ae"
  by (simp add: cache_key_def)

subsection \<open>Conditional requests\<close>

definition entity_tag :: "bool \<times> string \<Rightarrow> string" where
  "entity_tag t = (if fst t then ''W/'' else []) @ CHR 0x22 # snd t @ [CHR 0x22]"

lemma strip_weak_entity_tag: "strip_weak (entity_tag t) = CHR 0x22 # snd t @ [CHR 0x22]"
proof -
  have q: "trim (CHR 0x22 # s @ [CHR 0x22]) = CHR 0x22 # s @ [CHR 0x22]" for s
    by (rule trim_id) (simp add: graphic_def)
  have "trim (CHR ''W'' # CHR ''/'' # CHR 0x22 # s @ [CHR 0x22])
      = CHR ''W'' # CHR ''/'' # CHR 0x22 # s @ [CHR 0x22]" for s
    by (rule trim_id) (simp add: graphic_def)
  with q show ?thesis by (simp add: strip_weak_def entity_tag_def)
qed

lemma element_entity_tag: "CHR '','' \<notin> set (snd t) \<Longrightarrow> element (entity_tag t)"
  by (auto simp: element_def entity_tag_def graphic_def)

text \<open>
  A conditional request is satisfied exactly when one of the tags it lists has the entry's
  opaque tag, weak or strong (the weak comparison of RFC 9110).
\<close>

theorem if_none_match_weak_comparison:
  assumes "ts \<noteq> []" and "list_all (\<lambda>t. CHR '','' \<notin> set (snd t)) ts"
  shows "if_none_match_satisfied (comma_list (map entity_tag ts)) (entity_tag e) \<longleftrightarrow>
     snd e \<in> snd ` set ts"
proof -
  let ?es = "map entity_tag ts"
  have es: "?es \<noteq> []" "list_all element ?es"
    using assms element_entity_tag by (auto simp: list_all_iff)
  have "comma_list ?es \<noteq> ''*''"
  proof
    assume star: "comma_list ?es = ''*''"
    then have "hd (split_on CHR '','' (comma_list ?es)) = ''*''" by simp
    then have "hd ?es = ''*''" unfolding split_on_comma_list [OF es] by simp
    with assms(1) show False by (cases ts) (auto simp: entity_tag_def split: if_splits)
  qed
  then have "if_none_match_satisfied (comma_list ?es) (entity_tag e)
      = list_ex (\<lambda>c. strip_weak (trim c) = strip_weak (entity_tag e)) ?es"
    by (simp add: if_none_match_satisfied_def element_comma_list(1) [OF es] Let_def
        comma_list_ex [OF es])
  also have "\<dots> = list_ex (\<lambda>c. strip_weak c = strip_weak (entity_tag e)) ?es"
    using es(2) by (induction ts) auto
  also have "\<dots> \<longleftrightarrow> snd e \<in> snd ` set ts"
    unfolding list_ex_iff by (auto simp: strip_weak_entity_tag image_iff intro: rev_bexI)
  finally show ?thesis .
qed

theorem if_none_match_weak_comparison_witness:
  "if_none_match_satisfied (comma_list (map entity_tag [(False, ''v1''), (True, ''v2'')]))
     (entity_tag (False, ''v2''))"
  by (subst if_none_match_weak_comparison) simp_all

end
