(* ===== verification/Utf8.thy ===== *)
theory Utf8
  imports Prelude
begin

section \<open>UTF-8 validity and the lossy conversion of the standard library\<close>

text \<open>
  \<open>String::from_utf8_lossy\<close> and \<open>str::from_utf8\<close>'s validity check, byte for byte: the cache format and
  the command line go through them.
\<close>

subsection \<open>\<open>String::from_utf8_lossy\<close>\<close>

definition is_cont :: "char \<Rightarrow> bool" where
  "is_cont c = (0x80 \<le> byte_val c \<and> byte_val c \<le> 0xBF)"

definition utf8_width :: "char \<Rightarrow> nat" where
  "utf8_width a =
     (let n = byte_val a
      in if n < 0x80 then 1 else if 0xC2 \<le> n \<and> n \<le> 0xDF then 2
         else if 0xE0 \<le> n \<and> n \<le> 0xEF then 3 else if 0xF0 \<le> n \<and> n \<le> 0xF4 then 4 else 0)"

definition second_ok :: "char \<Rightarrow> char \<Rightarrow> bool" where
  "second_ok a b =
     (let n = byte_val a; m = byte_val b
      in if n = 0xE0 then 0xA0 \<le> m \<and> m \<le> 0xBF
         else if n = 0xED then 0x80 \<le> m \<and> m \<le> 0x9F
         else if n = 0xF0 then 0x90 \<le> m \<and> m \<le> 0xBF
         else if n = 0xF4 then 0x80 \<le> m \<and> m \<le> 0x8F
         else is_cont b)"

text \<open>Whether a character starts here, and the length of it or of the invalid bytes to replace.\<close>

fun utf8_step :: "string \<Rightarrow> bool \<times> nat" where
  "utf8_step [] = (False, 1)"
| "utf8_step (a # s) =
     (let w = utf8_width a
      in if w = 0 then (False, 1) else if w = 1 then (True, 1)
         else (case s of
                 [] \<Rightarrow> (False, 1)
               | b # s' \<Rightarrow>
                   if \<not> second_ok a b then (False, 1) else if w = 2 then (True, 2)
                   else (case s' of
                           [] \<Rightarrow> (False, 2)
                         | c # s'' \<Rightarrow>
                             if \<not> is_cont c then (False, 2) else if w = 3 then (True, 3)
                             else (case s'' of
                                     [] \<Rightarrow> (False, 3)
                                   | d # _ \<Rightarrow> if is_cont d then (True, 4) else (False, 3)))))"

definition replacement :: string where
  "replacement = [char_of (0xEF :: nat), char_of (0xBF :: nat), char_of (0xBD :: nat)]"

lemma utf8_step_pos: "0 < snd (utf8_step s)"
  by (cases s) (auto simp: Let_def split: list.splits)

declare utf8_step.simps [simp del]

function from_utf8_lossy :: "bytes \<Rightarrow> string" where
  "from_utf8_lossy s =
     (case s of
        [] \<Rightarrow> []
      | _ # _ \<Rightarrow>
          (let (ok, n) = utf8_step s
           in (if ok then take n s else replacement) @ from_utf8_lossy (drop n s)))"
  by pat_completeness auto
termination
proof (relation "measure length", goal_cases)
  case (2 s a as p ok n)
  then have "0 < n" using utf8_step_pos [of s] by (metis snd_conv)
  with 2 show ?case by simp
qed simp

function valid_utf8 :: "string \<Rightarrow> bool" where
  "valid_utf8 s =
     (case s of
        [] \<Rightarrow> True
      | _ # _ \<Rightarrow> (let (ok, n) = utf8_step s in ok \<and> valid_utf8 (drop n s)))"
  by pat_completeness auto
termination
proof (relation "measure length", goal_cases)
  case (2 s a as p ok n)
  then have "0 < n" using utf8_step_pos [of s] by (metis snd_conv)
  with 2 show ?case by simp
qed simp

declare from_utf8_lossy.simps [simp del] valid_utf8.simps [simp del]

lemma utf8_lossy_Nil [simp]: "from_utf8_lossy [] = []" "valid_utf8 []"
  by (simp_all add: from_utf8_lossy.simps valid_utf8.simps)

lemma from_utf8_lossy_valid: "valid_utf8 s \<Longrightarrow> from_utf8_lossy s = s"
proof (induction s rule: from_utf8_lossy.induct)
  case (1 s)
  show ?case
  proof (cases s)
    case (Cons a as)
    obtain ok n where u: "utf8_step s = (ok, n)" by fastforce
    from "1.prems" have "ok \<and> valid_utf8 (drop n s)"
      by (subst (asm) valid_utf8.simps) (simp add: Cons u [unfolded Cons])
    then have "ok" "valid_utf8 (drop n s)" by simp_all
    with "1.IH" [OF Cons u [symmetric] refl]
    show ?thesis by (subst from_utf8_lossy.simps) (simp add: Cons u [unfolded Cons])
  qed simp
qed

end
