(* ===== verification/CacheCodec.thy ===== *)
theory CacheCodec
  imports CachePolicy Utf8
begin

section \<open>The on-disk format of a cache entry: \<^verbatim>\<open>crates/zaphyl-core/src/cache.rs\<close>\<close>

text \<open>
  \<open>encode\<close>, \<open>write_bytes\<close>, the bounds-checked \<open>Reader\<close> and \<open>decode\<close>, with the lossy UTF-8 conversion of
  the standard library.  \<open>usize\<close> has 64 bits.  \<open>decode\<close> answers a result that may be a panic: the
  sum of the epoch and a stored number of seconds can leave \<open>SystemTime\<close>'s range.
\<close>

subsection \<open>Encoding\<close>

definition write_bytes :: "bytes \<Rightarrow> bytes \<Rightarrow> bytes" where
  "write_bytes out bs = out @ le_bytes 4 (length bs) @ bs"

definition expiry_unix :: "systime \<Rightarrow> nat" where
  "expiry_unix expiry = (if nanos expiry < 0 then 0 else nat (systime_secs expiry))"

definition encode :: "string \<Rightarrow> systime \<Rightarrow> cached_response \<Rightarrow> bytes" where
  "encode key expiry response =
     (let out = write_bytes [] key;
          out = out @ le_bytes 8 (expiry_unix expiry);
          out = out @ le_bytes 2 (unat (cr_status response));
          out = out @ le_bytes 4 (length (cr_headers response));
          out = fold (\<lambda>h out. write_bytes (write_bytes out (fst h)) (snd h)) (cr_headers response) out;
          out = out @ le_bytes 8 (length (cr_body response))
      in out @ cr_body response)"

subsection \<open>The reader\<close>

record reader =
  rd_buf :: bytes
  rd_pos :: nat

definition remaining :: "reader \<Rightarrow> nat" where
  "remaining rd = length (rd_buf rd) - rd_pos rd"

definition reader_take :: "nat \<Rightarrow> reader \<Rightarrow> (bytes \<times> reader) option" where
  "reader_take n rd =
     (let e = rd_pos rd + n
      in if 2 ^ 64 \<le> e then None
         else if e \<le> length (rd_buf rd)
         then Some (take n (drop (rd_pos rd) (rd_buf rd)), rd\<lparr>rd_pos := e\<rparr>) else None)"

definition reader_u16 :: "reader \<Rightarrow> (u16 \<times> reader) option" where
  "reader_u16 rd = map_option (\<lambda>(bs, rd). (of_nat (le_nat bs), rd)) (reader_take 2 rd)"

definition reader_u32 :: "reader \<Rightarrow> (nat \<times> reader) option" where
  "reader_u32 rd = map_option (\<lambda>(bs, rd). (le_nat bs, rd)) (reader_take 4 rd)"

definition reader_u64 :: "reader \<Rightarrow> (nat \<times> reader) option" where
  "reader_u64 rd = map_option (\<lambda>(bs, rd). (le_nat bs, rd)) (reader_take 8 rd)"

text \<open>The \<open>?\<close> of the reader functions: stop at the first failure.\<close>

definition andThen :: "(reader \<Rightarrow> ('a \<times> reader) option) \<Rightarrow> ('a \<Rightarrow> reader \<Rightarrow> ('b \<times> reader) option)
    \<Rightarrow> reader \<Rightarrow> ('b \<times> reader) option" where
  "andThen p f rd = (case p rd of None \<Rightarrow> None | Some (a, rd') \<Rightarrow> f a rd')"

definition yield_val :: "'a \<Rightarrow> reader \<Rightarrow> ('a \<times> reader) option" where
  "yield_val a rd = Some (a, rd)"

definition reader_string :: "reader \<Rightarrow> (string \<times> reader) option" where
  "reader_string =
     andThen reader_u32 (\<lambda>len. andThen (reader_take len) (\<lambda>bs. yield_val (from_utf8_lossy bs)))"

definition read_header :: "reader \<Rightarrow> ((string \<times> string) \<times> reader) option" where
  "read_header =
     andThen reader_string (\<lambda>name. andThen reader_string (\<lambda>v. yield_val (name, v)))"

fun read_many :: "(reader \<Rightarrow> ('a \<times> reader) option) \<Rightarrow> nat \<Rightarrow> reader \<Rightarrow> ('a list \<times> reader) option" where
  "read_many p 0 = yield_val []"
| "read_many p (Suc n) = andThen p (\<lambda>x. andThen (read_many p n) (\<lambda>xs. yield_val (x # xs)))"

text \<open>What \<open>decode\<close> reads after the expiry: status, headers, body.\<close>

definition read_response :: "reader \<Rightarrow> (cached_response \<times> reader) option" where
  "read_response =
     andThen reader_u16 (\<lambda>status.
     andThen reader_u32 (\<lambda>header_count.
     andThen (read_many read_header header_count) (\<lambda>headers.
     andThen reader_u64 (\<lambda>body_len.
     andThen (reader_take body_len) (\<lambda>body.
     yield_val \<lparr>cr_status = status, cr_headers = headers, cr_body = body\<rparr>)))))"

definition decode :: "bytes \<Rightarrow> (string \<times> systime \<times> cached_response) option res" where
  "decode buf =
     (let rd = \<lparr>rd_buf = buf, rd_pos = 0\<rparr>
      in case reader_string rd of
           None \<Rightarrow> Inr None
         | Some (key, rd) \<Rightarrow>
             (case reader_u64 rd of
                None \<Rightarrow> Inr None
              | Some (secs, rd) \<Rightarrow>
                  rbind (time_add_secs unix_epoch secs) (\<lambda>expiry.
                    Inr (map_option (\<lambda>(response, rd). (key, expiry, response)) (read_response rd)))))"

subsection \<open>Prefix codecs\<close>

text \<open>
  The unread bytes of a reader, and what it means for a reading function to invert an encoding:
  on the encoding followed by anything it reads exactly the encoding, and on a strict prefix of
  it, it fails.
\<close>

definition rd_ok :: "reader \<Rightarrow> bool" where
  "rd_ok rd = (rd_pos rd \<le> length (rd_buf rd) \<and> length (rd_buf rd) < 2 ^ 64)"

definition unread :: "reader \<Rightarrow> bytes" where
  "unread rd = drop (rd_pos rd) (rd_buf rd)"

definition codes :: "(reader \<Rightarrow> ('a \<times> reader) option) \<Rightarrow> bytes \<Rightarrow> 'a \<Rightarrow> bool" where
  "codes p e a =
     ((\<forall>rd t. rd_ok rd \<longrightarrow> unread rd = e @ t \<longrightarrow>
         (\<exists>rd'. p rd = Some (a, rd') \<and> rd_ok rd' \<and> unread rd' = t)) \<and>
      (\<forall>rd t. rd_ok rd \<longrightarrow> t \<noteq> [] \<longrightarrow> e = unread rd @ t \<longrightarrow> p rd = None))"

lemma codesD:
  assumes "codes p e a" and "rd_ok rd"
  shows "unread rd = e @ t \<Longrightarrow> \<exists>rd'. p rd = Some (a, rd') \<and> rd_ok rd' \<and> unread rd' = t"
    and "t \<noteq> [] \<Longrightarrow> e = unread rd @ t \<Longrightarrow> p rd = None"
  using assms unfolding codes_def by blast+

lemma codes_yield: "codes (yield_val a) [] a"
  by (simp add: codes_def yield_val_def)

lemma codes_andThen:
  assumes p: "codes p e a" and f: "codes (f a) e' b"
  shows "codes (andThen p f) (e @ e') b"
  unfolding codes_def
proof (intro conjI allI impI)
  fix rd t assume rd: "rd_ok rd" "unread rd = (e @ e') @ t"
  then have "unread rd = e @ (e' @ t)" by simp
  from codesD(1) [OF p rd(1) this] obtain rd1
    where r1: "p rd = Some (a, rd1)" "rd_ok rd1" "unread rd1 = e' @ t" by blast
  then show "\<exists>rd'. andThen p f rd = Some (b, rd') \<and> rd_ok rd' \<and> unread rd' = t"
    using codesD(1) [OF f r1(2,3)] by (simp add: andThen_def)
next
  fix rd t assume rd: "rd_ok rd" "t \<noteq> []" "e @ e' = unread rd @ t"
  from rd(3) obtain u where "e = unread rd @ u \<and> u @ e' = t \<or> e @ u = unread rd \<and> e' = u @ t"
    unfolding append_eq_append_conv2 by blast
  then consider "unread rd = e @ u" "e' = u @ t" | "u \<noteq> []" "e = unread rd @ u"
    by (metis append_Nil append_Nil2)
  then show "andThen p f rd = None"
  proof cases
    case 1
    then obtain rd1 where r1: "p rd = Some (a, rd1)" "rd_ok rd1" "unread rd1 = u"
      using codesD(1) [OF p rd(1)] by blast
    have "f a rd1 = None" using codesD(2) [OF f r1(2) rd(2)] 1(2) r1(3) by simp
    with r1 show ?thesis by (simp add: andThen_def)
  next
    case 2
    have "p rd = None" using codesD(2) [OF p rd(1) 2] .
    then show ?thesis by (simp add: andThen_def)
  qed
qed

lemma length_unread: "length (unread rd) = length (rd_buf rd) - rd_pos rd"
  by (simp add: unread_def)

lemma reader_take_eq:
  assumes "rd_ok rd"
  shows "reader_take n rd =
     (if n \<le> length (unread rd) then Some (take n (unread rd), rd\<lparr>rd_pos := rd_pos rd + n\<rparr>) else None)"
proof -
  have "rd_pos rd + n \<le> length (rd_buf rd) \<longleftrightarrow> n \<le> length (unread rd)"
    using assms by (auto simp: rd_ok_def length_unread)
  moreover have "rd_pos rd + n < 2 ^ 64" if "rd_pos rd + n \<le> length (rd_buf rd)"
    using that assms by (simp add: rd_ok_def)
  ultimately show ?thesis by (auto simp: reader_take_def Let_def unread_def not_le)
qed

lemma unread_take: "unread (rd\<lparr>rd_pos := rd_pos rd + n\<rparr>) = drop n (unread rd)"
  by (simp add: unread_def add.commute)

lemma codes_take: "length bs = n \<Longrightarrow> codes (reader_take n) bs bs"
  unfolding codes_def
proof (intro conjI allI impI)
  fix rd t assume n: "length bs = n" and rd: "rd_ok rd" "unread rd = bs @ t"
  have "length (unread rd) = n + length t" using n rd(2) by simp
  with rd(1) have "rd_ok (rd\<lparr>rd_pos := rd_pos rd + n\<rparr>)"
    unfolding rd_ok_def length_unread by simp linarith
  moreover have "reader_take n rd = Some (bs, rd\<lparr>rd_pos := rd_pos rd + n\<rparr>)"
    using n by (simp add: reader_take_eq [OF rd(1)] rd(2))
  moreover have "unread (rd\<lparr>rd_pos := rd_pos rd + n\<rparr>) = t"
    using n by (simp add: unread_take rd(2))
  ultimately show "\<exists>rd'. reader_take n rd = Some (bs, rd') \<and> rd_ok rd' \<and> unread rd' = t" by blast
next
  fix rd t assume "length bs = n" "rd_ok rd" "t \<noteq> []" "bs = unread rd @ t"
  then show "reader_take n rd = None" by (auto simp: reader_take_eq)
qed

lemma codes_map: "codes p e a \<Longrightarrow> codes (\<lambda>rd. map_option (\<lambda>(x, rd). (g x, rd)) (p rd)) e (g a)"
  unfolding codes_def by fastforce

lemma codes_last: "codes p e a \<Longrightarrow> codes (andThen p (\<lambda>x. yield_val (g x))) e (g a)"
  using codes_andThen [OF _ codes_yield, of p e a "\<lambda>x. g x"] by simp

lemma codes_u16: "codes reader_u16 (le_bytes 2 (unat w)) w"
proof -
  have "codes reader_u16 (le_bytes 2 (unat w)) (of_nat (le_nat (le_bytes 2 (unat w))))"
    unfolding reader_u16_def by (rule codes_map, rule codes_take) simp
  moreover have "unat w < 2 ^ 16" using unsigned_less [of w, where 'a = nat] by simp
  ultimately show ?thesis by simp
qed

lemma codes_u32: "n < 2 ^ 32 \<Longrightarrow> codes reader_u32 (le_bytes 4 n) n"
proof -
  assume "n < 2 ^ 32"
  moreover have "codes reader_u32 (le_bytes 4 n) (le_nat (le_bytes 4 n))"
    unfolding reader_u32_def by (rule codes_map, rule codes_take) simp
  ultimately show ?thesis by simp
qed

lemma codes_u64: "n < 2 ^ 64 \<Longrightarrow> codes reader_u64 (le_bytes 8 n) n"
proof -
  assume "n < 2 ^ 64"
  moreover have "codes reader_u64 (le_bytes 8 n) (le_nat (le_bytes 8 n))"
    unfolding reader_u64_def by (rule codes_map, rule codes_take) simp
  ultimately show ?thesis by simp
qed

subsection \<open>The codec contract\<close>

text \<open>
  An encoding with a reading function that inverts it on the values that are \<open>fine\<close>; a list of
  encodings is then inverted by reading as many times.
\<close>

locale codec =
  fixes enc :: "'a \<Rightarrow> bytes"
    and dec :: "reader \<Rightarrow> ('a \<times> reader) option"
    and fine :: "'a \<Rightarrow> bool"
  assumes dec_enc: "fine x \<Longrightarrow> codes dec (enc x) x"
begin

lemma dec_many: "list_all fine xs \<Longrightarrow> codes (read_many dec (length xs)) (concat (map enc xs)) xs"
proof (induction xs)
  case (Cons x xs)
  then have tl: "codes (read_many dec (length xs)) (concat (map enc xs)) xs" by simp
  from Cons.prems have hd: "codes dec (enc x) x" by (simp add: dec_enc)
  show ?case
    using codes_andThen [where f = "\<lambda>x. andThen (read_many dec (length xs)) (\<lambda>xs. yield_val (x # xs))",
        OF hd codes_last [OF tl, of "(#) x"]] by simp
qed (simp add: codes_yield)

text \<open>What follows from the contract for whole buffers.\<close>

lemma dec_whole:
  assumes "fine x" and "length (enc x @ t) < 2 ^ 64"
  shows "\<exists>rd. dec \<lparr>rd_buf = enc x @ t, rd_pos = 0\<rparr> = Some (x, rd) \<and> rd_ok rd \<and> unread rd = t"
  using codesD(1) [OF dec_enc [OF assms(1)], of "\<lparr>rd_buf = enc x @ t, rd_pos = 0\<rparr>" t] assms(2)
  by (simp add: rd_ok_def unread_def)

end

definition enc_string :: "string \<Rightarrow> bytes" where
  "enc_string s = le_bytes 4 (length s) @ s"

definition string_fine :: "string \<Rightarrow> bool" where
  "string_fine s = (valid_utf8 s \<and> length s < 2 ^ 32)"

interpretation str: codec enc_string reader_string string_fine
proof
  fix s assume s: "string_fine s"
  then have len: "length s < 2 ^ 32" and valid: "from_utf8_lossy s = s"
    by (simp_all add: string_fine_def from_utf8_lossy_valid)
  have "codes (reader_take (length s)) s s" by (rule codes_take) simp
  from codes_last [OF this, of from_utf8_lossy] valid
  have "codes (andThen (reader_take (length s)) (\<lambda>bs. yield_val (from_utf8_lossy bs))) s s" by simp
  with codes_u32 [OF len] show "codes reader_string (enc_string s) s"
    unfolding reader_string_def enc_string_def by (rule codes_andThen)
qed

definition enc_header :: "string \<times> string \<Rightarrow> bytes" where
  "enc_header h = enc_string (fst h) @ enc_string (snd h)"

definition header_fine :: "string \<times> string \<Rightarrow> bool" where
  "header_fine h = (string_fine (fst h) \<and> string_fine (snd h))"

interpretation hdr: codec enc_header read_header header_fine
proof
  fix h assume h: "header_fine h"
  have "codes (andThen reader_string (\<lambda>v. yield_val (fst h, v))) (enc_string (snd h)) (fst h, snd h)"
    using h by (intro codes_last str.dec_enc) (simp add: header_fine_def)
  with h show "codes read_header (enc_header h) h"
    using codes_andThen [OF str.dec_enc [of "fst h"]] unfolding read_header_def enc_header_def
    by (simp add: header_fine_def)
qed

definition enc_response :: "cached_response \<Rightarrow> bytes" where
  "enc_response r = le_bytes 2 (unat (cr_status r)) @ le_bytes 4 (length (cr_headers r))
     @ concat (map enc_header (cr_headers r)) @ le_bytes 8 (length (cr_body r)) @ cr_body r"

definition response_fine :: "cached_response \<Rightarrow> bool" where
  "response_fine r = (list_all header_fine (cr_headers r) \<and> length (cr_headers r) < 2 ^ 32
     \<and> length (cr_body r) < 2 ^ 64)"

interpretation rsp: codec enc_response read_response response_fine
proof
  fix r assume r: "response_fine r"
  define fin where "fin = (\<lambda>status headers body.
    yield_val \<lparr>cr_status = status, cr_headers = headers, cr_body = body\<rparr> :: reader \<Rightarrow> _)"
  have "codes (fin (cr_status r) (cr_headers r) (cr_body r)) [] r"
    using codes_yield [of r] unfolding fin_def by (cases r) simp
  then have "codes (andThen (reader_take (length (cr_body r))) (fin (cr_status r) (cr_headers r)))
      (cr_body r @ []) r"
    by (intro codes_andThen [OF codes_take]) simp_all
  then have "codes (andThen reader_u64 (\<lambda>n. andThen (reader_take n) (fin (cr_status r) (cr_headers r))))
      (le_bytes 8 (length (cr_body r)) @ cr_body r) r"
    using r by (intro codes_andThen [OF codes_u64]) (simp_all add: response_fine_def)
  then have "codes (andThen (read_many read_header (length (cr_headers r)))
        (\<lambda>hs. andThen reader_u64 (\<lambda>n. andThen (reader_take n) (fin (cr_status r) hs))))
      (concat (map enc_header (cr_headers r)) @ le_bytes 8 (length (cr_body r)) @ cr_body r) r"
    using r by (intro codes_andThen [OF hdr.dec_many]) (simp_all add: response_fine_def)
  then have "codes (andThen reader_u32 (\<lambda>k. andThen (read_many read_header k)
        (\<lambda>hs. andThen reader_u64 (\<lambda>n. andThen (reader_take n) (fin (cr_status r) hs)))))
      (le_bytes 4 (length (cr_headers r)) @ concat (map enc_header (cr_headers r))
        @ le_bytes 8 (length (cr_body r)) @ cr_body r) r"
    using r by (intro codes_andThen [OF codes_u32]) (simp_all add: response_fine_def)
  then show "codes read_response (enc_response r) r"
    unfolding read_response_def enc_response_def fin_def by (rule codes_andThen [OF codes_u16])
qed

subsection \<open>Round trip, truncation, corruption\<close>

lemma write_headers:
  "fold (\<lambda>h out. write_bytes (write_bytes out (fst h)) (snd h)) hs out = out @ concat (map enc_header hs)"
  by (induction hs arbitrary: out) (simp_all add: write_bytes_def enc_header_def enc_string_def)

lemma encode_eq:
  "encode key expiry r = enc_string key @ le_bytes 8 (expiry_unix expiry) @ enc_response r"
  by (simp add: encode_def Let_def write_headers enc_response_def)
    (simp add: write_bytes_def enc_string_def)

text \<open>What an entry must satisfy: Rust strings, and sizes that fit their length fields.\<close>

definition entry_fine :: "string \<Rightarrow> systime \<Rightarrow> cached_response \<Rightarrow> bool" where
  "entry_fine key expiry r =
     (string_fine key \<and> response_fine r \<and> 0 \<le> nanos expiry \<and> systime_secs expiry < 2 ^ 63)"

definition floor_secs :: "systime \<Rightarrow> systime" where
  "floor_secs t = SysTime (systime_secs t * 10 ^ 9)"

lemma floor_secs_le: "floor_secs t \<le> t"
  by (simp add: floor_secs_def systime_secs_def less_eq_systime_def)

lemma expiry_unix_bound: "0 \<le> nanos e \<Longrightarrow> systime_secs e < 2 ^ 63 \<Longrightarrow> expiry_unix e < 2 ^ 63"
  by (simp add: expiry_unix_def systime_secs_def)

lemma time_add_expiry:
  assumes "0 \<le> nanos e" and "systime_secs e < 2 ^ 63"
  shows "time_add_secs unix_epoch (expiry_unix e) = Inr (floor_secs e)"
  using assms by (simp add: time_add_secs_def unix_epoch_def systime_secs_def expiry_unix_def floor_secs_def)

definition read_entry_head :: "reader \<Rightarrow> ((string \<times> nat) \<times> reader) option" where
  "read_entry_head = andThen reader_string (\<lambda>k. andThen reader_u64 (\<lambda>n. yield_val (k, n)))"

lemma decode_alt:
  "decode buf =
     (case read_entry_head \<lparr>rd_buf = buf, rd_pos = 0\<rparr> of
        None \<Rightarrow> Inr None
      | Some ((key, secs), rd) \<Rightarrow>
          rbind (time_add_secs unix_epoch secs) (\<lambda>expiry.
            Inr (map_option (\<lambda>(response, rd). (key, expiry, response)) (read_response rd))))"
  by (auto simp: decode_def read_entry_head_def andThen_def yield_val_def Let_def split: option.split)

lemma codes_entry_head:
  assumes "string_fine key" and "n < 2 ^ 64"
  shows "codes read_entry_head (enc_string key @ le_bytes 8 n) (key, n)"
proof -
  have "codes (andThen reader_u64 (\<lambda>n. yield_val (key, n))) (le_bytes 8 n) (key, n)"
    using assms(2) by (intro codes_last codes_u64)
  then show ?thesis unfolding read_entry_head_def
    by (intro codes_andThen [OF str.dec_enc [OF assms(1)]])
qed

lemma decode_encode':
  assumes "entry_fine key expiry r" and "length (encode key expiry r @ t) < 2 ^ 64"
  shows "decode (encode key expiry r @ t) = Inr (Some (key, floor_secs expiry, r))"
proof -
  have key: "string_fine key" and r: "response_fine r"
    and time: "0 \<le> nanos expiry" "systime_secs expiry < 2 ^ 63"
    using assms(1) by (simp_all add: entry_fine_def)
  let ?rd = "\<lparr>rd_buf = encode key expiry r @ t, rd_pos = 0\<rparr>"
  have "codes read_entry_head (enc_string key @ le_bytes 8 (expiry_unix expiry)) (key, expiry_unix expiry)"
    using expiry_unix_bound [OF time] by (intro codes_entry_head [OF key]) simp
  moreover have "rd_ok ?rd" using assms(2) by (simp add: rd_ok_def)
  moreover have "unread ?rd = (enc_string key @ le_bytes 8 (expiry_unix expiry)) @ enc_response r @ t"
    by (simp add: unread_def encode_eq)
  ultimately obtain rd where rd: "read_entry_head ?rd = Some ((key, expiry_unix expiry), rd)"
    "rd_ok rd" "unread rd = enc_response r @ t"
    by (metis codesD(1))
  obtain rd' where "read_response rd = Some (r, rd')"
    using codesD(1) [OF rsp.dec_enc [OF r] rd(2,3)] by blast
  with rd(1) show ?thesis by (simp add: decode_alt time_add_expiry [OF time])
qed

text \<open>
  C32. Reading back what was written gives the entry, its expiry rounded down to the second, and
  ignores whatever follows it in the file.
\<close>

theorem decode_encode:
  assumes "entry_fine key expiry r" and "length (encode key expiry r @ t) < 2 ^ 64"
  shows "decode (encode key expiry r @ t) = Inr (Some (key, floor_secs expiry, r))"
  using assms by (rule decode_encode')

definition demo_entry :: cached_response where
  "demo_entry = \<lparr>cr_status = 200, cr_headers = [(''etag'', ''v1'')], cr_body = ''hello''\<rparr>"

lemma demo_entry_fine: "entry_fine ''x.io/a'' (SysTime 1500000000) demo_entry"
proof -
  have "valid_utf8 ''x.io/a''" "valid_utf8 ''etag''" "valid_utf8 ''v1''" by code_simp+
  then show ?thesis
    by (simp add: entry_fine_def string_fine_def response_fine_def header_fine_def demo_entry_def
        systime_secs_def)
qed

theorem decode_encode_witness:
  "decode (encode ''x.io/a'' (SysTime 1500000000) demo_entry @ ''tail'')
     = Inr (Some (''x.io/a'', SysTime 1000000000, demo_entry))"
  using decode_encode [OF demo_entry_fine, of "''tail''"]
  by (simp add: encode_def write_bytes_def demo_entry_def floor_secs_def systime_secs_def)

lemma decode_prefix:
  assumes "entry_fine key expiry r" and "length (encode key expiry r) < 2 ^ 64"
    and "n < length (encode key expiry r)"
  shows "decode (take n (encode key expiry r)) = Inr None"
proof -
  have key: "string_fine key" and r: "response_fine r"
    and time: "0 \<le> nanos expiry" "systime_secs expiry < 2 ^ 63"
    using assms(1) by (simp_all add: entry_fine_def)
  define e where "e = enc_string key @ le_bytes 8 (expiry_unix expiry)"
  define u where "u = take n (encode key expiry r)"
  define rd where "rd = \<lparr>rd_buf = u, rd_pos = 0\<rparr>"
  have ok: "rd_ok rd" and un: "unread rd = u"
    using assms(2) by (simp_all add: rd_def rd_ok_def unread_def u_def)
  have head: "codes read_entry_head e (key, expiry_unix expiry)"
    unfolding e_def using expiry_unix_bound [OF time] by (intro codes_entry_head [OF key]) simp
  define w where "w = drop n (encode key expiry r)"
  have "encode key expiry r = e @ enc_response r" by (simp add: encode_eq e_def)
  moreover have "encode key expiry r = u @ w" unfolding u_def w_def by (rule append_take_drop_id [symmetric])
  ultimately have w: "e @ enc_response r = u @ w" by (rule subst)
  have "w \<noteq> []" using assms(3) unfolding w_def by simp
  obtain v where "e = u @ v \<and> v @ enc_response r = w \<or> e @ v = u \<and> enc_response r = v @ w"
    using w unfolding append_eq_append_conv2 by blast
  then consider "v \<noteq> []" "e = u @ v" | "u = e @ v" "enc_response r = v @ w"
    by (metis append_Nil append_Nil2)
  then show ?thesis
  proof cases
    case 1
    then have "read_entry_head rd = None" using codesD(2) [OF head ok, of v] un by simp
    then show ?thesis by (simp add: decode_alt rd_def [symmetric] u_def [symmetric])
  next
    case 2
    then obtain rd' where rd': "read_entry_head rd = Some ((key, expiry_unix expiry), rd')"
      "rd_ok rd'" "unread rd' = v"
      using codesD(1) [OF head ok, of v] un by blast
    then have "read_response rd' = None"
      using codesD(2) [OF rsp.dec_enc [OF r] rd'(2) \<open>w \<noteq> []\<close>] 2(2) by simp
    with rd'(1) show ?thesis
      by (simp add: decode_alt rd_def [symmetric] u_def [symmetric] time_add_expiry [OF time])
  qed
qed

text \<open>
  C40. A file that was cut short anywhere is not an entry: decoding any strict prefix of an
  encoding fails, without a panic.
\<close>

theorem decode_truncated:
  assumes "entry_fine key expiry r" and "length (encode key expiry r) < 2 ^ 64"
    and "n < length (encode key expiry r)"
  shows "decode (take n (encode key expiry r)) = Inr None"
  using assms by (rule decode_prefix)

theorem decode_truncated_witness:
  "decode (take 30 (encode ''x.io/a'' (SysTime 1500000000) demo_entry)) = Inr None"
  by (rule decode_truncated [OF demo_entry_fine])
    (simp_all add: encode_def write_bytes_def demo_entry_def)

text \<open>
  A file whose expiry field is 2 to the 63 or more does not fail to decode: it panics, on the
  sum of the epoch and the duration.
\<close>

theorem decode_huge_expiry_panics:
  "decode (enc_string ''k'' @ le_bytes 8 (2 ^ 63)) = Inl TimeOverflow"
proof -
  let ?b = "enc_string ''k'' @ le_bytes 8 (2 ^ 63)" and ?rd = "\<lambda>p. \<lparr>rd_buf = p, rd_pos = 0\<rparr>"
  have "valid_utf8 ''k''" by code_simp
  then have head: "codes read_entry_head ?b (''k'', 2 ^ 63)"
    by (intro codes_entry_head) (simp_all add: string_fine_def)
  have "length ?b < 2 ^ 64" by (simp add: enc_string_def)
  then have "rd_ok (?rd ?b)" "unread (?rd ?b) = ?b @ []" by (simp_all add: rd_ok_def unread_def)
  from codesD(1) [OF head this] obtain rd where "read_entry_head (?rd ?b) = Some ((''k'', 2 ^ 63), rd)"
    by blast
  then show ?thesis
    by (simp add: decode_alt time_add_secs_def unix_epoch_def systime_secs_def)
qed

end
