(* ===== verification/CacheStore.thy ===== *)
theory CacheStore
  imports CacheCodec "HOL-Library.Multiset"
begin

section \<open>The two-tier response cache: \<^verbatim>\<open>crates/zaphyl-core/src/cache.rs\<close>\<close>

text \<open>
  \<open>ResponseCache\<close> (a bounded map in memory) and \<open>DiskStore\<close> (a directory with one file per entry).
  Hash maps and directories are association lists with distinct keys; the order in which they are
  iterated is unspecified, so it is a parameter (\<open>ce_iter\<close>, \<open>ce_readdir\<close>), as is the hash of the
  standard library's \<open>DefaultHasher\<close>, whose algorithm is unspecified.  The outcome of every file
  operation of a \<open>put\<close> is an input (\<open>disk_io\<close>).
\<close>

subsection \<open>Association lists\<close>

definition al_remove :: "'k \<Rightarrow> ('k \<times> 'v) list \<Rightarrow> ('k \<times> 'v) list" where
  "al_remove k xs = filter (\<lambda>e. fst e \<noteq> k) xs"

definition al_insert :: "'k \<Rightarrow> 'v \<Rightarrow> ('k \<times> 'v) list \<Rightarrow> ('k \<times> 'v) list" where
  "al_insert k v xs = al_remove k xs @ [(k, v)]"

named_theorems al_simps \<open>lookups in updated association lists\<close>

lemma map_of_al_remove [al_simps]: "map_of (al_remove k xs) k' = (if k' = k then None else map_of xs k')"
  by (induction xs) (auto simp: al_remove_def)

lemma map_of_al_insert [al_simps]: "map_of (al_insert k v xs) k' = (if k' = k then Some v else map_of xs k')"
  by (simp add: al_insert_def map_of_al_remove map_add_Some_iff map_add_def split: option.split)

lemma distinct_al_remove: "distinct (map fst xs) \<Longrightarrow> distinct (map fst (al_remove k xs))"
  by (simp add: al_remove_def distinct_map_filter)

lemma distinct_al_insert: "distinct (map fst xs) \<Longrightarrow> distinct (map fst (al_insert k v xs))"
  using distinct_al_remove by (auto simp: al_insert_def al_remove_def)

lemma length_al_remove: "length (al_remove k xs) \<le> length xs"
  by (simp add: al_remove_def)

lemma length_al_remove_mem: "k \<in> fst ` set xs \<Longrightarrow> length (al_remove k xs) < length xs"
  by (auto simp: al_remove_def intro!: length_filter_less)

lemma length_al_insert:
  "length (al_insert k v xs) \<le> (if k \<in> fst ` set xs then length xs else Suc (length xs))"
proof (cases "k \<in> fst ` set xs")
  case True
  with length_al_remove_mem [OF True] show ?thesis by (simp add: al_insert_def)
qed (use length_al_remove [of k xs] in \<open>simp add: al_insert_def\<close>)

text \<open>\<open>Iterator::min_by_key\<close>: the first of the minimal elements.\<close>

fun min_by_key :: "('a \<Rightarrow> 'b::linorder) \<Rightarrow> 'a list \<Rightarrow> 'a option" where
  "min_by_key f [] = None"
| "min_by_key f (x # xs) =
     (case min_by_key f xs of None \<Rightarrow> Some x | Some y \<Rightarrow> if f x \<le> f y then Some x else Some y)"

lemma min_by_key_None: "min_by_key f xs = None \<longleftrightarrow> xs = []"
  by (cases xs) (auto split: option.splits)

lemma min_by_key_Some: "min_by_key f xs = Some x \<Longrightarrow> x \<in> set xs \<and> (\<forall>y\<in>set xs. f x \<le> f y)"
proof (induction xs arbitrary: x)
  case (Cons a xs)
  show ?case
  proof (cases "min_by_key f xs")
    case None
    with Cons.prems show ?thesis by (simp add: min_by_key_None)
  next
    case (Some b)
    with Cons.IH have b: "b \<in> set xs" "\<forall>y\<in>set xs. f b \<le> f y" by simp_all
    show ?thesis
    proof (cases "f a \<le> f b")
      case True
      with Some Cons.prems b show ?thesis by (auto intro: order_trans)
    next
      case False
      with Some Cons.prems b show ?thesis by auto
    qed
  qed
qed simp

subsection \<open>State\<close>

type_synonym entry = "systime \<times> cached_response"

datatype lookup = Miss | Fresh cached_response | Stale cached_response

record disk_store =
  ds_max_entries :: nat

record response_cache =
  rc_max_entries :: nat
  rc_entries :: "(string \<times> entry) list"
  rc_disk :: "disk_store option"

text \<open>A directory: file names with modification time and content.\<close>

type_synonym dir = "(string \<times> systime \<times> bytes) list"

record cache_env =
  ce_hash :: "string \<Rightarrow> u64"
  ce_iter :: "(string \<times> entry) list \<Rightarrow> (string \<times> entry) list"
  ce_readdir :: "dir \<Rightarrow> dir"

definition env_ok :: "cache_env \<Rightarrow> bool" where
  "env_ok E = ((\<forall>xs. mset (ce_iter E xs) = mset xs) \<and> (\<forall>xs. mset (ce_readdir E xs) = mset xs))"

record disk_io =
  io_write :: write_outcome
  io_rename :: bool
  io_remove :: bool
  io_mtime :: systime

definition cache_new :: "nat \<Rightarrow> response_cache" where
  "cache_new max_entries = \<lparr>rc_max_entries = max max_entries 1, rc_entries = [], rc_disk = None\<rparr>"

definition disk_new :: "nat \<Rightarrow> disk_store" where
  "disk_new max_entries = \<lparr>ds_max_entries = max max_entries 1\<rparr>"

definition with_disk :: "nat \<Rightarrow> response_cache" where
  "with_disk max_entries =
     \<lparr>rc_max_entries = max max_entries 1, rc_entries = [], rc_disk = Some (disk_new max_entries)\<rparr>"

subsection \<open>The disk tier\<close>

definition hex_digit :: "nat \<Rightarrow> char" where
  "hex_digit d = (if d < 10 then char_of (48 + d) else char_of (87 + d))"

fun hex_digits :: "nat \<Rightarrow> nat \<Rightarrow> string" where
  "hex_digits 0 n = []"
| "hex_digits (Suc k) n = hex_digits k (n div 16) @ [hex_digit (n mod 16)]"

text \<open>\<open>{:016x}\<close> of the hash, relative to the directory.\<close>

definition disk_path :: "cache_env \<Rightarrow> string \<Rightarrow> string" where
  "disk_path E key = hex_digits 16 (unat (ce_hash E key))"

definition tmp_path :: "string \<Rightarrow> string" where
  "tmp_path path = path @ ''.tmp''"

definition has_extension :: "string \<Rightarrow> bool" where
  "has_extension name = (case rsplit_once CHR ''.'' name of None \<Rightarrow> False | Some (stem, _) \<Rightarrow> stem \<noteq> [])"

definition disk_get :: "cache_env \<Rightarrow> dir \<Rightarrow> string \<Rightarrow> entry option res" where
  "disk_get E fs key =
     (case map_of fs (disk_path E key) of
        None \<Rightarrow> Inr None
      | Some (_, bs) \<Rightarrow>
          rbind (decode bs) (\<lambda>d. Inr
            (case d of
               None \<Rightarrow> None
             | Some (stored_key, expiry, response) \<Rightarrow>
                 if stored_key = key then Some (expiry, response) else None)))"

definition disk_evict :: "cache_env \<Rightarrow> disk_io \<Rightarrow> disk_store \<Rightarrow> dir \<Rightarrow> dir" where
  "disk_evict E io d fs =
     (let files = filter (\<lambda>f. \<not> has_extension (fst f)) (ce_readdir E fs)
      in if ds_max_entries d \<le> length files
         then (case min_by_key (\<lambda>f. fst (snd f)) files of
                 None \<Rightarrow> fs
               | Some oldest \<Rightarrow> if io_remove io then al_remove (fst oldest) fs else fs)
         else fs)"

definition disk_put :: "cache_env \<Rightarrow> disk_io \<Rightarrow> disk_store \<Rightarrow> dir \<Rightarrow> string \<Rightarrow> systime \<Rightarrow> cached_response \<Rightarrow> dir" where
  "disk_put E io d fs key expiry response =
     (let fs = disk_evict E io d fs;
          path = disk_path E key;
          tmp = tmp_path path;
          bs = encode key expiry response
      in case io_write io of
           WriteOk \<Rightarrow>
             (let fs = al_insert tmp (io_mtime io, bs) fs
              in if io_rename io then al_insert path (io_mtime io, bs) (al_remove tmp fs) else fs)
         | CreateFails \<Rightarrow> fs
         | WriteFailsAfter n \<Rightarrow> al_insert tmp (io_mtime io, take n bs) fs)"

subsection \<open>The memory tier and the cache\<close>

definition insert_memory :: "cache_env \<Rightarrow> response_cache \<Rightarrow> string \<Rightarrow> systime \<Rightarrow> cached_response \<Rightarrow> response_cache" where
  "insert_memory E c key expiry response =
     (let entries = rc_entries c;
          entries =
            (if rc_max_entries c \<le> length entries \<and> map_of entries key = None
             then (case min_by_key (\<lambda>e. fst (snd e)) (ce_iter E entries) of
                     None \<Rightarrow> entries
                   | Some oldest \<Rightarrow> al_remove (fst oldest) entries)
             else entries)
      in c\<lparr>rc_entries := al_insert key (expiry, response) entries\<rparr>)"

definition classify :: "systime \<Rightarrow> entry \<Rightarrow> lookup" where
  "classify now e = (if now < fst e then Fresh (snd e) else Stale (snd e))"

definition cache_lookup :: "cache_env \<Rightarrow> dir \<Rightarrow> response_cache \<Rightarrow> string \<Rightarrow> systime
    \<Rightarrow> (response_cache \<times> lookup) res" where
  "cache_lookup E fs c key now =
     (case map_of (rc_entries c) key of
        Some e \<Rightarrow> Inr (c, classify now e)
      | None \<Rightarrow>
          (case rc_disk c of
             None \<Rightarrow> Inr (c, Miss)
           | Some d \<Rightarrow>
               rbind (disk_get E fs key) (\<lambda>found. Inr
                 (case found of
                    None \<Rightarrow> (c, Miss)
                  | Some e \<Rightarrow> (insert_memory E c key (fst e) (snd e), classify now e)))))"

definition cache_get :: "cache_env \<Rightarrow> dir \<Rightarrow> response_cache \<Rightarrow> string \<Rightarrow> systime
    \<Rightarrow> (response_cache \<times> cached_response option) res" where
  "cache_get E fs c key now =
     rbind (cache_lookup E fs c key now) (\<lambda>(c, l). Inr
       (c, case l of Fresh response \<Rightarrow> Some response | Stale _ \<Rightarrow> None | Miss \<Rightarrow> None))"

definition cache_put :: "cache_env \<Rightarrow> disk_io \<Rightarrow> dir \<Rightarrow> response_cache \<Rightarrow> string \<Rightarrow> systime \<Rightarrow> cached_response
    \<Rightarrow> dir \<times> response_cache" where
  "cache_put E io fs c key expiry response =
     (let fs = (case rc_disk c of None \<Rightarrow> fs | Some d \<Rightarrow> disk_put E io d fs key expiry response)
      in (fs, insert_memory E c key expiry response))"

subsection \<open>The memory tier is bounded and evicts the soonest to expire\<close>

definition mem_ok :: "response_cache \<Rightarrow> bool" where
  "mem_ok c = (0 < rc_max_entries c \<and> length (rc_entries c) \<le> rc_max_entries c
     \<and> distinct (map fst (rc_entries c)))"

lemma mem_ok_new: "mem_ok (cache_new n)" "mem_ok (with_disk n)"
  by (simp_all add: mem_ok_def cache_new_def with_disk_def)

lemma insert_memory_frame [simp]:
  "rc_max_entries (insert_memory E c k e r) = rc_max_entries c"
  "rc_disk (insert_memory E c k e r) = rc_disk c"
  by (simp_all add: insert_memory_def Let_def)

lemma iter_set: "env_ok E \<Longrightarrow> set (ce_iter E xs) = set xs"
  unfolding env_ok_def by (metis set_mset_mset)

lemma readdir_set: "env_ok E \<Longrightarrow> set (ce_readdir E xs) = set xs"
  unfolding env_ok_def by (metis set_mset_mset)

text \<open>The victim of an insertion into a full cache.\<close>

lemma victim:
  assumes "env_ok E" and "mem_ok c" and "rc_max_entries c \<le> length (rc_entries c)"
  obtains v where "min_by_key (\<lambda>e. fst (snd e)) (ce_iter E (rc_entries c)) = Some v"
    and "v \<in> set (rc_entries c)" and "\<forall>y\<in>set (rc_entries c). fst (snd v) \<le> fst (snd y)"
proof -
  have "length (rc_entries c) \<noteq> 0" using assms(2,3) unfolding mem_ok_def by linarith
  then have "ce_iter E (rc_entries c) \<noteq> []"
    using iter_set [OF assms(1), of "rc_entries c"] by (metis length_0_conv set_empty)
  then obtain v where v: "min_by_key (\<lambda>e. fst (snd e)) (ce_iter E (rc_entries c)) = Some v"
    using min_by_key_None [of "\<lambda>e. fst (snd e)" "ce_iter E (rc_entries c)"] by blast
  with min_by_key_Some [OF v] show thesis
    by (intro that [OF v]) (simp_all add: iter_set [OF assms(1)])
qed

lemma insert_memory_ok:
  assumes "env_ok E" and "mem_ok c"
  shows "mem_ok (insert_memory E c k e r)"
proof (cases "rc_max_entries c \<le> length (rc_entries c) \<and> map_of (rc_entries c) k = None")
  case True
  then obtain v where v: "min_by_key (\<lambda>e. fst (snd e)) (ce_iter E (rc_entries c)) = Some v"
    "v \<in> set (rc_entries c)"
    using victim [OF assms] by blast
  then have "length (al_remove (fst v) (rc_entries c)) < length (rc_entries c)"
    by (intro length_al_remove_mem) simp
  with True v assms(2) length_al_insert [of k "(e, r)" "al_remove (fst v) (rc_entries c)"]
  show ?thesis
    by (auto simp: mem_ok_def insert_memory_def Let_def distinct_al_insert distinct_al_remove
        split: if_splits)
next
  case False
  with assms(2) length_al_insert [of k "(e, r)" "rc_entries c"] show ?thesis
    by (auto simp: mem_ok_def insert_memory_def Let_def distinct_al_insert map_of_eq_None_iff
        split: if_splits)
qed

text \<open>
  Inserting into memory stores the entry and disturbs the others only when the key is new and
  the cache full: then exactly one entry is dropped, and none of the others expires before it.
\<close>

theorem insert_memory_evicts_soonest:
  assumes "env_ok E" and "mem_ok c"
  shows "mem_ok (insert_memory E c k e r) \<and>
     (if rc_max_entries c \<le> length (rc_entries c) \<and> map_of (rc_entries c) k = None
      then \<exists>v\<in>set (rc_entries c). (\<forall>y\<in>set (rc_entries c). fst (snd v) \<le> fst (snd y)) \<and>
             map_of (rc_entries (insert_memory E c k e r))
               = (map_of (rc_entries c))(fst v := None, k \<mapsto> (e, r))
      else map_of (rc_entries (insert_memory E c k e r)) = (map_of (rc_entries c))(k \<mapsto> (e, r)))"
proof (cases "rc_max_entries c \<le> length (rc_entries c) \<and> map_of (rc_entries c) k = None")
  case True
  then obtain v where v: "min_by_key (\<lambda>e. fst (snd e)) (ce_iter E (rc_entries c)) = Some v"
    "v \<in> set (rc_entries c)" "\<forall>y\<in>set (rc_entries c). fst (snd v) \<le> fst (snd y)"
    using victim [OF assms] by blast
  have "map_of (rc_entries (insert_memory E c k e r)) = (map_of (rc_entries c))(fst v := None, k \<mapsto> (e, r))"
    using True v(1) by (simp add: insert_memory_def al_simps fun_eq_iff)
  with True v insert_memory_ok [OF assms] show ?thesis by auto
next
  case False
  then have "map_of (rc_entries (insert_memory E c k e r)) = (map_of (rc_entries c))(k \<mapsto> (e, r))"
    by (auto simp: insert_memory_def al_simps fun_eq_iff Let_def)
  with False insert_memory_ok [OF assms] show ?thesis by auto
qed

definition demo_env :: cache_env where
  "demo_env = \<lparr>ce_hash = (\<lambda>k. of_nat (length k)), ce_iter = rev, ce_readdir = rev\<rparr>"

lemma demo_env_ok: "env_ok demo_env"
  by (simp add: env_ok_def demo_env_def)

definition demo_response :: "string \<Rightarrow> cached_response" where
  "demo_response b = \<lparr>cr_status = 200, cr_headers = [], cr_body = b\<rparr>"

definition full_cache :: response_cache where
  "full_cache = \<lparr>rc_max_entries = 2,
     rc_entries = [(''k1'', SysTime 30, demo_response ''1''), (''k2'', SysTime 20, demo_response ''2'')],
     rc_disk = None\<rparr>"

theorem insert_memory_evicts_soonest_witness:
  "map_of (rc_entries (insert_memory demo_env full_cache ''k3'' (SysTime 10) (demo_response ''3''))) ''k2''
     = None \<and> mem_ok (insert_memory demo_env full_cache ''k3'' (SysTime 10) (demo_response ''3''))"
proof -
  have "mem_ok full_cache" by (simp add: mem_ok_def full_cache_def)
  from insert_memory_evicts_soonest [OF demo_env_ok this, of "''k3''" "SysTime 10" "demo_response ''3''"]
  show ?thesis by (auto simp: full_cache_def less_eq_systime_def)
qed

subsection \<open>The disk tier\<close>

lemma hex_digit_dot: "d < 16 \<Longrightarrow> hex_digit d \<noteq> CHR ''.''"
proof
  assume "d < 16" "hex_digit d = CHR ''.''"
  then have "byte_val (hex_digit d) = 46" by simp
  with \<open>d < 16\<close> show False by (simp add: hex_digit_def split: if_splits)
qed

lemma hex_digits_dot: "CHR ''.'' \<notin> set (hex_digits k n)"
proof (induction k arbitrary: n)
  case (Suc k)
  have "hex_digit (n mod 16) \<noteq> CHR ''.''" by (rule hex_digit_dot) simp
  with Suc show ?case by auto
qed simp

lemma length_hex_digits [simp]: "length (hex_digits k n) = k"
  by (induction k arbitrary: n) simp_all

lemma disk_path_dot: "CHR ''.'' \<notin> set (disk_path E key)"
  by (simp add: disk_path_def hex_digits_dot)

lemma disk_path_extension: "\<not> has_extension (disk_path E key)"
  using rsplit_once_None [of "CHR ''.''" "disk_path E key"] disk_path_dot [of E key]
  by (simp add: has_extension_def)

lemma tmp_path_dot: "CHR ''.'' \<in> set (tmp_path path)"
  by (simp add: tmp_path_def)

lemma tmp_path_extension: "path \<noteq> [] \<Longrightarrow> has_extension (tmp_path path)"
  using rsplit_once_append [of "CHR ''.''" "''tmp''" path] by (simp add: has_extension_def tmp_path_def)

lemma disk_path_not_Nil: "disk_path E key \<noteq> []"
  by (metis disk_path_def length_hex_digits list.size(3) zero_neq_numeral)

definition entry_files :: "dir \<Rightarrow> nat" where
  "entry_files fs = length (filter (\<lambda>f. \<not> has_extension (fst f)) fs)"

lemma entry_files_remove:
  "entry_files (al_remove k fs) \<le> entry_files fs"
  "k \<in> fst ` set fs \<Longrightarrow> \<not> has_extension k \<Longrightarrow> entry_files (al_remove k fs) < entry_files fs"
proof -
  have c: "entry_files (al_remove k fs)
      = length (filter (\<lambda>f. fst f \<noteq> k) (filter (\<lambda>f. \<not> has_extension (fst f)) fs))"
    by (simp add: entry_files_def al_remove_def conj_commute)
  then show "entry_files (al_remove k fs) \<le> entry_files fs"
    unfolding entry_files_def by (metis length_filter_le)
  assume k: "k \<in> fst ` set fs" "\<not> has_extension k"
  then obtain v where v: "(k, v) \<in> set (filter (\<lambda>f. \<not> has_extension (fst f)) fs)" by auto
  show "entry_files (al_remove k fs) < entry_files fs"
    unfolding c unfolding entry_files_def by (rule length_filter_less [OF v]) simp
qed

lemma entry_files_insert:
  "entry_files (al_insert k v fs) \<le> (if has_extension k then entry_files fs else Suc (entry_files fs))"
proof -
  have "entry_files (al_insert k v fs)
      = entry_files (al_remove k fs) + (if has_extension k then 0 else 1)"
    by (simp add: al_insert_def entry_files_def)
  with entry_files_remove(1) [of k fs] show ?thesis by simp
qed

text \<open>Eviction leaves room for one more entry.\<close>

lemma disk_evict_room:
  assumes "env_ok E" and "io_remove io" and "0 < ds_max_entries d"
    and "entry_files fs \<le> ds_max_entries d"
  shows "entry_files (disk_evict E io d fs) < ds_max_entries d"
proof -
  let ?files = "filter (\<lambda>f. \<not> has_extension (fst f)) (ce_readdir E fs)"
  have "mset (ce_readdir E fs) = mset fs" using assms(1) unfolding env_ok_def by blast
  then have "mset ?files = mset (filter (\<lambda>f. \<not> has_extension (fst f)) fs)" by (simp add: mset_filter)
  then have len: "length ?files = entry_files fs" unfolding entry_files_def by (rule mset_eq_length)
  show ?thesis
  proof (cases "ds_max_entries d \<le> length ?files")
    case True
    with assms(3) have "?files \<noteq> []" by auto
    then obtain v where v: "min_by_key (\<lambda>f. fst (snd f)) ?files = Some v"
      using min_by_key_None by (metis not_None_eq)
    have "v \<in> set ?files" using min_by_key_Some [OF v] by simp
    then have "fst v \<in> fst ` set fs" "\<not> has_extension (fst v)"
      using readdir_set [OF assms(1), of fs] by auto
    with True v assms len entry_files_remove(2) [of "fst v" fs] show ?thesis
      by (simp add: disk_evict_def Let_def)
  qed (use len in \<open>simp add: disk_evict_def Let_def\<close>)
qed

text \<open>
  The directory never holds more entry files than its bound, whatever the outcome of the
  write and of the rename, as long as evicted files can be removed.
\<close>

theorem disk_put_bounded:
  assumes "env_ok E" and "io_remove io" and "0 < ds_max_entries d"
    and "entry_files fs \<le> ds_max_entries d"
  shows "entry_files (disk_put E io d fs key expiry response) \<le> ds_max_entries d"
proof -
  let ?fs = "disk_evict E io d fs" and ?path = "disk_path E key"
  have room: "entry_files ?fs < ds_max_entries d" using assms by (rule disk_evict_room)
  have tmp: "has_extension (tmp_path ?path)" by (rule tmp_path_extension [OF disk_path_not_Nil])
  have ins: "entry_files (al_insert (tmp_path ?path) v ?fs) \<le> entry_files ?fs" for v
    using entry_files_insert [of "tmp_path ?path" v ?fs] tmp by simp
  have pub: "entry_files (al_insert ?path v (al_remove (tmp_path ?path) fs')) \<le> Suc (entry_files fs')"
    for v fs'
    using entry_files_insert [of ?path v "al_remove (tmp_path ?path) fs'"]
      entry_files_remove(1) [of "tmp_path ?path" fs'] disk_path_extension [of E key] by simp
  have tmp_bound: "entry_files (al_insert (tmp_path ?path) v ?fs) \<le> ds_max_entries d" for v
    using ins [of v] room by simp
  have "entry_files (al_insert ?path w (al_remove (tmp_path ?path) (al_insert (tmp_path ?path) v ?fs)))
      \<le> ds_max_entries d" for v w
    using pub [of w "al_insert (tmp_path ?path) v ?fs"] ins [of v] room by linarith
  with tmp_bound less_imp_le [OF room] show ?thesis
    by (simp add: disk_put_def Let_def split: write_outcome.split)
qed

definition demo_io :: disk_io where
  "demo_io = \<lparr>io_write = WriteOk, io_rename = True, io_remove = True, io_mtime = SysTime 7\<rparr>"

theorem disk_put_bounded_witness:
  "entry_files (disk_put demo_env demo_io (disk_new 1) [(''00ff'', SysTime 3, [])] ''k'' (SysTime 9)
     (demo_response ''x'')) \<le> 1"
proof -
  have "\<not> has_extension ''00ff''" by code_simp
  then show ?thesis
    using disk_put_bounded [OF demo_env_ok, of demo_io "disk_new 1" "[(''00ff'', SysTime 3, [])]"]
    by (simp add: demo_io_def disk_new_def entry_files_def)
qed

text \<open>What the files named like entries hold: complete encodings of what was put.\<close>

type_synonym history = "(string \<times> systime \<times> cached_response) set"

definition history_fine :: "history \<Rightarrow> bool" where
  "history_fine H = (\<forall>(k, e, r)\<in>H. entry_fine k e r \<and> length (encode k e r) < 2 ^ 64)"

definition disk_sound :: "history \<Rightarrow> dir \<Rightarrow> bool" where
  "disk_sound H fs = (\<forall>name t bs. CHR ''.'' \<notin> set name \<longrightarrow> map_of fs name = Some (t, bs) \<longrightarrow>
     (\<exists>(k, e, r)\<in>H. bs = encode k e r))"

definition mem_sound :: "history \<Rightarrow> response_cache \<Rightarrow> bool" where
  "mem_sound H c = (\<forall>k e r. map_of (rc_entries c) k = Some (e, r) \<longrightarrow> (\<exists>e'. (k, e', r) \<in> H \<and> e \<le> e'))"

lemma disk_sound_mono: "disk_sound H fs \<Longrightarrow> H \<subseteq> H' \<Longrightarrow> disk_sound H' fs"
  unfolding disk_sound_def by fast

lemma disk_sound_remove: "disk_sound H fs \<Longrightarrow> disk_sound H (al_remove k fs)"
  by (auto simp: disk_sound_def al_simps)

lemma disk_sound_tmp: "disk_sound H fs \<Longrightarrow> disk_sound H (al_insert (tmp_path path) v fs)"
  using tmp_path_dot [of path] by (auto simp: disk_sound_def al_simps)

lemma disk_sound_insert:
  "disk_sound H fs \<Longrightarrow> (k, e, r) \<in> H \<Longrightarrow> disk_sound H (al_insert path (t, encode k e r) fs)"
  unfolding disk_sound_def al_simps by (auto split: if_splits)

lemma disk_sound_evict: "disk_sound H fs \<Longrightarrow> disk_sound H (disk_evict E io d fs)"
  by (auto simp: disk_evict_def Let_def intro: disk_sound_remove split: option.split)

lemma disk_sound_put:
  assumes "disk_sound H fs"
  shows "disk_sound (insert (k, e, r) H) (disk_put E io d fs k e r)"
proof -
  have "disk_sound (insert (k, e, r) H) (disk_evict E io d fs)"
    by (rule disk_sound_mono [OF disk_sound_evict [OF assms]]) blast
  then show ?thesis
    by (auto simp: disk_put_def Let_def split: write_outcome.split
        intro!: disk_sound_insert disk_sound_tmp disk_sound_remove)
qed

lemma disk_get_sound:
  assumes "history_fine H" and "disk_sound H fs"
  shows "\<exists>found. disk_get E fs k = Inr found \<and>
     (\<forall>e r. found = Some (e, r) \<longrightarrow> (\<exists>e'. (k, e', r) \<in> H \<and> e \<le> e'))"
proof (cases "map_of fs (disk_path E k)")
  case (Some f)
  obtain t bs where f: "f = (t, bs)" by fastforce
  with Some obtain k' e' r' where h: "(k', e', r') \<in> H" "bs = encode k' e' r'"
    using assms(2) disk_path_dot [of E k] unfolding disk_sound_def by fast
  with assms(1) have "entry_fine k' e' r'" "length (encode k' e' r' @ []) < 2 ^ 64"
    unfolding history_fine_def by auto
  then have "decode bs = Inr (Some (k', floor_secs e', r'))"
    using decode_encode' [of k' e' r' "[]"] h(2) by simp
  with Some f h(1) show ?thesis using floor_secs_le [of e'] by (auto simp: disk_get_def)
qed (simp add: disk_get_def)

lemma insert_memory_sound:
  assumes "mem_sound H c" and "(k, e', r) \<in> H" and "e \<le> e'"
  shows "mem_sound H (insert_memory E c k e r)"
proof -
  have "mem_sound H (c\<lparr>rc_entries := al_insert k (e, r) es\<rparr>)"
    if "\<And>k e r. map_of es k = Some (e, r) \<Longrightarrow> map_of (rc_entries c) k = Some (e, r)" for es
    using that assms unfolding mem_sound_def by (simp add: al_simps) metis
  note ins = this
  have "mem_sound H (c\<lparr>rc_entries := al_insert k (e, r) (al_remove v (rc_entries c))\<rparr>)" for v
    by (rule ins) (simp add: al_simps split: if_splits)
  with ins [of "rc_entries c"] show ?thesis
    by (simp add: insert_memory_def Let_def split: option.split)
qed

subsection \<open>The cache as a whole\<close>

text \<open>
  The runs of one cache (with or without a directory): puts with any file-system outcome, lookups (which
  refill the memory tier), and restarts, which lose the memory and keep the directory.  The
  history collects what was put.
\<close>

inductive cache_run :: "cache_env \<Rightarrow> history \<Rightarrow> dir \<Rightarrow> response_cache \<Rightarrow> bool" for E :: cache_env where
  start: "cache_run E {} [] (with_disk n)"
| start_memory: "cache_run E {} [] (cache_new n)"
| put: "cache_run E H fs c \<Longrightarrow> entry_fine k e r \<Longrightarrow> length (encode k e r) < 2 ^ 64 \<Longrightarrow>
    cache_put E io fs c k e r = (fs', c') \<Longrightarrow> cache_run E (insert (k, e, r) H) fs' c'"
| look: "cache_run E H fs c \<Longrightarrow> cache_lookup E fs c k now = Inr (c', l) \<Longrightarrow> cache_run E H fs c'"
| restart: "cache_run E H fs c \<Longrightarrow> cache_run E H fs (with_disk n)"

text \<open>A lookup result that was put under the key, and is fresh only before its expiry.\<close>

definition lookup_sound :: "history \<Rightarrow> string \<Rightarrow> systime \<Rightarrow> lookup \<Rightarrow> bool" where
  "lookup_sound H k now l =
     (case l of
        Miss \<Rightarrow> True
      | Fresh r \<Rightarrow> (\<exists>e. (k, e, r) \<in> H \<and> now < e)
      | Stale r \<Rightarrow> (\<exists>e. (k, e, r) \<in> H))"

definition cache_sound :: "history \<Rightarrow> dir \<Rightarrow> response_cache \<Rightarrow> bool" where
  "cache_sound H fs c = (history_fine H \<and> disk_sound H fs \<and> mem_sound H c)"

lemma classify_sound: "(k, e', r) \<in> H \<Longrightarrow> e \<le> e' \<Longrightarrow> lookup_sound H k now (classify now (e, r))"
  by (auto simp: lookup_sound_def classify_def)

lemma cache_lookup_sound:
  assumes "cache_sound H fs c"
  shows "\<exists>c' l. cache_lookup E fs c k now = Inr (c', l) \<and> lookup_sound H k now l \<and> mem_sound H c'"
proof (cases "map_of (rc_entries c) k")
  case (Some er)
  obtain e r where er: "er = (e, r)" by fastforce
  with Some assms obtain e' where "(k, e', r) \<in> H" "e \<le> e'"
    unfolding cache_sound_def mem_sound_def by blast
  with classify_sound [OF this] Some er assms show ?thesis
    by (simp add: cache_lookup_def cache_sound_def)
next
  case None
  show ?thesis
  proof (cases "rc_disk c")
    case (Some d)
    obtain found where f: "disk_get E fs k = Inr found"
      "\<forall>e r. found = Some (e, r) \<longrightarrow> (\<exists>e'. (k, e', r) \<in> H \<and> e \<le> e')"
      using disk_get_sound assms unfolding cache_sound_def by meson
    show ?thesis
    proof (cases found)
      case (Some er)
      obtain e r where er: "er = (e, r)" by fastforce
      with Some f(2) obtain e' where h: "(k, e', r) \<in> H" "e \<le> e'" by auto
      have "mem_sound H (insert_memory E c k e r)"
        using assms h by (intro insert_memory_sound) (simp_all add: cache_sound_def)
      with classify_sound [OF h] None \<open>rc_disk c = Some d\<close> f(1) Some er show ?thesis
        by (simp add: cache_lookup_def)
    qed (use None \<open>rc_disk c = Some d\<close> f(1) assms in
        \<open>simp add: cache_lookup_def cache_sound_def lookup_sound_def\<close>)
  qed (use None assms in \<open>simp add: cache_lookup_def cache_sound_def lookup_sound_def\<close>)
qed

lemma cache_put_sound:
  assumes "cache_sound H fs c" and "entry_fine k e r" and "length (encode k e r) < 2 ^ 64"
    and "cache_put E io fs c k e r = (fs', c')"
  shows "cache_sound (insert (k, e, r) H) fs' c'"
proof -
  have "mem_sound (insert (k, e, r) H) c"
    using assms(1) unfolding cache_sound_def mem_sound_def by blast
  then have "mem_sound (insert (k, e, r) H) (insert_memory E c k e r)"
    by (rule insert_memory_sound [of _ _ _ e]) simp_all
  moreover have "disk_sound (insert (k, e, r) H) fs'"
    using assms(1,4) disk_sound_put disk_sound_mono [of H fs "insert (k, e, r) H"]
    by (auto simp: cache_sound_def cache_put_def Let_def split: option.splits)
  moreover have "history_fine (insert (k, e, r) H)"
    using assms by (simp add: cache_sound_def history_fine_def)
  ultimately show ?thesis using assms(4) by (simp add: cache_sound_def cache_put_def Let_def)
qed

lemma cache_run_sound: "cache_run E H fs c \<Longrightarrow> cache_sound H fs c"
proof (induction rule: cache_run.induct)
  case (start n)
  then show ?case
    by (simp add: cache_sound_def history_fine_def disk_sound_def mem_sound_def with_disk_def)
next
  case (start_memory n)
  then show ?case
    by (simp add: cache_sound_def history_fine_def disk_sound_def mem_sound_def cache_new_def)
next
  case (put H fs c k e r io fs' c')
  then show ?case by (intro cache_put_sound)
next
  case (look H fs c k now c' l)
  then show ?case using cache_lookup_sound [OF look.IH, of E k now] by (simp add: cache_sound_def)
next
  case (restart H fs c n)
  then show ?case by (simp add: cache_sound_def mem_sound_def with_disk_def)
qed

text \<open>
  C17. Soundness of the two tiers: after any sequence of puts, lookups and restarts, with any
  failures of the file operations, a lookup returns normally (no panic), and what it returns was put under
  that very key, fresh only if it was put with an expiry still to come.  Hash collisions,
  truncated files and stale temporaries never surface.
\<close>

theorem cache_lookup_never_wrong:
  assumes "cache_run E H fs c"
  shows "\<exists>c' l. cache_lookup E fs c k now = Inr (c', l) \<and> lookup_sound H k now l"
  using cache_lookup_sound [OF cache_run_sound [OF assms], of E k now] by blast

definition torn_io :: disk_io where
  "torn_io = demo_io\<lparr>io_write := WriteFailsAfter 3\<rparr>"

theorem cache_lookup_never_wrong_witness:
  "\<exists>c' l. cache_lookup demo_env (fst (cache_put demo_env torn_io [] (with_disk 2) ''k'' (SysTime 5) (demo_response [])))
       (with_disk 2) ''k'' (SysTime 0) = Inr (c', l)
     \<and> lookup_sound {(''k'', SysTime 5, demo_response [])} ''k'' (SysTime 0) l"
proof (rule cache_lookup_never_wrong)
  have "valid_utf8 ''k''" by code_simp
  then have fine: "entry_fine ''k'' (SysTime 5) (demo_response [])"
    by (simp add: entry_fine_def string_fine_def response_fine_def demo_response_def systime_secs_def)
  have len: "length (encode ''k'' (SysTime 5) (demo_response [])) < 2 ^ 64"
    by (simp add: encode_def write_bytes_def demo_response_def)
  show "cache_run demo_env {(''k'', SysTime 5, demo_response [])}
      (fst (cache_put demo_env torn_io [] (with_disk 2) ''k'' (SysTime 5) (demo_response []))) (with_disk 2)"
    using cache_run.restart [OF cache_run.put [OF cache_run.start fine len]] by (metis prod.collapse)
qed

text \<open>
  Durability: a put whose write and rename succeed is found after a restart, from disk alone,
  with its expiry rounded down to the second.
\<close>

theorem put_survives_restart:
  assumes "entry_fine k e r" and "length (encode k e r) < 2 ^ 64" and "rc_disk c = Some d"
    and "io_write io = WriteOk" and "io_rename io"
  shows "\<exists>c'. cache_lookup E (fst (cache_put E io fs c k e r)) (with_disk n) k now
     = Inr (c', if now < floor_secs e then Fresh r else Stale r)"
proof -
  have "decode (encode k e r) = Inr (Some (k, floor_secs e, r))"
    using decode_encode' [of k e r "[]"] assms(1,2) by simp
  with assms(3-) show ?thesis
    by (simp add: cache_put_def disk_put_def cache_lookup_def with_disk_def disk_get_def al_simps
        classify_def Let_def)
qed

theorem put_survives_restart_witness:
  "\<exists>c'. cache_lookup demo_env
       (fst (cache_put demo_env demo_io [] (with_disk 2) ''x.io/a'' (SysTime 1500000000) demo_entry))
       (with_disk 2) ''x.io/a'' (SysTime 0) = Inr (c', Fresh demo_entry)"
  using put_survives_restart [OF demo_entry_fine, of "with_disk 2" "disk_new 2" demo_io demo_env "[]" 2 "SysTime 0"]
  by (simp add: with_disk_def demo_io_def encode_def write_bytes_def demo_entry_def
      less_systime_def floor_secs_def systime_secs_def)

end
