(* ===== verification/DiskRace.thy ===== *)
theory DiskRace
  imports CacheStore
begin

section \<open>Concurrent writers of one cache file: \<^verbatim>\<open>DiskStore::put\<close> in \<^verbatim>\<open>zaphyl-core/src/cache.rs\<close>\<close>

text \<open>
  \<open>DiskStore::put\<close> runs outside any lock: threads that store the same key (or colliding keys) share
  the temporary's name.  Here each thread's \<open>put\<close> is the sequence of system calls behind
  \<open>std::fs::write\<close> and \<open>rename\<close>: open with truncation (creating the file if the name is free),
  writes at the thread's own offset, close, rename of whatever the temporary's name then denotes.
  Files are inodes; the two names of the path are references to them.  The flag \<open>whole\<close> says that
  every \<open>write\<close> call takes all remaining bytes at once.
\<close>

datatype writer_pc = Begin | Opened nat nat | Closed | Done

record race =
  rtmp :: "nat option"
  rfinal :: "nat option"
  rfile :: "nat \<Rightarrow> bytes"
  rfresh :: nat
  rpc :: "nat \<Rightarrow> writer_pc"

definition overlay :: "nat \<Rightarrow> bytes \<Rightarrow> bytes \<Rightarrow> bytes" where
  "overlay off c old =
     take off (old @ replicate (off - length old) (CHR 0x00)) @ c @ drop (off + length c) old"

type_synonym writers = "nat \<Rightarrow> string \<times> systime \<times> cached_response"

definition content :: "writers \<Rightarrow> nat \<Rightarrow> bytes" where
  "content W i = (case W i of (k, e, r) \<Rightarrow> encode k e r)"

definition race_init :: race where
  "race_init = \<lparr>rtmp = None, rfinal = None, rfile = (\<lambda>_. []), rfresh = 0, rpc = (\<lambda>_. Begin)\<rparr>"

inductive race_step :: "writers \<Rightarrow> bool \<Rightarrow> race \<Rightarrow> race \<Rightarrow> bool" for W :: writers and whole :: bool where
  open_new: "rpc s i = Begin \<Longrightarrow> rtmp s = None \<Longrightarrow>
    race_step W whole s
      (s\<lparr>rtmp := Some (rfresh s), rfile := (rfile s)(rfresh s := []), rfresh := Suc (rfresh s),
         rpc := (rpc s)(i := Opened (rfresh s) 0)\<rparr>)"
| open_old: "rpc s i = Begin \<Longrightarrow> rtmp s = Some j \<Longrightarrow>
    race_step W whole s (s\<lparr>rfile := (rfile s)(j := []), rpc := (rpc s)(i := Opened j 0)\<rparr>)"
| do_write: "rpc s i = Opened j off \<Longrightarrow> 0 < n \<Longrightarrow> off + n \<le> length (content W i) \<Longrightarrow>
    (whole \<longrightarrow> off + n = length (content W i)) \<Longrightarrow>
    race_step W whole s
      (s\<lparr>rfile := (rfile s)(j := overlay off (take n (drop off (content W i))) (rfile s j)),
         rpc := (rpc s)(i := Opened j (off + n))\<rparr>)"
| do_close: "rpc s i = Opened j off \<Longrightarrow> off = length (content W i) \<Longrightarrow>
    race_step W whole s (s\<lparr>rpc := (rpc s)(i := Closed)\<rparr>)"
| do_rename: "rpc s i = Closed \<Longrightarrow> rtmp s = Some j \<Longrightarrow>
    race_step W whole s (s\<lparr>rfinal := Some j, rtmp := None, rpc := (rpc s)(i := Done)\<rparr>)"
| no_rename: "rpc s i = Closed \<Longrightarrow> rtmp s = None \<Longrightarrow>
    race_step W whole s (s\<lparr>rpc := (rpc s)(i := Done)\<rparr>)"

inductive race_reach :: "writers \<Rightarrow> bool \<Rightarrow> race \<Rightarrow> bool" for W :: writers and whole :: bool where
  init: "race_reach W whole race_init"
| step: "race_reach W whole s \<Longrightarrow> race_step W whole s s' \<Longrightarrow> race_reach W whole s'"

subsection \<open>Whole writes\<close>

definition starts_entry :: "writers \<Rightarrow> bytes \<Rightarrow> bool" where
  "starts_entry W bs = (bs = [] \<or> (\<exists>i t. bs = content W i @ t))"

definition race_inv :: "writers \<Rightarrow> race \<Rightarrow> bool" where
  "race_inv W s =
     ((\<forall>j. starts_entry W (rfile s j) \<and> length (rfile s j) < 2 ^ 64) \<and>
      (\<forall>i j off. rpc s i = Opened j off \<longrightarrow> off = 0 \<or> off = length (content W i)))"

lemma race_step_inv:
  assumes "race_step W whole s s'" and "whole" and "race_inv W s"
    and "\<forall>i. length (content W i) < 2 ^ 64"
  shows "race_inv W s'"
  using assms
proof (induction rule: race_step.induct)
  case (do_write s i j off n)
  then have "off = 0 \<or> off = length (content W i)" unfolding race_inv_def by blast
  with do_write have off: "off = 0" and n: "n = length (content W i)" by auto
  have "overlay off (take n (drop off (content W i))) (rfile s j)
      = content W i @ drop (length (content W i)) (rfile s j)"
    by (simp add: off n overlay_def)
  moreover have "length (content W i @ drop (length (content W i)) (rfile s j)) < 2 ^ 64"
  proof -
    have "length (content W i) < 2 ^ 64" "length (rfile s j) < 2 ^ 64"
      using do_write.prems unfolding race_inv_def by blast+
    then show ?thesis by (cases "length (content W i) \<le> length (rfile s j)") simp_all
  qed
  ultimately show ?case
    using do_write.prems off n by (auto simp: race_inv_def starts_entry_def)
qed (auto simp: race_inv_def starts_entry_def)

lemma race_reach_inv:
  assumes "race_reach W True s" and "\<forall>i. length (content W i) < 2 ^ 64"
  shows "race_inv W s"
  using assms(1)
proof induction
  case init
  then show ?case by (simp add: race_inv_def starts_entry_def race_init_def)
qed (use race_step_inv assms(2) in blast)

lemma decode_Nil: "decode [] = Inr None"
  by (simp add: decode_def reader_string_def andThen_def reader_u32_def reader_take_def)

text \<open>
  C0. As long as each \<open>write\<close> call takes the whole buffer, a reader of the published file, at any
  moment of any interleaving of any number of writers, finds nothing or an entry that one of them
  put: truncation by another writer shows as a miss, and the tail of a longer, overwritten entry
  is ignored.
\<close>

theorem published_entry_was_put:
  assumes "race_reach W True s" and "rfinal s = Some j"
    and "\<forall>i. case W i of (k, e, r) \<Rightarrow> entry_fine k e r" and "\<forall>i. length (content W i) < 2 ^ 64"
  shows "decode (rfile s j) = Inr None \<or>
     (\<exists>i. decode (rfile s j) = Inr (Some (case W i of (k, e, r) \<Rightarrow> (k, floor_secs e, r))))"
proof -
  have inv: "starts_entry W (rfile s j)" "length (rfile s j) < 2 ^ 64"
    using race_reach_inv [OF assms(1,4)] by (simp_all add: race_inv_def)
  show ?thesis
  proof (cases "rfile s j = []")
    case False
    with inv(1) obtain i t where it: "rfile s j = content W i @ t" by (auto simp: starts_entry_def)
    obtain k e r where w: "W i = (k, e, r)" by (cases "W i") auto
    with assms(3) have "entry_fine k e r" by (metis (mono_tags) case_prod_conv)
    with decode_encode' [of k e r t] inv(2) it w show ?thesis
      by (intro disjI2 exI [of _ i]) (simp add: content_def)
  qed (simp add: decode_Nil)
qed

definition ab_writers :: writers where
  "ab_writers i = (''k'', SysTime 0, demo_response (if i = 0 then ''aa'' else ''bb''))"

lemma ab_content: "content ab_writers i
    = enc_string ''k'' @ le_bytes 8 0 @ le_bytes 2 200 @ le_bytes 4 0 @ le_bytes 8 2
      @ (if i = 0 then ''aa'' else ''bb'')"
  by (simp add: content_def ab_writers_def demo_response_def encode_eq expiry_unix_def systime_secs_def
      enc_response_def flip: numeral_2_eq_2)

lemma ab_length: "length (content ab_writers i) = 29"
  by (simp add: ab_content enc_string_def)

lemma ab_fine: "entry_fine ''k'' (SysTime 0) (demo_response b) \<longleftrightarrow> length b < 2 ^ 64"
proof -
  have "valid_utf8 ''k''" by code_simp
  then show ?thesis
    by (simp add: entry_fine_def string_fine_def response_fine_def demo_response_def systime_secs_def)
qed

text \<open>A run in which writer 0 publishes the inode that writer 1 has truncated and rewrites.\<close>

definition ab_state :: "writer_pc \<Rightarrow> writer_pc \<Rightarrow> nat option \<Rightarrow> nat option \<Rightarrow> bytes \<Rightarrow> race" where
  "ab_state p q t f bs = \<lparr>rtmp = t, rfinal = f, rfile = (\<lambda>_. [])(0 := bs), rfresh = 1,
     rpc = (\<lambda>_. Begin)(0 := p, 1 := q)\<rparr>"

lemma race_step_to: "race_step W whole s t \<Longrightarrow> t = s' \<Longrightarrow> race_reach W whole s \<Longrightarrow> race_reach W whole s'"
  by (auto intro: race_reach.step)

lemma ab_published:
  "race_reach ab_writers whole (ab_state Done (Opened 0 0) None (Some 0) (content ab_writers 0))"
proof -
  let ?W = ab_writers and ?a = "content ab_writers 0"
  have 1: "race_reach ?W whole (ab_state (Opened 0 0) Begin (Some 0) None [])"
    by (rule race_step_to [OF race_step.open_new [of _ 0] _ race_reach.init])
      (simp_all add: race_init_def ab_state_def fun_eq_iff)
  have 2: "race_reach ?W whole (ab_state (Opened 0 0) (Opened 0 0) (Some 0) None [])"
    by (rule race_step_to [OF race_step.open_old [of _ 1 0] _ 1]) (simp_all add: ab_state_def)
  have 3: "race_reach ?W whole (ab_state (Opened 0 29) (Opened 0 0) (Some 0) None ?a)"
    by (rule race_step_to [OF race_step.do_write [of _ 0 0 0 29] _ 2])
      (simp_all add: ab_state_def overlay_def ab_length fun_upd_twist)
  have 4: "race_reach ?W whole (ab_state Closed (Opened 0 0) (Some 0) None ?a)"
    by (rule race_step_to [OF race_step.do_close [of _ 0 0 29] _ 3])
      (simp_all add: ab_state_def ab_length fun_upd_twist)
  show ?thesis
    by (rule race_step_to [OF race_step.do_rename [of _ 0 0] _ 4])
      (simp_all add: ab_state_def fun_upd_twist)
qed

theorem published_entry_was_put_witness:
  "decode (rfile (ab_state Done (Opened 0 0) None (Some 0) (content ab_writers 0)) 0) = Inr None \<or>
     (\<exists>i. decode (rfile (ab_state Done (Opened 0 0) None (Some 0) (content ab_writers 0)) 0)
       = Inr (Some (case ab_writers i of (k, e, r) \<Rightarrow> (k, floor_secs e, r))))"
proof (rule published_entry_was_put [OF ab_published])
  show "rfinal (ab_state Done (Opened 0 0) None (Some 0) (content ab_writers 0)) = Some 0"
    by (simp add: ab_state_def)
  show "\<forall>i. case ab_writers i of (k, e, r) \<Rightarrow> entry_fine k e r" by (simp add: ab_writers_def ab_fine)
  show "\<forall>i. length (content ab_writers i) < 2 ^ 64" by (simp add: ab_length)
qed

text \<open>
  Without that assumption the rename is not an atomic publication: two writers of one key can
  reach a state whose published file decodes to a response that neither of them put.
\<close>

theorem published_entry_can_be_torn:
  "\<exists>s j. race_reach ab_writers False s \<and> rfinal s = Some j \<and>
     decode (rfile s j) = Inr (Some (''k'', SysTime 0, demo_response ''ba''))"
proof -
  let ?a = "content ab_writers 0" and ?b = "content ab_writers 1"
  let ?s = "ab_state Done (Opened 0 28) None (Some 0) (take 28 ?b @ drop 28 ?a)"
  have "race_step ab_writers False (ab_state Done (Opened 0 0) None (Some 0) ?a) ?s"
    using race_step.do_write
      [of "ab_state Done (Opened 0 0) None (Some 0) ?a" 1 0 0 28 ab_writers False]
    by (simp add: ab_state_def overlay_def ab_length)
  then have "race_reach ab_writers False ?s" by (rule race_reach.step [OF ab_published])
  moreover have "take 28 ?b @ drop 28 ?a = encode ''k'' (SysTime 0) (demo_response ''ba'')"
    by (simp add: ab_content encode_eq expiry_unix_def systime_secs_def enc_response_def
        demo_response_def enc_string_def flip: numeral_2_eq_2)
  moreover have "decode (encode ''k'' (SysTime 0) (demo_response ''ba''))
      = Inr (Some (''k'', SysTime 0, demo_response ''ba''))"
    using decode_encode' [of "''k''" "SysTime 0" "demo_response ''ba''" "[]"]
    by (simp add: ab_fine) (simp add: encode_def write_bytes_def demo_response_def floor_secs_def
        systime_secs_def)
  ultimately show ?thesis by (intro exI [of _ ?s] exI [of _ 0]) (simp add: ab_state_def)
qed

end
