(* ===== verification/CacheSpec.thy ===== *)
theory CacheSpec
  imports CacheStore
begin

section \<open>What the cache promises: a map of latest puts that may forget\<close>

text \<open>
  The specification behind \<^verbatim>\<open>cache.rs\<close>: two maps from keys to entries, the last entry put under a key and the
  last one that landed on disk.  A lookup may miss, else it answers from one of the two.  The tiers of
  \<^verbatim>\<open>CacheStore\<close> (bounded maps with eviction, hashed file names, temporaries, refills, restarts) refine it.
\<close>

subsection \<open>Operations and their effect on the tiers\<close>

datatype cache_op =
    CPut disk_io string systime cached_response
  | CLook string systime
  | CRestart nat

fun cache_ops :: "cache_env \<Rightarrow> cache_op list \<Rightarrow> dir \<Rightarrow> response_cache \<Rightarrow> lookup list res" where
  "cache_ops E [] fs c = Inr []"
| "cache_ops E (CPut io k e r # ops) fs c =
     (case cache_put E io fs c k e r of (fs, c) \<Rightarrow> cache_ops E ops fs c)"
| "cache_ops E (CLook k now # ops) fs c =
     rbind (cache_lookup E fs c k now) (\<lambda>(c, l). rbind (cache_ops E ops fs c) (\<lambda>ls. Inr (l # ls)))"
| "cache_ops E (CRestart n # ops) fs c = cache_ops E ops fs (with_disk n)"

subsection \<open>The specification\<close>

type_synonym put_map = "string \<Rightarrow> entry option"

definition landed :: "disk_io \<Rightarrow> bool" where
  "landed io = (io_write io = WriteOk \<and> io_rename io)"

text \<open>The two answers the specification has for each lookup: the last put, and the last that landed.\<close>

fun latest_puts :: "cache_op list \<Rightarrow> put_map \<Rightarrow> put_map \<Rightarrow> (systime \<times> entry option \<times> entry option) list" where
  "latest_puts [] m d = []"
| "latest_puts (CPut io k e r # ops) m d =
     latest_puts ops (m(k \<mapsto> (e, r))) (if landed io then d(k \<mapsto> (e, r)) else d)"
| "latest_puts (CLook k now # ops) m d = (now, m k, d k) # latest_puts ops m d"
| "latest_puts (CRestart n # ops) m d = latest_puts ops m d"

text \<open>An entry's answer at a time: its expiry exact from memory, rounded down to the second from disk.\<close>

fun answers :: "lookup \<Rightarrow> systime \<Rightarrow> entry option \<Rightarrow> bool" where
  "answers l now None = False"
| "answers l now (Some (e, r)) = (l = classify now (e, r) \<or> l = classify now (floor_secs e, r))"

fun allowed :: "lookup \<Rightarrow> systime \<times> entry option \<times> entry option \<Rightarrow> bool" where
  "allowed l (now, newest, durable) = (l = Miss \<or> answers l now newest \<or> answers l now durable)"

fun op_fine :: "cache_op \<Rightarrow> bool" where
  "op_fine (CPut io k e r) = (entry_fine k e r \<and> length (encode k e r) < 2 ^ 64)"
| "op_fine (CLook k now) = True"
| "op_fine (CRestart n) = True"

subsection \<open>The refinement relation\<close>

text \<open>A held entry is the map's, up to the rounding of its expiry.\<close>

definition holds :: "entry option \<Rightarrow> entry \<Rightarrow> bool" where
  "holds x er = (\<exists>e. x = Some (e, snd er) \<and> (fst er = e \<or> fst er = floor_secs e))"

definition mem_rel :: "put_map \<Rightarrow> put_map \<Rightarrow> response_cache \<Rightarrow> bool" where
  "mem_rel m d c = (\<forall>k er. map_of (rc_entries c) k = Some er \<longrightarrow> holds (m k) er \<or> holds (d k) er)"

text \<open>
  A file named like an entry holds the encoding of what landed last under its key, at that key's name;
  files left by a key of the same hash are gone with the first put that lands.
\<close>

definition disk_rel :: "cache_env \<Rightarrow> put_map \<Rightarrow> dir \<Rightarrow> bool" where
  "disk_rel E d fs = (\<forall>name t bs. CHR ''.'' \<notin> set name \<longrightarrow> map_of fs name = Some (t, bs) \<longrightarrow>
     (\<exists>k e r. d k = Some (e, r) \<and> name = disk_path E k \<and> bs = encode k e r
        \<and> entry_fine k e r \<and> length bs < 2 ^ 64))"

definition refines :: "cache_env \<Rightarrow> put_map \<Rightarrow> put_map \<Rightarrow> dir \<Rightarrow> response_cache \<Rightarrow> bool" where
  "refines E m d fs c = (mem_rel m d c \<and> disk_rel E d fs \<and> rc_disk c \<noteq> None)"

lemma holds_answers: "holds x er \<Longrightarrow> answers (classify now er) now x"
  by (cases er) (auto simp: holds_def)

lemma disk_rel_remove: "disk_rel E d fs \<Longrightarrow> disk_rel E d (al_remove k fs)"
  by (auto simp: disk_rel_def al_simps)

lemma disk_rel_tmp: "disk_rel E d fs \<Longrightarrow> disk_rel E d (al_insert (tmp_path path) v fs)"
  using tmp_path_dot [of path] by (auto simp: disk_rel_def al_simps)

lemma disk_rel_evict: "disk_rel E d fs \<Longrightarrow> disk_rel E d (disk_evict E io s fs)"
  by (auto simp: disk_evict_def Let_def intro: disk_rel_remove split: option.split)

lemma disk_rel_publish:
  assumes "disk_rel E d fs" and "entry_fine k e r" and "length (encode k e r) < 2 ^ 64"
  shows "disk_rel E (d(k \<mapsto> (e, r))) (al_insert (disk_path E k) (t, encode k e r) fs)"
  unfolding disk_rel_def
proof (intro allI impI)
  fix name t' bs
  assume dot: "CHR ''.'' \<notin> set name"
    and at: "map_of (al_insert (disk_path E k) (t, encode k e r) fs) name = Some (t', bs)"
  show "\<exists>k' e' r'. (d(k \<mapsto> (e, r))) k' = Some (e', r') \<and> name = disk_path E k' \<and> bs = encode k' e' r'
      \<and> entry_fine k' e' r' \<and> length bs < 2 ^ 64"
  proof (cases "name = disk_path E k")
    case True
    with at assms(2,3) show ?thesis by (intro exI [of _ k]) (auto simp: al_simps)
  next
    case False
    with at have "map_of fs name = Some (t', bs)" by (simp add: al_simps)
    with dot assms(1) obtain k' e' r' where old: "d k' = Some (e', r')" "name = disk_path E k'"
      "bs = encode k' e' r'" "entry_fine k' e' r'" "length bs < 2 ^ 64"
      unfolding disk_rel_def by blast
    with False have "k' \<noteq> k" by auto
    with old show ?thesis by (intro exI [of _ k']) auto
  qed
qed

lemma disk_rel_put:
  assumes "disk_rel E d fs" and "entry_fine k e r" and "length (encode k e r) < 2 ^ 64"
  shows "disk_rel E (if landed io then d(k \<mapsto> (e, r)) else d) (disk_put E io s fs k e r)"
  using assms
  by (auto simp: disk_put_def landed_def Let_def split: write_outcome.split
      intro!: disk_rel_publish disk_rel_tmp disk_rel_remove disk_rel_evict)

lemma disk_get_rel:
  assumes "disk_rel E d fs"
  shows "\<exists>found. disk_get E fs k = Inr found \<and> (\<forall>er. found = Some er \<longrightarrow> holds (d k) er)"
proof (cases "map_of fs (disk_path E k)")
  case (Some f)
  obtain t bs where f: "f = (t, bs)" by fastforce
  with Some assms disk_path_dot [of E k] obtain k' e' r' where h: "d k' = Some (e', r')"
    "bs = encode k' e' r'" "entry_fine k' e' r'" "length bs < 2 ^ 64"
    unfolding disk_rel_def by fast
  then have "decode bs = Inr (Some (k', floor_secs e', r'))"
    using decode_encode' [of k' e' r' "[]"] by simp
  with Some f h(1) show ?thesis by (auto simp: disk_get_def holds_def)
qed (simp add: disk_get_def)

lemma mem_rel_insert:
  assumes "mem_rel m d c" and "holds (m' k) er \<or> holds (d' k) er"
    and "\<And>k'. k' \<noteq> k \<Longrightarrow> m' k' = m k' \<and> d' k' = d k'"
  shows "mem_rel m' d' (insert_memory E c k (fst er) (snd er))"
  unfolding mem_rel_def
proof (intro allI impI)
  fix k' er'
  assume at: "map_of (rc_entries (insert_memory E c k (fst er) (snd er))) k' = Some er'"
  show "holds (m' k') er' \<or> holds (d' k') er'"
  proof (cases "k' = k")
    case True
    with at assms(2) show ?thesis by (simp add: insert_memory_def Let_def al_simps)
  next
    case False
    with at have "map_of (rc_entries c) k' = Some er'"
      by (auto simp: insert_memory_def Let_def al_simps split: if_splits option.splits)
    with assms(1) assms(3) [OF False] show ?thesis unfolding mem_rel_def by metis
  qed
qed

subsection \<open>Each operation refines its specification\<close>

lemma put_refines:
  assumes "refines E m d fs c" and "entry_fine k e r" and "length (encode k e r) < 2 ^ 64"
    and "cache_put E io fs c k e r = (fs', c')"
  shows "refines E (m(k \<mapsto> (e, r))) (if landed io then d(k \<mapsto> (e, r)) else d) fs' c'"
proof -
  let ?d = "if landed io then d(k \<mapsto> (e, r)) else d"
  have "mem_rel (m(k \<mapsto> (e, r))) ?d (insert_memory E c k (fst (e, r)) (snd (e, r)))"
    using assms(1) by (intro mem_rel_insert [of m d]) (simp_all add: refines_def holds_def)
  with assms disk_rel_put [of E d fs k e r io] show ?thesis
    by (auto simp: refines_def cache_put_def)
qed

lemma lookup_refines:
  assumes "refines E m d fs c"
  shows "\<exists>c' l. cache_lookup E fs c k now = Inr (c', l) \<and> allowed l (now, m k, d k) \<and> refines E m d fs c'"
proof (cases "map_of (rc_entries c) k")
  case (Some er)
  with assms have "holds (m k) er \<or> holds (d k) er" unfolding refines_def mem_rel_def by metis
  with Some assms show ?thesis by (auto simp: cache_lookup_def intro: holds_answers)
next
  case None
  from assms obtain s where s: "rc_disk c = Some s" by (auto simp: refines_def)
  obtain found where f: "disk_get E fs k = Inr found" "\<forall>er. found = Some er \<longrightarrow> holds (d k) er"
    using assms disk_get_rel unfolding refines_def by blast
  show ?thesis
  proof (cases found)
    case None
    with \<open>map_of (rc_entries c) k = None\<close> s f assms show ?thesis by (simp add: cache_lookup_def)
  next
    case (Some er)
    with f have h: "holds (d k) er" by simp
    then have "refines E m d fs (insert_memory E c k (fst er) (snd er))"
      using assms by (auto simp: refines_def intro: mem_rel_insert)
    with Some None s f h show ?thesis by (auto simp: cache_lookup_def intro: holds_answers)
  qed
qed

lemma restart_refines: "refines E m d fs c \<Longrightarrow> refines E m d fs (with_disk n)"
  by (simp add: refines_def mem_rel_def with_disk_def)

lemma cache_ops_refine:
  assumes "refines E m d fs c" and "list_all op_fine ops"
  shows "\<exists>ls. cache_ops E ops fs c = Inr ls \<and> list_all2 allowed ls (latest_puts ops m d)"
  using assms
proof (induction E ops fs c arbitrary: m d rule: cache_ops.induct)
  case (2 E io k e r ops fs c)
  obtain fs' c' where p: "cache_put E io fs c k e r = (fs', c')" by fastforce
  from 2(3) have fine: "entry_fine k e r" "length (encode k e r) < 2 ^ 64" "list_all op_fine ops" by simp_all
  from 2(1) [OF p [symmetric] put_refines [OF 2(2) fine(1,2) p] fine(3)] show ?case
    unfolding cache_ops.simps latest_puts.simps p prod.case .
next
  case (3 E k now ops fs c)
  obtain c' l where l: "cache_lookup E fs c k now = Inr (c', l)" "allowed l (now, m k, d k)"
    "refines E m d fs c'"
    using lookup_refines [OF 3(2)] by meson
  from 3(3) have "list_all op_fine ops" by simp
  from 3(1) [OF l(3) this] obtain ls where "cache_ops E ops fs c' = Inr ls"
    "list_all2 allowed ls (latest_puts ops m d)"
    by blast
  with l show ?case by simp
next
  case (4 E n ops fs c)
  then show ?case by (simp add: restart_refines)
qed simp

subsection \<open>The cache from its start\<close>

abbreviation no_puts :: put_map where
  "no_puts \<equiv> \<lambda>_. None"

text \<open>
  C15. The two tiers refine a map that may forget: in any run of puts with any outcome of the file operations,
  lookups (which refill memory) and restarts, no lookup panics, and each one misses, or answers the last entry put
  under its key or the last whose file was written and renamed, as fresh before its expiry and stale after, the expiry
  exact or rounded down to the second.  A bounded memory, evictions, hashed file names that collide and temporaries
  that are left behind never let an older entry return once a newer one of its key has landed.
\<close>

theorem cache_refines_latest_puts:
  assumes "list_all op_fine ops"
  shows "\<exists>ls. cache_ops E ops [] (with_disk n) = Inr ls \<and> list_all2 allowed ls (latest_puts ops no_puts no_puts)"
proof (rule cache_ops_refine [OF _ assms])
  show "refines E no_puts no_puts [] (with_disk n)"
    by (simp add: refines_def mem_rel_def disk_rel_def with_disk_def)
qed

text \<open>When every put lands, the two maps are one: a lookup answers the latest put or misses.\<close>

fun lands :: "cache_op \<Rightarrow> bool" where
  "lands (CPut io k e r) = landed io"
| "lands (CLook k now) = True"
| "lands (CRestart n) = True"

lemma latest_puts_landed:
  "list_all lands ops \<Longrightarrow> list_all (\<lambda>(now, newest, durable). durable = newest) (latest_puts ops m m)"
  by (induction ops m m rule: latest_puts.induct) auto

text \<open>The premise of the next run: a put that lands, one whose file cannot be made, a restart.\<close>

definition lost_write :: "cache_op list" where
  "lost_write =
     [CPut demo_io ''k'' (SysTime 8000000000) (demo_response ''old''), CLook ''k'' (SysTime 1),
      CPut (demo_io\<lparr>io_write := CreateFails\<rparr>) ''k'' (SysTime 9000000000) (demo_response ''new''), CLook ''k'' (SysTime 1),
      CRestart 2, CLook ''k'' (SysTime 1)]"

lemma lost_write_fine: "list_all op_fine lost_write"
proof -
  have "valid_utf8 ''k''" by code_simp
  then show ?thesis
    by (simp add: lost_write_def entry_fine_def string_fine_def response_fine_def demo_response_def
        systime_secs_def encode_def write_bytes_def)
qed

text \<open>
  The write of \<open>put\<close> may fail, which it does not report and after which it does not remove the file it
  was to replace: the older entry, which the newer one has replaced in memory, is answered again,
  as fresh, after a restart (or when memory evicts the newer one).
\<close>

lemma lost_write_resurrects:
  "cache_ops demo_env lost_write [] (with_disk 2)
     = Inr [Fresh (demo_response ''old''), Fresh (demo_response ''new''), Fresh (demo_response ''old'')]"
  by code_simp

theorem cache_refines_latest_puts_witness:
  "\<exists>ls. cache_ops demo_env lost_write [] (with_disk 2) = Inr ls
     \<and> list_all2 allowed ls (latest_puts lost_write no_puts no_puts)"
  by (rule cache_refines_latest_puts [OF lost_write_fine])

end
