(* ===== verification/Config.thy ===== *)
theory Config
  imports Prelude
begin

section \<open>Configuration: \<^verbatim>\<open>crates/zaphyl-config/src/lib.rs\<close>, \<^verbatim>\<open>crates/zaphyl-config/src/sites.rs\<close>\<close>

text \<open>
  The configuration types, validation, the managed sites and their merge into the main file.
  The TOML deserializer (the \<open>toml\<close> and \<open>serde\<close> crates) is a parameter; a socket address is its text; a
  \<open>HashMap\<close> of headers is a list of pairs.  Numbers are naturals: nothing is computed on them here.
\<close>

subsection \<open>Types\<close>

record tls_config =
  tls_cert :: string
  tls_key :: string

record acme_config =
  acme_domains :: "string list"
  acme_email :: string
  acme_directory :: string
  acme_cache_dir :: string
  acme_renew_before_days :: nat
  acme_check_interval :: nat

record limits_config =
  lim_max_body :: "nat option"
  lim_max_header :: "nat option"
  lim_connect_timeout :: "nat option"
  lim_read_timeout :: "nat option"

record cache_config =
  cc_max_entries :: nat
  cc_max_body :: nat
  cc_disk_path :: "string option"

record access_config =
  acl_allow :: "string list"
  acl_deny :: "string list"

record plugins_config =
  pl_global :: "string list"
  pl_max_body :: nat

record route_config =
  rcf_host :: "string option"
  rcf_path :: "string option"
  rcf_upstream :: "string list"
  rcf_root :: "string option"
  rcf_tls :: bool
  rcf_strip_prefix :: bool
  rcf_request_headers :: headers
  rcf_response_headers :: headers
  rcf_grpc :: bool
  rcf_plugins :: "string list"

record config =
  cf_listen :: string
  cf_worker_threads :: "nat option"
  cf_shutdown_grace :: "nat option"
  cf_tls :: "tls_config option"
  cf_acme :: "acme_config option"
  cf_metrics :: "string option"
  cf_rate_limit :: "nat option"
  cf_health_check :: "nat option"
  cf_limits :: "limits_config option"
  cf_access :: "access_config option"
  cf_compression :: "nat option"
  cf_cache :: "cache_config option"
  cf_plugins :: "plugins_config option"
  cf_http3 :: "string option"
  cf_http :: "string option"
  cf_response_headers :: headers
  cf_routes :: "route_config list"

datatype 'e config_error = Toml 'e | Invalid string

datatype site_kind = Static | Php | App
datatype site_tls = Auto | Off

record site_config =
  st_domain :: string
  st_root :: string
  st_kind :: site_kind
  st_tls :: site_tls
  st_app :: "string option"
  st_php_fpm :: "string option"
  st_enabled :: bool

subsection \<open>Validation\<close>

text \<open>\<open>if bad { return Err(Invalid(msg)) }\<close> before the rest of the function.\<close>

definition reject_if :: "bool \<Rightarrow> string \<Rightarrow> 'e config_error + unit \<Rightarrow> 'e config_error + unit" where
  "reject_if bad msg rest = (if bad then Inl (Invalid msg) else rest)"

definition on_some :: "'a option \<Rightarrow> ('a \<Rightarrow> bool) \<Rightarrow> bool" where
  "on_some x P = (case x of None \<Rightarrow> False | Some a \<Rightarrow> P a)"

definition valid_upstream :: "string \<Rightarrow> bool" where
  "valid_upstream upstream =
     on_some (rsplit_once CHR '':'' (trim upstream))
       (\<lambda>(host, port). host \<noteq> [] \<and> parse_uint 16 port \<noteq> None)"

definition route_msg :: "nat \<Rightarrow> string \<Rightarrow> string" where
  "route_msg index what = ''route '' @ show_nat index @ '': '' @ what"

definition validate_route :: "nat \<Rightarrow> route_config \<Rightarrow> 'e config_error + unit \<Rightarrow> 'e config_error + unit" where
  "validate_route index route rest =
     (let has_upstream = (rcf_upstream route \<noteq> []);
          has_root = (rcf_root route \<noteq> None)
      in reject_if (\<not> has_upstream \<and> \<not> has_root) (route_msg index ''requires an upstream or a root'')
        (reject_if (has_upstream \<and> has_root) (route_msg index ''cannot set both upstream and root'')
        (case find (\<lambda>u. \<not> valid_upstream u) (rcf_upstream route) of
           Some upstream \<Rightarrow>
             Inl (Invalid (route_msg index
               (''upstream must be `host:port`, got `'' @ upstream @ ''`'')))
         | None \<Rightarrow>
             reject_if (on_some (rcf_path route) (\<lambda>path. \<not> starts_with ''/'' path))
               (route_msg index (''path must start with `/`, got `''
                 @ (case rcf_path route of None \<Rightarrow> [] | Some p \<Rightarrow> p) @ ''`''))
             (reject_if (rcf_strip_prefix route \<and> rcf_path route = None)
               (route_msg index ''strip_prefix requires a path'') rest))))"

fun validate_routes :: "nat \<Rightarrow> route_config list \<Rightarrow> 'e config_error + unit" where
  "validate_routes index [] = Inr ()"
| "validate_routes index (route # routes) =
     validate_route index route (validate_routes (Suc index) routes)"

definition validate_acme :: "acme_config option \<Rightarrow> 'e config_error + unit \<Rightarrow> 'e config_error + unit" where
  "validate_acme acme rest =
     (case acme of
        None \<Rightarrow> rest
      | Some acme \<Rightarrow>
          reject_if (acme_domains acme = [] \<or> list_ex (\<lambda>d. trim d = []) (acme_domains acme))
            ''acme.domains must list at least one non-empty domain''
          (reject_if (trim (acme_email acme) = []) ''acme.email must not be empty''
          (reject_if (acme_renew_before_days acme = 0) ''acme.renew_before_days must be at least 1''
          (reject_if (acme_check_interval acme = 0)
             ''acme.check_interval_seconds must be at least 1'' rest))))"

definition validate_limits :: "limits_config option \<Rightarrow> 'e config_error + unit \<Rightarrow> 'e config_error + unit" where
  "validate_limits limits rest =
     (case limits of
        None \<Rightarrow> rest
      | Some limits \<Rightarrow>
          reject_if (lim_max_body limits = Some 0) ''limits.max_request_body_bytes must be at least 1''
          (reject_if (lim_connect_timeout limits = Some 0 \<or> lim_read_timeout limits = Some 0)
             ''limits upstream timeouts must be at least 1 second'' rest))"

definition validate :: "config \<Rightarrow> 'e config_error + unit" where
  "validate c =
     reject_if (cf_routes c = []) ''at least one [[route]] is required''
    (reject_if (on_some (cf_tls c) (\<lambda>tls. trim (tls_cert tls) = [] \<or> trim (tls_key tls) = []))
       ''tls.cert and tls.key must not be empty''
    (reject_if (cf_tls c \<noteq> None \<and> cf_acme c \<noteq> None) ''[tls] and [acme] are mutually exclusive''
    (validate_acme (cf_acme c)
    (reject_if (cf_rate_limit c = Some 0) ''rate_limit.requests_per_second must be at least 1''
    (reject_if (cf_health_check c = Some 0) ''health_check.interval_seconds must be at least 1''
    (validate_limits (cf_limits c)
    (reject_if (cf_http3 c \<noteq> None \<and> cf_tls c = None \<and> cf_acme c = None)
       ''[http3] requires a TLS certificate ([tls] or [acme])''
    (reject_if (cf_http c \<noteq> None \<and> cf_tls c = None \<and> cf_acme c = None)
       ''[http] redirect requires a TLS certificate ([tls] or [acme])''
    (reject_if (cf_compression c = Some 0) ''compression.level must be at least 1''
    (reject_if (on_some (cf_cache c) (\<lambda>cache. cc_max_entries cache = 0 \<or> cc_max_body cache = 0))
       ''cache.max_entries and cache.max_body_bytes must be at least 1''
    (validate_routes 0 (cf_routes c))))))))))))"

definition from_toml :: "(string \<Rightarrow> 'e + config) \<Rightarrow> string \<Rightarrow> 'e config_error + config" where
  "from_toml parse input =
     (case parse input of
        Inl e \<Rightarrow> Inl (Toml e)
      | Inr config \<Rightarrow> (case validate config of Inl e \<Rightarrow> Inl e | Inr _ \<Rightarrow> Inr config))"

subsection \<open>Managed sites\<close>

definition to_route :: "site_config \<Rightarrow> route_config option" where
  "to_route site =
     (if \<not> st_enabled site then None
      else let upstream = (case (st_kind site, st_app site) of (App, Some app) \<Rightarrow> [app] | _ \<Rightarrow> [])
           in Some \<lparr>rcf_host = Some (st_domain site), rcf_path = None, rcf_upstream = upstream,
                rcf_root = Some (st_root site), rcf_tls = False, rcf_strip_prefix = False,
                rcf_request_headers = [], rcf_response_headers = [], rcf_grpc = False,
                rcf_plugins = []\<rparr>)"

definition tls_domain :: "site_config \<Rightarrow> string option" where
  "tls_domain site =
     (if \<not> st_enabled site then None
      else case st_tls site of Auto \<Rightarrow> Some (st_domain site) | Off \<Rightarrow> None)"

text \<open>
  What \<open>load\<close> sees of the outside: the main file, the names in the \<open>sites\<close> directory next to it
  (absent when it cannot be listed), the files in it, and the deserializers.  A file that cannot be
  read is an error text.
\<close>

record 'e load_env =
  le_main :: "string + string"
  le_sites :: "string list option"
  le_read_site :: "string \<Rightarrow> string + string"
  le_parse_config :: "string \<Rightarrow> 'e + config"
  le_parse_site :: "string \<Rightarrow> 'e + site_config"

definition file_extension :: "string \<Rightarrow> string option" where
  "file_extension name =
     (case rsplit_once CHR ''.'' name of
        None \<Rightarrow> None
      | Some (stem, ext) \<Rightarrow> if stem = [] then None else Some ext)"

definition site_files :: "string list option \<Rightarrow> string list" where
  "site_files listing =
     (case listing of
        None \<Rightarrow> []
      | Some names \<Rightarrow> sort (filter (\<lambda>n. file_extension n = Some ''toml'') names))"

definition read_site :: "'e load_env \<Rightarrow> string \<Rightarrow> 'e config_error + site_config" where
  "read_site env path =
     (case le_read_site env path of
        Inl msg \<Rightarrow> Inl (Invalid msg)
      | Inr body \<Rightarrow> (case le_parse_site env body of Inl e \<Rightarrow> Inl (Toml e) | Inr site \<Rightarrow> Inr site))"

fun load_sites :: "'e load_env \<Rightarrow> string list \<Rightarrow> route_config list \<Rightarrow> string list
    \<Rightarrow> 'e config_error + (route_config list \<times> string list)" where
  "load_sites env [] site_routes acme_doms = Inr (site_routes, acme_doms)"
| "load_sites env (path # paths) site_routes acme_doms =
     (case read_site env path of
        Inl e \<Rightarrow> Inl e
      | Inr site \<Rightarrow>
          load_sites env paths
            (case to_route site of None \<Rightarrow> site_routes | Some r \<Rightarrow> site_routes @ [r])
            (case tls_domain site of None \<Rightarrow> acme_doms | Some d \<Rightarrow> acme_doms @ [d]))"

definition merge_domains :: "string list \<Rightarrow> string list \<Rightarrow> string list" where
  "merge_domains domains new = fold (\<lambda>d ds. if d \<in> set ds then ds else ds @ [d]) new domains"

definition load :: "'e load_env \<Rightarrow> 'e config_error + config" where
  "load env =
     (case le_main env of
        Inl msg \<Rightarrow> Inl (Invalid msg)
      | Inr text \<Rightarrow>
          (case from_toml (le_parse_config env) text of
             Inl e \<Rightarrow> Inl e
           | Inr config \<Rightarrow>
               (case load_sites env (site_files (le_sites env)) [] [] of
                  Inl e \<Rightarrow> Inl e
                | Inr (site_routes, acme_doms) \<Rightarrow>
                    (let config = config\<lparr>cf_routes := site_routes @ cf_routes config\<rparr>
                     in Inr (case cf_acme config of
                               None \<Rightarrow> config
                             | Some acme \<Rightarrow>
                                 config\<lparr>cf_acme := Some (acme\<lparr>acme_domains :=
                                   merge_domains (acme_domains acme) acme_doms\<rparr>)\<rparr>)))))"

subsection \<open>What validation establishes\<close>

definition blank :: "string \<Rightarrow> bool" where
  "blank s = (trim s = [])"

definition route_valid :: "route_config \<Rightarrow> bool" where
  "route_valid r =
     ((rcf_upstream r = []) \<noteq> (rcf_root r = None) \<and>
      (\<forall>u\<in>set (rcf_upstream r). \<exists>host port n.
         trim u = host @ CHR '':'' # port \<and> host \<noteq> [] \<and> CHR '':'' \<notin> set port \<and>
         parse_uint 16 port = Some n) \<and>
      (\<forall>p. rcf_path r = Some p \<longrightarrow> (\<exists>rest. p = CHR ''/'' # rest)) \<and>
      (rcf_strip_prefix r \<longrightarrow> rcf_path r \<noteq> None))"

definition acme_valid :: "acme_config \<Rightarrow> bool" where
  "acme_valid a =
     (acme_domains a \<noteq> [] \<and> (\<forall>d\<in>set (acme_domains a). \<not> blank d) \<and> \<not> blank (acme_email a) \<and>
      0 < acme_renew_before_days a \<and> 0 < acme_check_interval a)"

definition config_valid :: "config \<Rightarrow> bool" where
  "config_valid c =
     (cf_routes c \<noteq> [] \<and> (\<forall>r\<in>set (cf_routes c). route_valid r) \<and>
      (\<forall>t. cf_tls c = Some t \<longrightarrow> \<not> blank (tls_cert t) \<and> \<not> blank (tls_key t) \<and> cf_acme c = None) \<and>
      (\<forall>a. cf_acme c = Some a \<longrightarrow> acme_valid a) \<and>
      (cf_http3 c \<noteq> None \<or> cf_http c \<noteq> None \<longrightarrow> cf_tls c \<noteq> None \<or> cf_acme c \<noteq> None) \<and>
      0 \<notin> set_option (cf_rate_limit c) \<union> set_option (cf_health_check c) \<union> set_option (cf_compression c) \<and>
      (\<forall>l. cf_limits c = Some l \<longrightarrow>
         0 \<notin> set_option (lim_max_body l) \<union> set_option (lim_connect_timeout l)
              \<union> set_option (lim_read_timeout l)) \<and>
      (\<forall>k. cf_cache c = Some k \<longrightarrow> 0 < cc_max_entries k \<and> 0 < cc_max_body k))"


lemma reject_if_Inr [simp]: "reject_if bad msg rest = Inr () \<longleftrightarrow> \<not> bad \<and> rest = Inr ()"
  by (simp add: reject_if_def)

lemma on_some_iff [simp]: "on_some x P \<longleftrightarrow> (\<exists>a. x = Some a \<and> P a)"
  by (cases x) (simp_all add: on_some_def)

lemma valid_upstream_iff:
  "valid_upstream u \<longleftrightarrow> (\<exists>host port n. trim u = host @ CHR '':'' # port \<and> host \<noteq> [] \<and>
     CHR '':'' \<notin> set port \<and> parse_uint 16 port = Some n)"
  by (auto simp: valid_upstream_def rsplit_once_Some_iff)

lemma starts_with_slash: "starts_with ''/'' p \<longleftrightarrow> (\<exists>rest. p = CHR ''/'' # rest)"
  by (auto simp: starts_with_iff)

lemma validate_route_Inr:
  "validate_route i r rest = Inr () \<longleftrightarrow> route_valid r \<and> rest = Inr ()"
proof -
  have up: "find (\<lambda>u. \<not> valid_upstream u) us = None \<longleftrightarrow> (\<forall>u\<in>set us. valid_upstream u)" for us
    by (simp add: find_None_iff) blast
  show ?thesis
    unfolding validate_route_def Let_def reject_if_Inr
    by (cases "find (\<lambda>u. \<not> valid_upstream u) (rcf_upstream r)")
      (use up [of "rcf_upstream r"] in \<open>auto simp: route_valid_def valid_upstream_iff starts_with_slash\<close>)
qed

lemma validate_routes_Inr: "validate_routes i rs = Inr () \<longleftrightarrow> (\<forall>r\<in>set rs. route_valid r)"
  by (induction rs arbitrary: i) (simp_all add: validate_route_Inr)

lemma validate_acme_Inr: "validate_acme a rest = Inr () \<longleftrightarrow> (\<forall>x. a = Some x \<longrightarrow> acme_valid x) \<and> rest = Inr ()"
  by (cases a) (auto simp: validate_acme_def acme_valid_def blank_def list_ex_iff)

lemma validate_limits_Inr:
  "validate_limits l rest = Inr () \<longleftrightarrow>
     (\<forall>x. l = Some x \<longrightarrow> 0 \<notin> set_option (lim_max_body x) \<union> set_option (lim_connect_timeout x)
        \<union> set_option (lim_read_timeout x)) \<and> rest = Inr ()"
  by (cases l) (auto simp: validate_limits_def elem_set)

lemma validate_accepts_valid': "validate c = Inr () \<longleftrightarrow> config_valid c"
  by (cases "cf_tls c"; cases "cf_acme c"; cases "cf_cache c")
    (auto simp: validate_def validate_routes_Inr validate_acme_Inr validate_limits_Inr config_valid_def
      blank_def elem_set)


text \<open>The routes of an accepted file, as the router is built from them.\<close>

lemma from_toml_valid: "from_toml parse input = Inr c \<Longrightarrow> config_valid c"
  by (auto simp: from_toml_def validate_accepts_valid' split: sum.splits)

definition http_only :: config where
  "http_only = \<lparr>cf_listen = ''0.0.0.0:8080'', cf_worker_threads = None, cf_shutdown_grace = None,
     cf_tls = None, cf_acme = None, cf_metrics = None, cf_rate_limit = None, cf_health_check = None,
     cf_limits = None, cf_access = None, cf_compression = None, cf_cache = None, cf_plugins = None,
     cf_http3 = None, cf_http = None, cf_response_headers = [],
     cf_routes = [\<lparr>rcf_host = None, rcf_path = None, rcf_upstream = [''10.0.0.1:80''], rcf_root = None,
       rcf_tls = False, rcf_strip_prefix = False, rcf_request_headers = [],
       rcf_response_headers = [], rcf_grpc = False, rcf_plugins = []\<rparr>]\<rparr>"

lemma http_only_valid: "validate http_only = Inr ()"
proof -
  have "valid_upstream ''10.0.0.1:80''" by code_simp
  then show ?thesis
    by (simp add: validate_def http_only_def validate_acme_def validate_limits_def validate_route_def
        reject_if_def on_some_def)
qed

subsection \<open>What loading establishes\<close>

fun read_all :: "'e load_env \<Rightarrow> string list \<Rightarrow> 'e config_error + site_config list" where
  "read_all env [] = Inr []"
| "read_all env (p # ps) =
     (case read_site env p of
        Inl e \<Rightarrow> Inl e
      | Inr site \<Rightarrow> (case read_all env ps of Inl e \<Rightarrow> Inl e | Inr sites \<Rightarrow> Inr (site # sites)))"

lemma read_all_Inr:
  "read_all env paths = Inr sites \<Longrightarrow> list_all2 (\<lambda>path site. read_site env path = Inr site) paths sites"
  by (induction paths arbitrary: sites) (auto split: sum.splits)

lemma load_sites_eq:
  "load_sites env paths rs ds =
     (case read_all env paths of
        Inl e \<Rightarrow> Inl e
      | Inr sites \<Rightarrow> Inr (rs @ List.map_filter to_route sites, ds @ List.map_filter tls_domain sites))"
proof (induction paths arbitrary: rs ds)
  case (Cons p ps)
  show ?case
  proof (cases "read_site env p")
    case (Inr site)
    then show ?thesis
      unfolding load_sites.simps read_all.simps Inr sum.case Cons.IH
      by (cases "read_all env ps"; cases "to_route site"; cases "tls_domain site")
        (simp_all only: sum.case option.case map_filter_simps append_assoc append.simps)
  qed simp
qed simp

lemma load_sites_Inr:
  assumes "load_sites env paths [] [] = Inr (rs, ds)"
  obtains sites where "list_all2 (\<lambda>path site. read_site env path = Inr site) paths sites"
    and "rs = List.map_filter to_route sites" and "ds = List.map_filter tls_domain sites"
  using assms read_all_Inr [of env paths] by (auto simp: load_sites_eq split: sum.splits)

lemma merge_domains_Cons:
  "merge_domains ds (d # new) = merge_domains (if d \<in> set ds then ds else ds @ [d]) new"
  by (simp add: merge_domains_def)

lemma merge_domains_prefix: "\<exists>rest. merge_domains ds new = ds @ rest"
proof (induction new arbitrary: ds)
  case (Cons d new)
  obtain rest where "merge_domains (if d \<in> set ds then ds else ds @ [d]) new
      = (if d \<in> set ds then ds else ds @ [d]) @ rest"
    using Cons.IH by blast
  then have "merge_domains ds (d # new) = ds @ (if d \<in> set ds then [] else [d]) @ rest"
    unfolding merge_domains_Cons by simp
  then show ?case by blast
qed (simp add: merge_domains_def)

lemma set_merge_domains: "set (merge_domains ds new) = set ds \<union> set new"
  by (induction new arbitrary: ds) (auto simp: merge_domains_Cons merge_domains_def [of _ "[]"])

lemma distinct_merge_domains: "distinct ds \<Longrightarrow> distinct (merge_domains ds new)"
  by (induction new arbitrary: ds) (auto simp: merge_domains_Cons merge_domains_def [of _ "[]"])

text \<open>
  A successful load has read every site file, in the order of their names, puts the routes of
  the enabled sites before those of the main file (so a site's host wins over a catch-all), and
  extends the ACME domains, where ACME is configured, by exactly the domains of the enabled sites
  with automatic TLS, without duplicating any and without dropping one.
\<close>

theorem load_merges_sites:
  assumes "load env = Inr c"
  shows "\<exists>body main sites.
     le_main env = Inr body \<and> from_toml (le_parse_config env) body = Inr main \<and>
     list_all2 (\<lambda>path site. read_site env path = Inr site) (site_files (le_sites env)) sites \<and>
     cf_routes c = List.map_filter to_route sites @ cf_routes main \<and>
     (case cf_acme main of
        None \<Rightarrow> c = main\<lparr>cf_routes := cf_routes c\<rparr>
      | Some acme \<Rightarrow>
          \<exists>added. c = main\<lparr>cf_routes := cf_routes c,
                 cf_acme := Some (acme\<lparr>acme_domains := acme_domains acme @ added\<rparr>)\<rparr> \<and>
             set (acme_domains acme @ added)
               = set (acme_domains acme) \<union> set (List.map_filter tls_domain sites) \<and>
             (distinct (acme_domains acme) \<longrightarrow> distinct (acme_domains acme @ added)))"
proof -
  obtain body main rs ds where m: "le_main env = Inr body" "from_toml (le_parse_config env) body = Inr main"
    "load_sites env (site_files (le_sites env)) [] [] = Inr (rs, ds)"
    using assms by (auto simp: load_def split: sum.splits prod.splits)
  obtain sites where sites: "list_all2 (\<lambda>path site. read_site env path = Inr site)
      (site_files (le_sites env)) sites" "rs = List.map_filter to_route sites"
      "ds = List.map_filter tls_domain sites"
    using m(3) by (rule load_sites_Inr)
  show ?thesis
  proof (cases "cf_acme main")
    case None
    with assms m have "c = main\<lparr>cf_routes := rs @ cf_routes main\<rparr>" by (simp add: load_def Let_def)
    with None m sites show ?thesis by auto
  next
    case (Some acme)
    obtain added where a: "merge_domains (acme_domains acme) ds = acme_domains acme @ added"
      using merge_domains_prefix by blast
    have "c = main\<lparr>cf_routes := rs @ cf_routes main,
        cf_acme := Some (acme\<lparr>acme_domains := acme_domains acme @ added\<rparr>)\<rparr>"
      using assms m Some a by (simp add: load_def Let_def)
    with Some m sites set_merge_domains [of "acme_domains acme" ds]
      distinct_merge_domains [of "acme_domains acme" ds] a
    show ?thesis by (intro exI [of _ body] exI [of _ main] exI [of _ sites]) auto
  qed
qed

definition app_site :: site_config where
  "app_site = \<lparr>st_domain = ''app.io'', st_root = ''/srv/app'', st_kind = App, st_tls = Auto,
     st_app = Some ''127.0.0.1:3000'', st_php_fpm = None, st_enabled = True\<rparr>"

definition app_env :: "unit load_env" where
  "app_env = \<lparr>le_main = Inr ''main'', le_sites = Some [''b.toml'', ''a.txt''], le_read_site = (\<lambda>_. Inr ''app''),
     le_parse_config = (\<lambda>_. Inr http_only), le_parse_site = (\<lambda>_. Inr app_site)\<rparr>"

definition app_config :: config where
  "app_config = http_only\<lparr>cf_routes := \<lparr>rcf_host = Some ''app.io'', rcf_path = None,
     rcf_upstream = [''127.0.0.1:3000''], rcf_root = Some ''/srv/app'', rcf_tls = False,
     rcf_strip_prefix = False, rcf_request_headers = [], rcf_response_headers = [], rcf_grpc = False,
     rcf_plugins = []\<rparr> # cf_routes http_only\<rparr>"

lemma load_app_env: "load app_env = Inr app_config"
proof -
  have files: "site_files (Some [''b.toml'', ''a.txt'']) = [''b.toml'']" by code_simp
  have "from_toml (\<lambda>_. Inr http_only :: unit + config) ''main'' = Inr http_only"
    by (simp add: from_toml_def http_only_valid)
  moreover have "cf_acme http_only = None" by (simp add: http_only_def)
  ultimately show ?thesis
    by (simp add: load_def app_env_def files read_site_def to_route_def app_site_def tls_domain_def
        app_config_def)
qed

theorem load_merges_sites_witness:
  "\<exists>sites. list_all2 (\<lambda>path site. read_site app_env path = Inr site) (site_files (le_sites app_env)) sites
     \<and> length (cf_routes app_config) = length (List.map_filter to_route sites) + 1"
proof -
  obtain main sites where
    m: "from_toml (le_parse_config app_env) ''main'' = Inr main"
       "list_all2 (\<lambda>path site. read_site app_env path = Inr site) (site_files (le_sites app_env)) sites"
       "cf_routes app_config = List.map_filter to_route sites @ cf_routes main"
    using load_merges_sites [OF load_app_env] by (auto simp: app_env_def)
  have "main = http_only" using m(1) by (simp add: app_env_def from_toml_def http_only_valid)
  with m show ?thesis by (intro exI [of _ sites]) (simp add: http_only_def)
qed

text \<open>
  Validation runs on the main file only: the route of an \<open>app\<close> site has an upstream and a root, which
  validation rejects, and is loaded all the same.
\<close>

theorem loaded_sites_not_validated:
  "load app_env = Inr app_config \<and>
   validate app_config = Inl (Invalid ''route 0: cannot set both upstream and root'')"
proof -
  have "route_msg 0 ''cannot set both upstream and root'' = ''route 0: cannot set both upstream and root''"
    by code_simp
  then show ?thesis
    by (simp add: load_app_env validate_def app_config_def http_only_def validate_acme_def
        validate_limits_def validate_route_def reject_if_def on_some_def)
qed

end
