(* ===== verification/Plugins.thy ===== *)
theory Plugins
  imports Router Config CachePolicy
begin

section \<open>Upstream requests and plugins: \<^verbatim>\<open>zaphyl/src/upstream.rs\<close>, \<^verbatim>\<open>zaphyl/src/plugins.rs\<close>,
  \<^verbatim>\<open>zaphyl-plugin/src/lib.rs\<close>\<close>

text \<open>
  The two buffered requests to an upstream (revalidation and plugin forwarding) and the plugin
  chains.  The HTTP client is a function from the request to the response, absent when the request
  cannot be built or sent or times out; a header value is absent where it is not visible ASCII, a
  body where reading it fails.  A plugin is what its two hooks answer, absent when it traps: every
  call runs in a fresh store, so a plugin keeps no state.
\<close>

subsection \<open>\<^verbatim>\<open>upstream.rs\<close>\<close>

record client_request =
  cq_method :: string
  cq_uri :: string
  cq_headers :: headers
  cq_body :: bytes

record upstream_response =
  ur_status :: nat
  ur_headers :: "(string \<times> string option) list"
  ur_body :: "bytes option"

type_synonym client = "client_request \<Rightarrow> upstream_response option"

definition is_skipped_header :: "string \<Rightarrow> bool" where
  "is_skipped_header name =
     (to_ascii_lowercase name \<in> set [''connection'', ''keep-alive'', ''proxy-connection'',
        ''transfer-encoding'', ''upgrade'', ''content-length''])"

definition kept_headers :: "(string \<times> string option) list \<Rightarrow> headers" where
  "kept_headers hs =
     List.map_filter (\<lambda>(name, v). map_option (Pair name) v)
       (filter (\<lambda>(name, _). \<not> is_skipped_header name) hs)"

datatype revalidated = NotModified | Modified nat headers bytes | Failed

definition upstream_uri :: "target \<Rightarrow> string \<Rightarrow> string" where
  "upstream_uri target path_and_query =
     (if t_tls target then ''https'' else ''http'') @ ''://'' @ t_address target @ path_and_query"

definition revalidate :: "client \<Rightarrow> target \<Rightarrow> string \<Rightarrow> string \<Rightarrow> string \<Rightarrow> nat \<Rightarrow> revalidated" where
  "revalidate client target path_and_query host etag_val max_body =
     (case client \<lparr>cq_method = ''GET'', cq_uri = upstream_uri target path_and_query,
             cq_headers = [(''host'', host), (''if-none-match'', etag_val)], cq_body = []\<rparr> of
        None \<Rightarrow> Failed
      | Some response \<Rightarrow>
          if ur_status response = 304 then NotModified
          else if ur_status response = 200
          then (case ur_body response of
                  None \<Rightarrow> Failed
                | Some body \<Rightarrow>
                    if max_body < length body then Failed
                    else Modified 200 (kept_headers (ur_headers response)) body)
          else Failed)"

definition fetch :: "client \<Rightarrow> target \<Rightarrow> string \<Rightarrow> string \<Rightarrow> string \<Rightarrow> headers \<Rightarrow> bytes \<Rightarrow> nat
    \<Rightarrow> (nat \<times> headers \<times> bytes) option" where
  "fetch client target meth path_and_query host hs body max_body =
     (case client \<lparr>cq_method = meth, cq_uri = upstream_uri target path_and_query,
             cq_headers = (''host'', host) #
               filter (\<lambda>(name, _). \<not> eq_ignore_ascii_case name ''host'') hs, cq_body = body\<rparr> of
        None \<Rightarrow> None
      | Some response \<Rightarrow>
          (case ur_body response of
             None \<Rightarrow> None
           | Some bs \<Rightarrow>
               if max_body < length bs then None
               else Some (ur_status response, kept_headers (ur_headers response), bs)))"

subsection \<open>Plugin chains (\<^verbatim>\<open>zaphyl-plugin\<close>)\<close>

record plugin_request =
  pq_method :: string
  pq_path :: string
  pq_headers :: headers
  pq_body :: bytes
  pq_client_ip :: string

record plugin_response =
  pr_status :: nat
  pr_headers :: headers
  pr_body :: bytes

datatype action = ContinueWith plugin_request | RespondWith plugin_response
datatype chain_outcome = ChainContinue plugin_request | ChainRespond plugin_response

record plugin =
  pg_name :: string
  pg_handle_request :: "plugin_request \<Rightarrow> action option"
  pg_handle_response :: "plugin_response \<Rightarrow> plugin_response option"

fun chain_handle_request :: "plugin list \<Rightarrow> plugin_request \<Rightarrow> chain_outcome option" where
  "chain_handle_request [] request = Some (ChainContinue request)"
| "chain_handle_request (p # ps) request =
     (case pg_handle_request p request of
        None \<Rightarrow> None
      | Some (ContinueWith modified) \<Rightarrow> chain_handle_request ps modified
      | Some (RespondWith response) \<Rightarrow> Some (ChainRespond response))"

fun response_loop :: "plugin list \<Rightarrow> plugin_response \<Rightarrow> plugin_response option" where
  "response_loop [] response = Some response"
| "response_loop (p # ps) response =
     (case pg_handle_response p response of None \<Rightarrow> None | Some response \<Rightarrow> response_loop ps response)"

definition chain_handle_response :: "plugin list \<Rightarrow> plugin_response \<Rightarrow> plugin_response option" where
  "chain_handle_response ps response = response_loop (rev ps) response"

subsection \<open>Wiring (\<^verbatim>\<open>plugins.rs\<close>)\<close>

record plugins =
  ps_chains :: "plugin list list"
  ps_max_body :: nat

fun load_all :: "(string \<Rightarrow> plugin option) \<Rightarrow> string list \<Rightarrow> plugin list option" where
  "load_all ld [] = Some []"
| "load_all ld (path # paths) =
     (case ld path of
        None \<Rightarrow> None
      | Some p \<Rightarrow> (case load_all ld paths of None \<Rightarrow> None | Some ps \<Rightarrow> Some (p # ps)))"

fun build_chains :: "(string \<Rightarrow> plugin option) \<Rightarrow> plugin list \<Rightarrow> route_config list \<Rightarrow> plugin list list option" where
  "build_chains ld global [] = Some []"
| "build_chains ld global (route # routes) =
     (case load_all ld (rcf_plugins route) of
        None \<Rightarrow> None
      | Some own \<Rightarrow>
          (case build_chains ld global routes of
             None \<Rightarrow> None
           | Some chs \<Rightarrow> Some ((global @ own) # chs)))"

text \<open>The outer option is the error of \<open>build\<close>; \<open>host_ok\<close> is whether the Wasmtime host starts.\<close>

definition plugins_build :: "bool \<Rightarrow> (string \<Rightarrow> plugin option) \<Rightarrow> config \<Rightarrow> plugins option option" where
  "plugins_build host_ok ld c =
     (let has_global = (case cf_plugins c of None \<Rightarrow> False | Some p \<Rightarrow> pl_global p \<noteq> []);
          has_route = list_ex (\<lambda>r. rcf_plugins r \<noteq> []) (cf_routes c)
      in if \<not> has_global \<and> \<not> has_route then Some None
         else if \<not> host_ok then None
         else case load_all ld (case cf_plugins c of None \<Rightarrow> [] | Some p \<Rightarrow> pl_global p) of
                None \<Rightarrow> None
              | Some global \<Rightarrow>
                  (case build_chains ld global (cf_routes c) of
                     None \<Rightarrow> None
                   | Some chs \<Rightarrow>
                       Some (Some \<lparr>ps_chains = chs,
                         ps_max_body = (case cf_plugins c of None \<Rightarrow> 1024 * 1024 | Some p \<Rightarrow> pl_max_body p)\<rparr>)))"

definition plugin_chain :: "plugins \<Rightarrow> nat \<Rightarrow> plugin list option" where
  "plugin_chain ps route_id =
     (if route_id < length (ps_chains ps)
      then (let chain = ps_chains ps ! route_id in if chain = [] then None else Some chain)
      else None)"

definition plugins_run :: "plugins \<Rightarrow> client \<Rightarrow> plugin list \<Rightarrow> plugin_request \<Rightarrow> string \<Rightarrow> target
    \<Rightarrow> plugin_response option" where
  "plugins_run ps client chain request host target =
     (case chain_handle_request chain request of
        None \<Rightarrow> None
      | Some (ChainRespond response) \<Rightarrow> Some response
      | Some (ChainContinue request) \<Rightarrow>
          (case fetch client target (pq_method request) (pq_path request) host (pq_headers request)
                  (pq_body request) (ps_max_body ps) of
             None \<Rightarrow> None
           | Some (status, hs, body) \<Rightarrow>
               chain_handle_response chain \<lparr>pr_status = status, pr_headers = hs, pr_body = body\<rparr>))"

subsection \<open>Lemmas and properties\<close>

lemma chain_request_append:
  "chain_handle_request (ps @ qs) request =
     (case chain_handle_request ps request of
        Some (ChainContinue request) \<Rightarrow> chain_handle_request qs request
      | other \<Rightarrow> other)"
  by (induction ps arbitrary: request) (auto split: option.splits action.splits)

lemma response_loop_append:
  "response_loop (ps @ qs) response =
     (case response_loop ps response of None \<Rightarrow> None | Some response \<Rightarrow> response_loop qs response)"
  by (induction ps arbitrary: response) (auto split: option.splits)

lemma chain_response_append:
  "chain_handle_response (ps @ qs) response =
     (case chain_handle_response qs response of None \<Rightarrow> None | Some response \<Rightarrow> chain_handle_response ps response)"
  by (cases "response_loop (rev qs) response") (simp_all add: chain_handle_response_def response_loop_append)

text \<open>
  Middleware: a plugin around the rest of the handler, which answers a request or fails.
\<close>

definition wrap :: "plugin \<Rightarrow> (plugin_request \<Rightarrow> (bool \<times> plugin_response) option)
    \<Rightarrow> plugin_request \<Rightarrow> (bool \<times> plugin_response) option" where
  "wrap p next_handler request =
     (case pg_handle_request p request of
        None \<Rightarrow> None
      | Some (RespondWith response) \<Rightarrow> Some (False, response)
      | Some (ContinueWith request) \<Rightarrow>
          (case next_handler request of
             Some (True, response) \<Rightarrow> map_option (Pair True) (pg_handle_response p response)
           | other \<Rightarrow> other))"

text \<open>The upstream as the innermost handler; the flag says that it was reached.\<close>

definition upstream_handler :: "plugins \<Rightarrow> client \<Rightarrow> string \<Rightarrow> target \<Rightarrow> plugin_request
    \<Rightarrow> (bool \<times> plugin_response) option" where
  "upstream_handler ps client host target request =
     map_option (\<lambda>(status, hs, body). (True, \<lparr>pr_status = status, pr_headers = hs, pr_body = body\<rparr>))
       (fetch client target (pq_method request) (pq_path request) host (pq_headers request)
          (pq_body request) (ps_max_body ps))"

lemma foldr_wrap_upstream:
  "foldr wrap chain h request =
     (case chain_handle_request chain request of
        None \<Rightarrow> None
      | Some (ChainRespond response) \<Rightarrow> Some (False, response)
      | Some (ChainContinue request) \<Rightarrow>
          (case h request of
             Some (True, response) \<Rightarrow> map_option (Pair True) (chain_handle_response chain response)
           | other \<Rightarrow> other))"
proof (induction chain arbitrary: request)
  case Nil
  then show ?case by (auto simp: chain_handle_response_def split: option.split bool.split)
next
  case (Cons p ps)
  have rsp: "chain_handle_response (p # ps) r =
      (case chain_handle_response ps r of None \<Rightarrow> None | Some r \<Rightarrow> pg_handle_response p r)" for r
    using chain_response_append [of "[p]" ps r]
    by (auto simp: chain_handle_response_def split: option.splits)
  show ?case
  proof (cases "pg_handle_request p request")
    case (Some act)
    show ?thesis
    proof (cases act)
      case (ContinueWith request')
      show ?thesis
        using Some ContinueWith rsp
        by (simp add: wrap_def [of p] Cons.IH option.map_comp comp_def
            split: option.split chain_outcome.split bool.split prod.split)
    qed (use Some in \<open>simp add: wrap_def [of p]\<close>)
  qed (simp add: wrap_def [of p])
qed

text \<open>
  C28. Running a chain is middleware nesting: each plugin, in order, wraps the rest, and the
  innermost handler is the upstream.  So requests pass the global plugins before the route's own,
  responses pass them in the reverse order, and a plugin that answers itself keeps the upstream
  and every response hook out of it.
\<close>

theorem plugins_run_is_middleware:
  "plugins_run ps client chain request host target =
     map_option snd (foldr wrap chain (upstream_handler ps client host target) request)"
  unfolding foldr_wrap_upstream plugins_run_def upstream_handler_def
  by (auto simp: option.map_comp comp_def option.map_ident split: option.split chain_outcome.split)

lemma build_chains_nth:
  "build_chains ld global routes = Some chs \<Longrightarrow> i < length routes \<Longrightarrow>
     i < length chs \<and> (\<exists>own. load_all ld (rcf_plugins (routes ! i)) = Some own \<and> chs ! i = global @ own)"
proof (induction routes arbitrary: i chs)
  case (Cons r rs)
  then show ?case by (cases i) (auto split: option.splits)
qed simp

lemma kept_headers_not_skipped: "h \<in> set (kept_headers hs) \<Longrightarrow> \<not> is_skipped_header (fst h)"
  by (auto simp: kept_headers_def map_filter_def split: option.splits)

text \<open>
  What an upstream can put into a buffered response is bounded: the body never exceeds the
  limit and no hop-by-hop or length header gets through, for plugin routes and for revalidation.
\<close>

theorem buffered_response_clean:
  "(case fetch client target meth pq host hs body max_body of
      None \<Rightarrow> True
    | Some (status, kept, bs) \<Rightarrow> length bs \<le> max_body \<and> list_all (\<lambda>h. \<not> is_skipped_header (fst h)) kept) \<and>
   (case revalidate client target pq host et max_body of
      Modified status kept bs \<Rightarrow>
        status = 200 \<and> length bs \<le> max_body \<and> list_all (\<lambda>h. \<not> is_skipped_header (fst h)) kept
    | _ \<Rightarrow> True)"
  using kept_headers_not_skipped
  by (auto simp: fetch_def revalidate_def list_all_iff split: option.splits if_splits)

end
