(* ===== verification/PluginHost.thy ===== *)
theory PluginHost
  imports Plugins
begin

section \<open>The plugin host: \<^verbatim>\<open>crates/zaphyl-plugin/src/lib.rs\<close>\<close>

text \<open>
  The types of the \<^verbatim>\<open>zaphyl:proxy/filter\<close> interface (\<^verbatim>\<open>wit/\<close>), their conversion to and from the host's
  types, and a plugin's hooks as the host calls them: each in a fresh store with a deadline and a
  memory bound.  Wasmtime is the component: whether it instantiates in a store, and what its exported
  functions return there.
\<close>

subsection \<open>The interface's types\<close>

record wit_request =
  wq_method :: string
  wq_path :: string
  wq_headers :: headers
  wq_body :: bytes
  wq_client_ip :: string

record wit_response =
  ws_status :: nat
  ws_headers :: headers
  ws_body :: bytes

datatype wit_action = WitContinue wit_request | WitRespond wit_response

definition to_wit_request :: "plugin_request \<Rightarrow> wit_request" where
  "to_wit_request r = \<lparr>wq_method = pq_method r, wq_path = pq_path r, wq_headers = pq_headers r,
     wq_body = pq_body r, wq_client_ip = pq_client_ip r\<rparr>"

definition from_wit_request :: "wit_request \<Rightarrow> plugin_request" where
  "from_wit_request r = \<lparr>pq_method = wq_method r, pq_path = wq_path r, pq_headers = wq_headers r,
     pq_body = wq_body r, pq_client_ip = wq_client_ip r\<rparr>"

definition to_wit_response :: "plugin_response \<Rightarrow> wit_response" where
  "to_wit_response r = \<lparr>ws_status = pr_status r, ws_headers = pr_headers r, ws_body = pr_body r\<rparr>"

definition from_wit_response :: "wit_response \<Rightarrow> plugin_response" where
  "from_wit_response r = \<lparr>pr_status = ws_status r, pr_headers = ws_headers r, pr_body = ws_body r\<rparr>"

fun from_wit_action :: "wit_action \<Rightarrow> action" where
  "from_wit_action (WitContinue request) = ContinueWith (from_wit_request request)"
| "from_wit_action (WitRespond response) = RespondWith (from_wit_response response)"

named_theorems wit_simps \<open>conversions across the interface\<close>

lemma wit_round_trips [wit_simps]:
  "from_wit_request (to_wit_request r) = r" "to_wit_request (from_wit_request q) = q"
  "from_wit_response (to_wit_response s) = s" "to_wit_response (from_wit_response t) = t"
  by (simp_all add: from_wit_request_def to_wit_request_def from_wit_response_def to_wit_response_def)

subsection \<open>Stores and plugins\<close>

definition epoch_tick_ms :: nat where
  "epoch_tick_ms = 10"

definition execution_deadline_ticks :: nat where
  "execution_deadline_ticks = 100"

definition max_memory_bytes :: nat where
  "max_memory_bytes = 64 * 1024 * 1024"

text \<open>A store: what the WASI context grants, the memory bound and the epochs it may run.\<close>

record store =
  so_grants :: "string list"
  so_memory_size :: nat
  so_epoch_deadline :: nat

definition sandboxed :: store where
  "sandboxed = \<lparr>so_grants = [], so_memory_size = max_memory_bytes, so_epoch_deadline = 0\<rparr>"

definition new_store :: store where
  "new_store = sandboxed\<lparr>so_epoch_deadline := execution_deadline_ticks\<rparr>"

record component =
  co_instantiates :: "store \<Rightarrow> bool"
  co_handle_request :: "store \<Rightarrow> wit_request \<Rightarrow> wit_action option"
  co_handle_response :: "store \<Rightarrow> wit_response \<Rightarrow> wit_response option"

definition hook_request :: "component \<Rightarrow> plugin_request \<Rightarrow> action option" where
  "hook_request p request =
     (let store = new_store
      in if \<not> co_instantiates p store then None
         else map_option from_wit_action (co_handle_request p store (to_wit_request request)))"

definition hook_response :: "component \<Rightarrow> plugin_response \<Rightarrow> plugin_response option" where
  "hook_response p response =
     (let store = new_store
      in if \<not> co_instantiates p store then None
         else map_option from_wit_response (co_handle_response p store (to_wit_response response)))"

text \<open>A compiled plugin, \<open>None\<close> where the file is no component.\<close>

definition host_load :: "(string \<Rightarrow> component option) \<Rightarrow> string \<Rightarrow> string \<Rightarrow> plugin option" where
  "host_load compile name path =
     map_option (\<lambda>p. \<lparr>pg_name = name, pg_handle_request = hook_request p, pg_handle_response = hook_response p\<rparr>)
       (compile path)"

subsection \<open>The chain over the interface\<close>

text \<open>The chain as the plugins see it: interface values passed on from plugin to plugin.\<close>

datatype wit_outcome = WitForward wit_request | WitAnswer wit_response

fun wit_chain_request :: "component list \<Rightarrow> wit_request \<Rightarrow> wit_outcome option" where
  "wit_chain_request [] q = Some (WitForward q)"
| "wit_chain_request (p # ps) q =
     (if \<not> co_instantiates p new_store then None
      else case co_handle_request p new_store q of
             None \<Rightarrow> None
           | Some (WitContinue q) \<Rightarrow> wit_chain_request ps q
           | Some (WitRespond s) \<Rightarrow> Some (WitAnswer s))"

fun wit_chain_response :: "component list \<Rightarrow> wit_response \<Rightarrow> wit_response option" where
  "wit_chain_response [] s = Some s"
| "wit_chain_response (p # ps) s =
     (case wit_chain_response ps s of
        None \<Rightarrow> None
      | Some s \<Rightarrow> if \<not> co_instantiates p new_store then None else co_handle_response p new_store s)"

fun from_wit_outcome :: "wit_outcome \<Rightarrow> chain_outcome" where
  "from_wit_outcome (WitForward q) = ChainContinue (from_wit_request q)"
| "from_wit_outcome (WitAnswer s) = ChainRespond (from_wit_response s)"

definition loaded_plugins :: "component list \<Rightarrow> plugin list" where
  "loaded_plugins ps =
     map (\<lambda>p. \<lparr>pg_name = [], pg_handle_request = hook_request p, pg_handle_response = hook_response p\<rparr>) ps"

text \<open>
  The host's chain refines the chain over the interface: converting at every plugin's boundary loses nothing,
  so the outcome is that of passing the interface values from plugin to plugin directly, each call in
  a store that grants nothing, holds at most 64 MiB and runs at most 100 ticks.
\<close>

theorem host_chain_refines_interface:
  "chain_handle_request (loaded_plugins ps) (from_wit_request q) = map_option from_wit_outcome (wit_chain_request ps q)"
  "chain_handle_response (loaded_plugins ps) (from_wit_response s) = map_option from_wit_response (wit_chain_response ps s)"
proof -
  show "chain_handle_request (loaded_plugins ps) (from_wit_request q)
      = map_option from_wit_outcome (wit_chain_request ps q)"
    by (induction ps arbitrary: q)
      (auto simp: loaded_plugins_def hook_request_def wit_simps Let_def split: option.split wit_action.split)
  show "chain_handle_response (loaded_plugins ps) (from_wit_response s)
      = map_option from_wit_response (wit_chain_response ps s)"
    unfolding chain_handle_response_def
    by (induction ps)
      (auto simp: loaded_plugins_def hook_response_def wit_simps Let_def response_loop_append split: option.split)
qed

subsection \<open>The engine's clock\<close>

text \<open>
  A host that was set up interrupts by epochs; its thread bumps the epoch after every sleep of \<open>EPOCH_TICK\<close>.
  Wasmtime lets guest code look at the epoch at function entries and loop heads, and traps there once the
  store's deadline, counted from when it was set, is reached.
\<close>

record plugin_host =
  ph_component_model :: bool
  ph_epoch_interruption :: bool

definition plugin_host_new :: "bool \<Rightarrow> bool \<Rightarrow> plugin_host option" where
  "plugin_host_new engine_ok linker_ok =
     (let config = \<lparr>ph_component_model = True, ph_epoch_interruption = True\<rparr>
      in if \<not> engine_ok then None
         else if \<not> linker_ok then None
         else Some config)"

datatype call_event = EpochTick | GuestCheck | GuestReturn

datatype call_state = CallRunning | CallInterrupted | CallReturned

fun call_run :: "plugin_host \<Rightarrow> store \<Rightarrow> nat \<Rightarrow> call_event list \<Rightarrow> call_state" where
  "call_run h s epochs [] = CallRunning"
| "call_run h s epochs (EpochTick # es) = call_run h s (Suc epochs) es"
| "call_run h s epochs (GuestCheck # es) =
     (if ph_epoch_interruption h \<and> so_epoch_deadline s \<le> epochs then CallInterrupted else call_run h s epochs es)"
| "call_run h s epochs (GuestReturn # es) = CallReturned"

lemma call_run_append:
  "call_run h s n (es @ es') =
     (if call_run h s n es = CallRunning then call_run h s (n + count_list es EpochTick) es' else call_run h s n es)"
  by (induction h s n es rule: call_run.induct) auto

text \<open>
  A runaway call ends: in a store of the host, whatever the guest does, it has returned or is interrupted at the first
  look at the epoch after 100 ticks, that is after about a second; and never before the 100th tick.
\<close>

lemma runaway_call_interrupted:
  assumes "plugin_host_new engine_ok linker_ok = Some h" and "execution_deadline_ticks \<le> count_list es EpochTick"
  shows "call_run h new_store 0 (es @ GuestCheck # es') \<noteq> CallRunning"
  using assms by (auto simp: call_run_append plugin_host_new_def new_store_def Let_def split: if_splits)

lemma no_early_interrupt:
  "n + count_list es EpochTick < so_epoch_deadline s \<Longrightarrow> call_run h s n es \<noteq> CallInterrupted"
  by (induction h s n es rule: call_run.induct) (auto split: if_splits)

text \<open>A call is bounded by about a second: its deadline in ticks of the epoch.\<close>

lemma call_time_bound: "so_epoch_deadline new_store * epoch_tick_ms = 1000"
  by (simp add: new_store_def execution_deadline_ticks_def epoch_tick_ms_def)

subsection \<open>The sample plugin: \<^verbatim>\<open>test-plugins/filter/src/lib.rs\<close>\<close>

text \<open>
  The plugin that the repository builds against the interface, as a component: a call of it returns, or
  diverges, which the host ends at the deadline.
\<close>

datatype 'a guest = Returns 'a | Diverges

definition filter_handle_request :: "wit_request \<Rightarrow> wit_action guest" where
  "filter_handle_request req =
     (if wq_path req = ''/loop'' then Diverges
      else if wq_path req = ''/blocked''
      then Returns (WitRespond \<lparr>ws_status = 403, ws_headers = [(''content-type'', ''text/plain'')],
                                ws_body = ''blocked by plugin''\<rparr>)
      else Returns (WitContinue req))"

definition filter_handle_response :: "wit_response \<Rightarrow> wit_response guest" where
  "filter_handle_response resp = Returns (resp\<lparr>ws_headers := ws_headers resp @ [(''x-plugin'', ''ran'')]\<rparr>)"

fun hosted_call :: "'a guest \<Rightarrow> 'a option" where
  "hosted_call (Returns x) = Some x"
| "hosted_call Diverges = None"

definition sample_filter :: component where
  "sample_filter = \<lparr>co_instantiates = (\<lambda>_. True), co_handle_request = (\<lambda>_ req. hosted_call (filter_handle_request req)),
     co_handle_response = (\<lambda>_ resp. hosted_call (filter_handle_response resp))\<rparr>"

text \<open>
  What the sample plugin does to a route: the blocked path is answered without the upstream, the looping one ends as
  a plugin error, and every other response of the upstream is tagged.
\<close>

lemma sample_filter_route:
  assumes "host_load compile name path = Some p" and "compile path = Some sample_filter"
  shows "plugins_run ps client [p] request host target =
     (if pq_path request = ''/loop'' then None
      else if pq_path request = ''/blocked''
      then Some \<lparr>pr_status = 403, pr_headers = [(''content-type'', ''text/plain'')], pr_body = ''blocked by plugin''\<rparr>
      else case fetch client target (pq_method request) (pq_path request) host (pq_headers request) (pq_body request)
                  (ps_max_body ps) of
             None \<Rightarrow> None
           | Some (status, hs, body) \<Rightarrow>
               Some \<lparr>pr_status = status, pr_headers = hs @ [(''x-plugin'', ''ran'')], pr_body = body\<rparr>)"
proof -
  have p: "p = \<lparr>pg_name = name, pg_handle_request = hook_request sample_filter, pg_handle_response = hook_response sample_filter\<rparr>"
    using assms by (simp add: host_load_def)
  have req: "hook_request sample_filter r =
      (if pq_path r = ''/loop'' then None
       else if pq_path r = ''/blocked''
       then Some (RespondWith \<lparr>pr_status = 403, pr_headers = [(''content-type'', ''text/plain'')], pr_body = ''blocked by plugin''\<rparr>)
       else Some (ContinueWith r))" for r
    by (simp add: hook_request_def sample_filter_def filter_handle_request_def to_wit_request_def from_wit_request_def
        from_wit_response_def)
  have resp: "hook_response sample_filter s = Some (s\<lparr>pr_headers := pr_headers s @ [(''x-plugin'', ''ran'')]\<rparr>)" for s
    by (simp add: hook_response_def sample_filter_def filter_handle_response_def to_wit_response_def from_wit_response_def)
  show ?thesis
    by (simp add: plugins_run_def p req resp chain_handle_response_def split: option.split)
qed

end
