(* ===== verification/Challenge.thy ===== *)
theory Challenge
  imports Prelude
begin

section \<open>ACME challenges and the plain-HTTP front:
  \<^verbatim>\<open>zaphyl-core/src/acme.rs\<close>, \<^verbatim>\<open>zaphyl/src/http_front.rs\<close>\<close>

text \<open>
  The store of pending HTTP-01 challenges and the response function of the plain-HTTP listener.
  The store's lock makes each operation atomic, so the store is its map.  A request is what the
  \<open>http\<close> crate reports of it: the path, the path with the query where the target has one, and the
  Host header where it is visible ASCII.
\<close>

record http_response =
  rs_status :: nat
  rs_headers :: headers
  rs_body :: bytes

record front_request =
  fr_path :: string
  fr_path_and_query :: "string option"
  fr_host :: "string option"

subsection \<open>The challenge store\<close>

record challenge_store =
  tokens :: "string \<rightharpoonup> string"

definition well_known_prefix :: string where
  "well_known_prefix = ''/.well-known/acme-challenge/''"

definition challenge_new :: challenge_store where
  "challenge_new = \<lparr>tokens = Map.empty\<rparr>"

definition challenge_insert :: "challenge_store \<Rightarrow> string \<Rightarrow> string \<Rightarrow> challenge_store" where
  "challenge_insert s token key_authorization = s\<lparr>tokens := (tokens s)(token \<mapsto> key_authorization)\<rparr>"

definition challenge_remove :: "challenge_store \<Rightarrow> string \<Rightarrow> challenge_store" where
  "challenge_remove s token = s\<lparr>tokens := (tokens s)(token := None)\<rparr>"

definition response_for :: "challenge_store \<Rightarrow> string \<Rightarrow> string option" where
  "response_for s path =
     (case strip_prefix well_known_prefix path of
        None \<Rightarrow> None
      | Some token \<Rightarrow>
          if token = [] \<or> CHR ''/'' \<in> set token then None else tokens s token)"

subsection \<open>The contract of a keyed store\<close>

datatype ('k, 'v) store_op = Insert 'k 'v | Remove 'k

fun last_write :: "('k, 'v) store_op list \<Rightarrow> 'k \<Rightarrow> 'v option \<Rightarrow> 'v option" where
  "last_write [] k v = v"
| "last_write (Insert k' v' # ops) k v = last_write ops k (if k' = k then Some v' else v)"
| "last_write (Remove k' # ops) k v = last_write ops k (if k' = k then None else v)"

fun run_ops :: "('s \<Rightarrow> 'k \<Rightarrow> 'v \<Rightarrow> 's) \<Rightarrow> ('s \<Rightarrow> 'k \<Rightarrow> 's) \<Rightarrow> ('k, 'v) store_op list \<Rightarrow> 's \<Rightarrow> 's" where
  "run_ops ins rem [] s = s"
| "run_ops ins rem (Insert k v # ops) s = run_ops ins rem ops (ins s k v)"
| "run_ops ins rem (Remove k # ops) s = run_ops ins rem ops (rem s k)"

locale kv_store =
  fixes ins :: "'s \<Rightarrow> 'k \<Rightarrow> 'v \<Rightarrow> 's" and rem :: "'s \<Rightarrow> 'k \<Rightarrow> 's" and get :: "'s \<Rightarrow> 'k \<Rightarrow> 'v option"
  assumes get_ins: "get (ins s k v) k' = (if k = k' then Some v else get s k')"
    and get_rem: "get (rem s k) k' = (if k = k' then None else get s k')"
begin

lemma get_run_ops: "get (run_ops ins rem ops s) k = last_write ops k (get s k)"
proof (induction ops arbitrary: s)
  case (Cons x ops)
  then show ?case by (cases x) (simp_all add: get_ins get_rem)
qed simp

end

interpretation cs: kv_store challenge_insert challenge_remove tokens
  by unfold_locales (simp_all add: challenge_insert_def challenge_remove_def)

lemma response_for_iff:
  "response_for s path = Some body \<longleftrightarrow>
     (\<exists>token. path = well_known_prefix @ token \<and> token \<noteq> [] \<and> CHR ''/'' \<notin> set token \<and>
        tokens s token = Some body)"
  by (auto simp: response_for_def strip_prefix_Some_iff strip_prefix_None_iff split: option.splits)

text \<open>
  What the store serves: whatever sequence of registrations and removals ran, the answer for
  a path is the key authorization last registered for its token and not removed since, and only a
  single-segment, non-empty token under the well-known prefix is ever answered.
\<close>

theorem challenge_response_last_write:
  "response_for (run_ops challenge_insert challenge_remove ops challenge_new) path = Some body \<longleftrightarrow>
     (\<exists>token. path = well_known_prefix @ token \<and> token \<noteq> [] \<and> CHR ''/'' \<notin> set token \<and>
        last_write ops token None = Some body)"
  by (simp add: response_for_iff cs.get_run_ops) (simp add: challenge_new_def)

subsection \<open>The front's responses\<close>

datatype non_challenge = RedirectToHttps u16 | NotFound

definition redirect_to_https :: "front_request \<Rightarrow> u16 \<Rightarrow> http_response" where
  "redirect_to_https req https_port =
     (let host = (case fr_host req of None \<Rightarrow> [] | Some v \<Rightarrow> first_piece CHR '':'' v v);
          path_and_query = (case fr_path_and_query req of None \<Rightarrow> ''/'' | Some p \<Rightarrow> p);
          location = (if https_port = 443 then ''https://'' @ host @ path_and_query
                      else ''https://'' @ host @ '':'' @ show_nat (unat https_port) @ path_and_query)
      in \<lparr>rs_status = 308, rs_headers = [(''location'', location)], rs_body = []\<rparr>)"

definition front_respond :: "front_request \<Rightarrow> challenge_store \<Rightarrow> non_challenge \<Rightarrow> http_response" where
  "front_respond req store behavior =
     (case response_for store (fr_path req) of
        Some body \<Rightarrow>
          \<lparr>rs_status = 200, rs_headers = [(''content-type'', ''text/plain'')], rs_body = body\<rparr>
      | None \<Rightarrow>
          (case behavior of
             RedirectToHttps port \<Rightarrow> redirect_to_https req port
           | NotFound \<Rightarrow> \<lparr>rs_status = 404, rs_headers = [], rs_body = []\<rparr>))"

text \<open>The Host header values the redirect is written for: a name, or a name and a port.\<close>

definition host_header :: "string \<Rightarrow> string option \<Rightarrow> string" where
  "host_header name port = name @ (case port of None \<Rightarrow> [] | Some p \<Rightarrow> '':'' @ p)"

lemma takeWhile_stop: "d \<notin> set s \<Longrightarrow> takeWhile (\<lambda>c. c \<noteq> d) (s @ d # t) = s"
  by (induction s) auto

lemma first_piece_host: "CHR '':'' \<notin> set name \<Longrightarrow> first_piece CHR '':'' d (host_header name port) = name"
  by (cases port) (auto simp: first_piece_eq host_header_def takeWhile_stop takeWhile_eq_all_conv)

text \<open>
  A request that is not a pending challenge is redirected permanently to the same host (its
  port replaced by the HTTPS port, which is left out when it is 443) and the same path and query.
\<close>

theorem redirect_same_target:
  assumes "CHR '':'' \<notin> set name" and "fr_host req = Some (host_header name port)"
    and "fr_path_and_query req = Some pq" and "response_for store (fr_path req) = None"
  shows "front_respond req store (RedirectToHttps https_port) =
     \<lparr>rs_status = 308,
      rs_headers = [(''location'', ''https://''
        @ host_header name (if https_port = 443 then None else Some (show_nat (unat https_port))) @ pq)],
      rs_body = []\<rparr>"
  using assms(2-) first_piece_host [OF assms(1), of _ port]
  by (simp add: front_respond_def redirect_to_https_def Let_def) (simp add: host_header_def)

definition front_demo :: front_request where
  "front_demo = \<lparr>fr_path = ''/a'', fr_path_and_query = Some ''/a?q=1'', fr_host = Some ''x.io:80''\<rparr>"

theorem redirect_same_target_witness:
  "front_respond front_demo challenge_new (RedirectToHttps 443) =
     \<lparr>rs_status = 308, rs_headers = [(''location'', ''https://x.io/a?q=1'')], rs_body = []\<rparr>"
proof -
  have "response_for challenge_new (fr_path front_demo) = None" by code_simp
  then have "front_respond front_demo challenge_new (RedirectToHttps 443) =
     \<lparr>rs_status = 308,
      rs_headers = [(''location'', ''https://''
        @ host_header ''x.io'' (if (443 :: u16) = 443 then None else Some (show_nat (unat (443 :: u16))))
        @ ''/a?q=1'')],
      rs_body = []\<rparr>"
    by (intro redirect_same_target [of _ _ "Some ''80''"]) (simp_all add: front_demo_def host_header_def)
  then show ?thesis by (simp add: host_header_def)
qed

text \<open>
  An IPv6 literal in the Host header is cut at its first colon, so the redirect sends the
  client to a location without a valid host.
\<close>

theorem redirect_ipv6_host_truncated:
  "rs_headers (front_respond \<lparr>fr_path = ''/a'', fr_path_and_query = Some ''/a'',
       fr_host = Some ''[::1]:80''\<rparr> challenge_new (RedirectToHttps 443))
     = [(''location'', ''https://[/a'')]"
  by (simp add: front_respond_def redirect_to_https_def response_for_def well_known_prefix_def
      challenge_new_def first_piece_eq)

end
