(* ===== verification/Certificates.thy ===== *)
theory Certificates
  imports Config Challenge StaticFiles
begin

section \<open>Certificates: \<^verbatim>\<open>zaphyl/src/acme.rs\<close>, \<^verbatim>\<open>zaphyl/src/tls.rs\<close>, start-up in \<^verbatim>\<open>main.rs\<close>\<close>

text \<open>
  Obtaining, renewing and serving the listener's certificate.  The ACME client (\<open>instant_acme\<close>), the
  X.509 parser and BoringSSL are not part of the repository: what they answer is an input.  Files
  are values with a modification time; \<open>i64\<close> arithmetic saturates where the code says so.
\<close>

subsection \<open>Reloading on change (\<^verbatim>\<open>tls.rs\<close>)\<close>

text \<open>
  \<open>ReloadCache::get\<close>: the modification time of the watched file (absent when it cannot be read), the
  cached value, and what \<open>load\<close> would return; the new cache and the answer.
\<close>

type_synonym 'a reload = "(systime \<times> 'a) option"

definition reload_get :: "systime option \<Rightarrow> 'a option \<Rightarrow> 'a reload \<Rightarrow> 'a reload \<times> 'a option" where
  "reload_get mtime ld cached =
     (case mtime of
        None \<Rightarrow> (cached, None)
      | Some mtime \<Rightarrow>
          (case cached of
             Some (cached_mtime, v) \<Rightarrow>
               if cached_mtime = mtime then (cached, Some v)
               else (case ld of None \<Rightarrow> (cached, None) | Some v \<Rightarrow> (Some (mtime, v), Some v))
           | None \<Rightarrow> (case ld of None \<Rightarrow> (cached, None) | Some v \<Rightarrow> (Some (mtime, v), Some v))))"

text \<open>
  \<open>DynamicCert::current\<close> on the two files: \<open>parse_cert\<close> and \<open>parse_key\<close> stand for BoringSSL's PEM
  readers.
\<close>

record cert_files =
  cfl_cert :: "(systime \<times> bytes) option"
  cfl_key :: "bytes option"

record ('c, 'k) loaded =
  ld_leaf :: 'c
  ld_chain :: "'c list"
  ld_key :: 'k

definition load_pair :: "(bytes \<Rightarrow> 'c list option) \<Rightarrow> (bytes \<Rightarrow> 'k option) \<Rightarrow> cert_files \<Rightarrow> ('c, 'k) loaded option" where
  "load_pair parse_cert parse_key F =
     (case cfl_cert F of
        None \<Rightarrow> None
      | Some (_, cert_bytes) \<Rightarrow>
          (case parse_cert cert_bytes of
             None \<Rightarrow> None
           | Some [] \<Rightarrow> None
           | Some (leaf # certs) \<Rightarrow>
               (case cfl_key F of
                  None \<Rightarrow> None
                | Some key_bytes \<Rightarrow>
                    (case parse_key key_bytes of
                       None \<Rightarrow> None
                     | Some key \<Rightarrow> Some \<lparr>ld_leaf = leaf, ld_chain = certs, ld_key = key\<rparr>))))"

definition current :: "(bytes \<Rightarrow> 'c list option) \<Rightarrow> (bytes \<Rightarrow> 'k option) \<Rightarrow> cert_files
    \<Rightarrow> ('c, 'k) loaded reload \<Rightarrow> ('c, 'k) loaded reload \<times> ('c, 'k) loaded option" where
  "current parse_cert parse_key F cached =
     reload_get (map_option fst (cfl_cert F)) (load_pair parse_cert parse_key F) cached"

text \<open>
  \<open>DynamicCertResolver::current\<close> of the HTTP/3 listener: the same cache over rustls' readers, where
  \<open>sign\<close> makes the signing key.
\<close>

definition load_certified :: "(bytes \<Rightarrow> 'c list option) \<Rightarrow> (bytes \<Rightarrow> 'k option) \<Rightarrow> ('k \<Rightarrow> 's option) \<Rightarrow> cert_files
    \<Rightarrow> ('c list \<times> 's) option" where
  "load_certified load_certs load_key sign F =
     (case (case cfl_cert F of None \<Rightarrow> None | Some (_, cert_bytes) \<Rightarrow> load_certs cert_bytes) of
        None \<Rightarrow> None
      | Some certs \<Rightarrow>
          (case (case cfl_key F of None \<Rightarrow> None | Some key_bytes \<Rightarrow> load_key key_bytes) of
             None \<Rightarrow> None
           | Some key \<Rightarrow> map_option (Pair certs) (sign key)))"

definition resolver_current :: "(bytes \<Rightarrow> 'c list option) \<Rightarrow> (bytes \<Rightarrow> 'k option) \<Rightarrow> ('k \<Rightarrow> 's option) \<Rightarrow> cert_files
    \<Rightarrow> ('c list \<times> 's) reload \<Rightarrow> ('c list \<times> 's) reload \<times> ('c list \<times> 's) option" where
  "resolver_current load_certs load_key sign F cached =
     reload_get (map_option fst (cfl_cert F)) (load_certified load_certs load_key sign F) cached"

text \<open>
  The two listeners load the same pair from the files, given readers that agree and a key that can sign;
  a certificate file without certificates is a failure for one and an empty chain for the other.
\<close>

lemma load_certified_pair:
  assumes "\<And>key. sign key = Some key" and "\<And>b. load_certs b \<noteq> Some []"
  shows "load_certified load_certs load_key sign F
     = map_option (\<lambda>l. (ld_leaf l # ld_chain l, ld_key l)) (load_pair load_certs load_key F)"
  using assms(2)
  by (auto simp: load_certified_def load_pair_def assms(1) split: option.split list.split)

lemma empty_chain_differs:
  "load_certified (\<lambda>_. Some []) Some Some \<lparr>cfl_cert = Some (t, c), cfl_key = Some k\<rparr> = Some ([], k)"
  "load_pair (\<lambda>_. Some []) Some \<lparr>cfl_cert = Some (t, c), cfl_key = Some k\<rparr> = None"
  by (simp_all add: load_certified_def load_pair_def)

text \<open>The two writes of \<open>obtain\<close>, and handshakes, in any order.\<close>

datatype cert_op = WriteCert systime bytes | WriteKey bytes | Handshake

fun cert_run :: "(bytes \<Rightarrow> 'c list option) \<Rightarrow> (bytes \<Rightarrow> 'k option) \<Rightarrow> cert_op list \<Rightarrow> cert_files
    \<Rightarrow> ('c, 'k) loaded reload \<Rightarrow> ('c, 'k) loaded option list" where
  "cert_run pc pk [] F cached = []"
| "cert_run pc pk (WriteCert t bs # ops) F cached = cert_run pc pk ops (F\<lparr>cfl_cert := Some (t, bs)\<rparr>) cached"
| "cert_run pc pk (WriteKey bs # ops) F cached = cert_run pc pk ops (F\<lparr>cfl_key := Some bs\<rparr>) cached"
| "cert_run pc pk (Handshake # ops) F cached =
     (let (cached', ans) = current pc pk F cached in ans # cert_run pc pk ops F cached')"

text \<open>A cached value whose time is the file's is what the files hold.\<close>

definition coherent :: "(bytes \<Rightarrow> 'c list option) \<Rightarrow> (bytes \<Rightarrow> 'k option) \<Rightarrow> cert_files
    \<Rightarrow> ('c, 'k) loaded reload \<Rightarrow> bool" where
  "coherent pc pk F cached =
     (\<forall>t v. cached = Some (t, v) \<longrightarrow> map_option fst (cfl_cert F) = Some t \<longrightarrow> load_pair pc pk F = Some v)"

lemma current_coherent:
  assumes "coherent pc pk F cached"
  shows "snd (current pc pk F cached) = load_pair pc pk F"
    and "coherent pc pk F (fst (current pc pk F cached))"
  using assms
  by (auto simp: current_def reload_get_def coherent_def load_pair_def split: option.splits if_splits)

text \<open>The times of the cached value, and of the certificate writes to come.\<close>

definition times_of :: "cert_op list \<Rightarrow> systime list" where
  "times_of ops = List.map_filter (\<lambda>op. case op of WriteCert t _ \<Rightarrow> Some t | _ \<Rightarrow> None) ops"

text \<open>Renewals that no handshake interrupts, and what each handshake should then be served.\<close>

datatype quiet_op = Renew systime bytes bytes | Serve

fun quiet_ops :: "quiet_op list \<Rightarrow> cert_op list" where
  "quiet_ops [] = []"
| "quiet_ops (Renew t c k # ops) = WriteCert t c # WriteKey k # quiet_ops ops"
| "quiet_ops (Serve # ops) = Handshake # quiet_ops ops"

fun quiet_answers :: "(bytes \<Rightarrow> 'c list option) \<Rightarrow> (bytes \<Rightarrow> 'k option) \<Rightarrow> quiet_op list \<Rightarrow> cert_files
    \<Rightarrow> ('c, 'k) loaded option list" where
  "quiet_answers pc pk [] F = []"
| "quiet_answers pc pk (Renew t c k # ops) F =
     quiet_answers pc pk ops (F\<lparr>cfl_cert := Some (t, c), cfl_key := Some k\<rparr>)"
| "quiet_answers pc pk (Serve # ops) F = load_pair pc pk F # quiet_answers pc pk ops F"

definition cached_time :: "'a reload \<Rightarrow> systime set" where
  "cached_time cached = (case cached of None \<Rightarrow> {} | Some (t, _) \<Rightarrow> {t})"

lemma current_cached_time:
  "cached_time (fst (current pc pk F cached)) \<subseteq> cached_time cached \<union> set_option (map_option fst (cfl_cert F))"
  by (auto simp: current_def reload_get_def cached_time_def split: option.splits if_splits)

lemma quiet_run:
  assumes "coherent pc pk F cached"
    and "distinct (times_of (quiet_ops ops))"
    and "set (times_of (quiet_ops ops)) \<inter> (cached_time cached \<union> set_option (map_option fst (cfl_cert F))) = {}"
  shows "cert_run pc pk (quiet_ops ops) F cached = quiet_answers pc pk ops F"
  using assms
proof (induction ops arbitrary: F cached)
  case (Cons op ops)
  show ?case
  proof (cases op)
    case (Renew t c k)
    let ?F = "F\<lparr>cfl_cert := Some (t, c), cfl_key := Some k\<rparr>"
    have "coherent pc pk ?F cached"
      using Cons.prems(3) Renew
      by (auto simp: coherent_def cached_time_def times_of_def split: option.splits)
    moreover have "distinct (times_of (quiet_ops ops))" "t \<notin> set (times_of (quiet_ops ops))"
      using Cons.prems(2) Renew by (simp_all add: times_of_def)
    moreover have "set (times_of (quiet_ops ops)) \<inter> cached_time cached = {}"
      using Cons.prems(3) Renew by (auto simp: times_of_def)
    ultimately show ?thesis using Cons.IH [of ?F cached] Renew by auto
  next
    case Serve
    let ?c = "fst (current pc pk F cached)"
    have "set (times_of (quiet_ops ops)) \<inter> (cached_time ?c \<union> set_option (map_option fst (cfl_cert F))) = {}"
      using Cons.prems(3) Serve current_cached_time [of pc pk F cached] by (auto simp: times_of_def)
    then have "cert_run pc pk (quiet_ops ops) F ?c = quiet_answers pc pk ops F"
      using Cons.prems(2) Serve current_coherent(2) [OF Cons.prems(1)]
      by (intro Cons.IH) (simp_all add: times_of_def)
    with Serve current_coherent(1) [OF Cons.prems(1)] show ?thesis by (simp add: case_prod_unfold)
  qed
qed simp

text \<open>
  C35. When no handshake falls between the two writes of a renewal and every certificate write has
  a new modification time, each handshake is served exactly the pair that is on disk.
\<close>

theorem handshakes_serve_current_pair:
  assumes "distinct (times_of (quiet_ops ops))"
    and "set (times_of (quiet_ops ops)) \<inter> set_option (map_option fst (cfl_cert F)) = {}"
  shows "cert_run pc pk (quiet_ops ops) F None = quiet_answers pc pk ops F"
  using assms by (intro quiet_run) (simp_all add: coherent_def cached_time_def)

definition demo_files :: cert_files where
  "demo_files = \<lparr>cfl_cert = Some (SysTime 1, ''c1''), cfl_key = Some ''k1''\<rparr>"

theorem handshakes_serve_current_pair_witness:
  "cert_run (\<lambda>bs. Some [bs]) Some (quiet_ops [Serve, Renew (SysTime 2) ''c2'' ''k2'', Serve]) demo_files None
     = [Some \<lparr>ld_leaf = ''c1'', ld_chain = [], ld_key = ''k1''\<rparr>,
        Some \<lparr>ld_leaf = ''c2'', ld_chain = [], ld_key = ''k2''\<rparr>]"
proof -
  have "cert_run (\<lambda>bs. Some [bs]) Some (quiet_ops [Serve, Renew (SysTime 2) ''c2'' ''k2'', Serve]) demo_files None
     = quiet_answers (\<lambda>bs. Some [bs]) Some [Serve, Renew (SysTime 2) ''c2'' ''k2'', Serve] demo_files"
    by (rule handshakes_serve_current_pair) (simp_all add: times_of_def demo_files_def)
  then show ?thesis by (simp add: demo_files_def load_pair_def)
qed

text \<open>
  The cache watches the certificate file only: a handshake that falls between the write of a new
  certificate and the write of its key is served the new certificate with the old key, and so is
  every later handshake, until the certificate file changes again.
\<close>

theorem handshake_between_writes_sticks:
  "cert_run (\<lambda>bs. Some [bs]) Some
     ([WriteCert (SysTime 2) ''c2'', Handshake, WriteKey ''k2''] @ replicate n Handshake) demo_files None
     = replicate (Suc n) (Some \<lparr>ld_leaf = ''c2'', ld_chain = [], ld_key = ''k1''\<rparr>)"
proof -
  let ?v = "\<lparr>ld_leaf = ''c2'', ld_chain = [], ld_key = ''k1''\<rparr>"
  let ?F = "\<lparr>cfl_cert = Some (SysTime 2, ''c2''), cfl_key = Some ''k2''\<rparr>"
  have "current (\<lambda>bs. Some [bs]) Some ?F (Some (SysTime 2, ?v)) = (Some (SysTime 2, ?v), Some ?v)"
    by (simp add: current_def reload_get_def)
  then have "cert_run (\<lambda>bs. Some [bs]) Some (replicate n Handshake) ?F (Some (SysTime 2, ?v))
      = replicate n (Some ?v)"
    by (induction n) simp_all
  then show ?thesis
    by (simp add: demo_files_def current_def reload_get_def load_pair_def)
qed

subsection \<open>When to renew (\<^verbatim>\<open>acme.rs\<close>)\<close>

definition i64_max :: int where "i64_max = 2 ^ 63 - 1"
definition i64_min :: int where "i64_min = - (2 ^ 63)"

definition clamp_i64 :: "int \<Rightarrow> int" where
  "clamp_i64 x = (if x < i64_min then i64_min else if i64_max < x then i64_max else x)"

definition seconds_per_day :: int where
  "seconds_per_day = 86400"

text \<open>\<open>not_after\<close> is the parsed expiry of the certificate, if it can be parsed.\<close>

definition needs_renewal :: "int option \<Rightarrow> int \<Rightarrow> int \<Rightarrow> bool" where
  "needs_renewal not_after now_unix renew_before_secs =
     (case not_after of
        Some not_after \<Rightarrow> clamp_i64 (not_after - now_unix) < renew_before_secs
      | None \<Rightarrow> True)"

definition renewal_window :: "nat \<Rightarrow> int" where
  "renewal_window renew_before_days =
     clamp_i64 ((if int renew_before_days \<le> i64_max then int renew_before_days else i64_max) * seconds_per_day)"

lemma clamp_less_iff: "i64_min < b \<Longrightarrow> b \<le> i64_max \<Longrightarrow> clamp_i64 x < b \<longleftrightarrow> x < b"
  by (auto simp: clamp_i64_def)

lemma renewal_window_bounds: "0 \<le> renewal_window d \<and> renewal_window d \<le> i64_max"
  by (auto simp: renewal_window_def clamp_i64_def i64_min_def i64_max_def seconds_per_day_def)

text \<open>
  The renewal decision is exact although its arithmetic saturates: a readable certificate is
  renewed exactly when less than the configured number of days is left, for every configured
  number whose seconds fit 64 bits; an unreadable one always.
\<close>

theorem needs_renewal_exact:
  "needs_renewal None now (renewal_window days) \<and>
   (needs_renewal (Some not_after) now (renewal_window days) \<longleftrightarrow>
      not_after - now < min (int days * 86400) i64_max)"
proof -
  have "renewal_window days = min (int days * 86400) i64_max"
    by (auto simp: renewal_window_def clamp_i64_def seconds_per_day_def i64_max_def i64_min_def)
  moreover
  have "i64_min < renewal_window days" "renewal_window days \<le> i64_max"
    using renewal_window_bounds [of days] by (auto simp: i64_min_def)
  then have "clamp_i64 (not_after - now) < renewal_window days \<longleftrightarrow> not_after - now < renewal_window days"
    by (rule clamp_less_iff)
  ultimately show ?thesis unfolding needs_renewal_def by simp
qed

subsection \<open>Orders\<close>

text \<open>What the certificate authority answers, in the order the client asks.\<close>

datatype authz_status = AuthzValid | AuthzPending | AuthzOther

record authorization =
  az_status :: authz_status
  az_challenge :: "(string \<times> string) option"   \<comment> \<open>token and key authorization of the HTTP-01 challenge\<close>
  az_ready :: bool                              \<comment> \<open>\<open>set_ready\<close> succeeds\<close>

record ca_session =
  ca_account :: bool
  ca_order :: bool
  ca_authorizations :: "authorization option list"
  ca_order_ready :: bool
  ca_key :: "bytes option"
  ca_cert :: "bytes option"

fun authorize :: "authorization option list \<Rightarrow> challenge_store \<Rightarrow> challenge_store \<times> bool" where
  "authorize [] store = (store, True)"
| "authorize (None # as) store = (store, False)"
| "authorize (Some a # as) store =
     (case az_status a of
        AuthzValid \<Rightarrow> authorize as store
      | AuthzOther \<Rightarrow> (store, False)
      | AuthzPending \<Rightarrow>
          (case az_challenge a of
             None \<Rightarrow> (store, False)
           | Some (token, key_authorization) \<Rightarrow>
               (let store = challenge_insert store token key_authorization
                in if az_ready a then authorize as store else (store, False))))"

definition run_order :: "ca_session \<Rightarrow> challenge_store \<Rightarrow> challenge_store \<times> (bytes \<times> bytes) option" where
  "run_order ca store =
     (if \<not> ca_account ca then (store, None)
      else if \<not> ca_order ca then (store, None)
      else let (store, ok) = authorize (ca_authorizations ca) store
           in if \<not> ok then (store, None)
              else if \<not> ca_order_ready ca then (store, None)
              else case ca_key ca of
                     None \<Rightarrow> (store, None)
                   | Some key_pem \<Rightarrow>
                       (case ca_cert ca of
                          None \<Rightarrow> (store, None)
                        | Some cert_pem \<Rightarrow> (store, Some (cert_pem, key_pem))))"

record obtain_io =
  oi_cert :: write_outcome
  oi_key :: write_outcome
  oi_now :: systime

definition write_cert :: "write_outcome \<Rightarrow> systime \<Rightarrow> bytes \<Rightarrow> cert_files \<Rightarrow> cert_files \<times> bool" where
  "write_cert out t bs F =
     (case out of
        WriteOk \<Rightarrow> (F\<lparr>cfl_cert := Some (t, bs)\<rparr>, True)
      | CreateFails \<Rightarrow> (F, False)
      | WriteFailsAfter n \<Rightarrow> (F\<lparr>cfl_cert := Some (t, take n bs)\<rparr>, False))"

definition write_key :: "write_outcome \<Rightarrow> bytes \<Rightarrow> cert_files \<Rightarrow> cert_files \<times> bool" where
  "write_key out bs F =
     (case out of
        WriteOk \<Rightarrow> (F\<lparr>cfl_key := Some bs\<rparr>, True)
      | CreateFails \<Rightarrow> (F, False)
      | WriteFailsAfter n \<Rightarrow> (F\<lparr>cfl_key := Some (take n bs)\<rparr>, False))"

definition obtain_cert :: "ca_session \<Rightarrow> obtain_io \<Rightarrow> challenge_store \<Rightarrow> cert_files
    \<Rightarrow> challenge_store \<times> cert_files \<times> bool" where
  "obtain_cert ca io store F =
     (case run_order ca store of
        (store, None) \<Rightarrow> (store, F, False)
      | (store, Some (cert_pem, key_pem)) \<Rightarrow>
          (case write_cert (oi_cert io) (oi_now io) cert_pem F of
             (F, False) \<Rightarrow> (store, F, False)
           | (F, True) \<Rightarrow> (case write_key (oi_key io) key_pem F of (F, ok) \<Rightarrow> (store, F, ok))))"

definition acme_start :: "bool \<Rightarrow> ca_session \<Rightarrow> obtain_io \<Rightarrow> challenge_store \<Rightarrow> cert_files
    \<Rightarrow> challenge_store \<times> cert_files \<times> bool" where
  "acme_start mkdir_ok ca io store F =
     (if \<not> mkdir_ok then (store, F, False)
      else if \<not> (cfl_cert F \<noteq> None \<and> cfl_key F \<noteq> None) then obtain_cert ca io store F
      else (store, F, True))"

text \<open>One turn of the renewal loop; \<open>not_after\<close> reads a certificate's expiry.\<close>

definition renewal_turn :: "(bytes \<Rightarrow> int option) \<Rightarrow> nat \<Rightarrow> int \<Rightarrow> ca_session \<Rightarrow> obtain_io
    \<Rightarrow> challenge_store \<Rightarrow> cert_files \<Rightarrow> challenge_store \<times> cert_files" where
  "renewal_turn not_after days now_unix ca io store F =
     (let due = (case cfl_cert F of
                   Some (_, pem) \<Rightarrow> needs_renewal (not_after pem) now_unix (renewal_window days)
                 | None \<Rightarrow> True)
      in if \<not> due then (store, F)
         else case obtain_cert ca io store F of (store, F, _) \<Rightarrow> (store, F))"

text \<open>The challenges of the pending authorizations, in order.\<close>

definition pending_challenges :: "authorization option list \<Rightarrow> (string \<times> string) list" where
  "pending_challenges as =
     List.map_filter (\<lambda>a. case a of
        Some a \<Rightarrow> if az_status a = AuthzPending then az_challenge a else None
      | None \<Rightarrow> None) as"

lemma authorize_ok:
  "authorize as store = (store', True) \<Longrightarrow>
     store' = run_ops challenge_insert challenge_remove (map (\<lambda>(t, k). Insert t k) (pending_challenges as)) store"
proof (induction as store rule: authorize.induct)
  case (3 a as store)
  then show ?case
    by (auto simp: pending_challenges_def Let_def split: authz_status.splits option.splits if_splits)
qed (simp_all add: pending_challenges_def)

lemma last_write_inserts:
  "distinct (map fst kvs) \<Longrightarrow> (k, v) \<in> set kvs \<Longrightarrow> last_write (map (\<lambda>(t, a). Insert t a) kvs) k d = Some v"
proof (induction kvs arbitrary: d)
  case (Cons kv kvs)
  have other: "k \<notin> fst ` set kvs \<Longrightarrow> last_write (map (\<lambda>(t, a). Insert t a) kvs) k d = d" for d
    by (induction kvs arbitrary: d) (auto simp: case_prod_unfold)
  obtain t a where kv: "kv = (t, a)" by fastforce
  show ?case
  proof (cases "kv = (k, v)")
    case True
    with Cons.prems(1) other show ?thesis by simp
  next
    case False
    with Cons.prems kv have "(k, v) \<in> set kvs" by auto
    with Cons kv show ?thesis by simp
  qed
qed simp

text \<open>
  By the time an order succeeds, every pending authorization's challenge is being answered: the
  front's store responds to the token's well-known path with its key authorization.
\<close>

theorem order_challenges_served:
  assumes "run_order ca store = (store', Some pair)"
    and "distinct (map fst (pending_challenges (ca_authorizations ca)))"
    and "(token, keyauth) \<in> set (pending_challenges (ca_authorizations ca))"
    and "token \<noteq> []" and "CHR ''/'' \<notin> set token"
  shows "response_for store' (well_known_prefix @ token) = Some keyauth"
proof -
  have "authorize (ca_authorizations ca) store = (store', True)"
    using assms(1) by (auto simp: run_order_def split: if_splits prod.splits option.splits)
  then have "store' = run_ops challenge_insert challenge_remove
      (map (\<lambda>(t, k). Insert t k) (pending_challenges (ca_authorizations ca))) store"
    by (rule authorize_ok)
  then have "tokens store' token = Some keyauth"
    using last_write_inserts [OF assms(2,3), of "tokens store token"] by (simp add: cs.get_run_ops)
  with assms(4,5) show ?thesis by (simp add: response_for_iff)
qed

definition demo_ca :: ca_session where
  "demo_ca = \<lparr>ca_account = True, ca_order = True, ca_authorizations =
       [Some \<lparr>az_status = AuthzPending, az_challenge = Some (''t1'', ''t1.k''), az_ready = True\<rparr>],
     ca_order_ready = True, ca_key = Some ''k'', ca_cert = Some ''c''\<rparr>"

theorem order_challenges_served_witness:
  "response_for (fst (run_order demo_ca challenge_new)) (well_known_prefix @ ''t1'') = Some ''t1.k''"
proof -
  have "run_order demo_ca challenge_new = (fst (run_order demo_ca challenge_new), Some (''c'', ''k''))"
    by (simp add: run_order_def demo_ca_def)
  then show ?thesis
    by (rule order_challenges_served) (simp_all add: demo_ca_def pending_challenges_def)
qed

text \<open>
  Two consequences of the code as it is: an order leaves its tokens in the store, and start-up takes
  any pair of cached files, whatever domains it was issued for and whether or not it has expired.
\<close>

theorem order_leaves_tokens:
  "tokens (fst (run_order demo_ca challenge_new)) ''t1'' = Some ''t1.k''"
  by (simp add: run_order_def demo_ca_def challenge_insert_def)

theorem start_keeps_any_cached_pair:
  "cfl_cert F = Some c \<Longrightarrow> cfl_key F = Some k \<Longrightarrow> acme_start True ca io store F = (store, F, True)"
  by (simp add: acme_start_def)

subsection \<open>Which certificate and which front (\<^verbatim>\<open>main.rs\<close>)\<close>

text \<open>\<open>resolve_tls\<close>: the paths to serve; ACME failing at start-up ends the process.\<close>

datatype 'a startup = Exit | Go 'a

definition resolve_tls :: "config \<Rightarrow> bool \<Rightarrow> (string \<times> string) option startup" where
  "resolve_tls c acme_started =
     (case cf_tls c of
        Some tls \<Rightarrow> Go (Some (tls_cert tls, tls_key tls))
      | None \<Rightarrow>
          (case cf_acme c of
             Some acme \<Rightarrow>
               if acme_started
               then Go (Some (path_push (acme_cache_dir acme) ''cert.pem'', path_push (acme_cache_dir acme) ''key.pem''))
               else Exit
           | None \<Rightarrow> Go None))"

text \<open>
  \<open>spawn_http_front\<close>'s choice: the address to listen on and what to do with requests that are not
  challenges; \<open>env_addr\<close> is the parsed \<open>ZAPHYL_ACME_HTTP_ADDR\<close>.
\<close>

definition http_front_choice :: "config \<Rightarrow> u16 \<Rightarrow> string option \<Rightarrow> (string \<times> non_challenge) option" where
  "http_front_choice c https_port env_addr =
     (case cf_http c of
        Some listen \<Rightarrow> Some (listen, RedirectToHttps https_port)
      | None \<Rightarrow>
          if cf_acme c \<noteq> None
          then Some (case env_addr of Some a \<Rightarrow> a | None \<Rightarrow> ''0.0.0.0:80'', NotFound)
          else None)"

text \<open>
  A valid configuration that redirects to HTTPS or serves HTTP/3 has a certificate to serve, and
  with ACME the front that answers the challenges is always up.
\<close>

lemma valid_config_serves_tls:
  assumes "validate c = Inr ()" and "cf_http c \<noteq> None \<or> cf_http3 c \<noteq> None"
  shows "resolve_tls c True \<noteq> Go None"
  using assms unfolding validate_accepts_valid' config_valid_def
  by (auto simp: resolve_tls_def split: option.splits)

lemma acme_front_up: "cf_acme c \<noteq> None \<Longrightarrow> http_front_choice c port env \<noteq> None"
  by (simp add: http_front_choice_def split: option.split)

end
