(* ===== verification/Handshakes.thy ===== *)
theory Handshakes
  imports Certificates
begin

section \<open>Certificates in a handshake: \<^verbatim>\<open>TlsAccept for DynamicCert\<close> in \<^verbatim>\<open>zaphyl/src/tls.rs\<close>, the resolver of \<^verbatim>\<open>http3.rs\<close>\<close>

text \<open>
  What a handshake gets installed.  BoringSSL's three calls are arguments: each may refuse, and the
  connection object holds what they accepted.
\<close>

record ('c, 'k) ssl =
  ssl_cert :: "'c option"
  ssl_key :: "'k option"
  ssl_chain :: "'c list"

record ('c, 'k) ssl_api =
  use_certificate :: "'c \<Rightarrow> bool"
  use_private_key :: "'c \<Rightarrow> 'k \<Rightarrow> bool"     \<comment> \<open>with the certificate that is installed\<close>
  add_chain_cert :: "'c \<Rightarrow> bool"

definition ssl_new :: "('c, 'k) ssl" where
  "ssl_new = \<lparr>ssl_cert = None, ssl_key = None, ssl_chain = []\<rparr>"

fun add_chain :: "('c, 'k) ssl_api \<Rightarrow> 'c list \<Rightarrow> ('c, 'k) ssl \<Rightarrow> ('c, 'k) ssl" where
  "add_chain A [] s = s"
| "add_chain A (c # cs) s =
     add_chain A cs (if add_chain_cert A c then s\<lparr>ssl_chain := ssl_chain s @ [c]\<rparr> else s)"

definition certificate_callback :: "('c, 'k) ssl_api \<Rightarrow> ('c, 'k) loaded option \<Rightarrow> ('c, 'k) ssl \<Rightarrow> ('c, 'k) ssl" where
  "certificate_callback A ld s =
     (case ld of
        None \<Rightarrow> s
      | Some ld \<Rightarrow>
          if \<not> use_certificate A (ld_leaf ld) then s
          else let s = s\<lparr>ssl_cert := Some (ld_leaf ld)\<rparr>
               in if \<not> use_private_key A (ld_leaf ld) (ld_key ld) then s
                  else let s = s\<lparr>ssl_key := Some (ld_key ld)\<rparr>
                       in add_chain A (ld_chain ld) s)"

text \<open>A provider (\<open>DynamicCert::new\<close>, \<open>ReloadCache::new\<close>) has loaded nothing; a handshake asks it.\<close>

definition reload_new :: "'a reload" where
  "reload_new = None"

definition dynamic_cert_new :: "('c, 'k) loaded reload" where
  "dynamic_cert_new = reload_new"

definition tls_handshake :: "('c, 'k) ssl_api \<Rightarrow> (bytes \<Rightarrow> 'c list option) \<Rightarrow> (bytes \<Rightarrow> 'k option) \<Rightarrow> cert_files
    \<Rightarrow> ('c, 'k) loaded reload \<Rightarrow> ('c, 'k) loaded reload \<times> ('c, 'k) ssl" where
  "tls_handshake A pc pk F cached =
     (let (cached, ld) = current pc pk F cached in (cached, certificate_callback A ld ssl_new))"

text \<open>The connection objects of the handshakes in a run of file writes and handshakes.\<close>

fun handshakes :: "('c, 'k) ssl_api \<Rightarrow> (bytes \<Rightarrow> 'c list option) \<Rightarrow> (bytes \<Rightarrow> 'k option) \<Rightarrow> cert_op list \<Rightarrow> cert_files
    \<Rightarrow> ('c, 'k) loaded reload \<Rightarrow> ('c, 'k) ssl list" where
  "handshakes A pc pk [] F cached = []"
| "handshakes A pc pk (WriteCert t bs # ops) F cached = handshakes A pc pk ops (F\<lparr>cfl_cert := Some (t, bs)\<rparr>) cached"
| "handshakes A pc pk (WriteKey bs # ops) F cached = handshakes A pc pk ops (F\<lparr>cfl_key := Some bs\<rparr>) cached"
| "handshakes A pc pk (Handshake # ops) F cached =
     (let (cached, s) = tls_handshake A pc pk F cached in s # handshakes A pc pk ops F cached)"

lemma handshakes_cert_run:
  "handshakes A pc pk ops F cached = map (\<lambda>ld. certificate_callback A ld ssl_new) (cert_run pc pk ops F cached)"
  by (induction A pc pk ops F cached rule: handshakes.induct) (simp_all add: tls_handshake_def case_prod_unfold Let_def)

lemma add_chain_eq: "add_chain A cs s = s\<lparr>ssl_chain := ssl_chain s @ filter (add_chain_cert A) cs\<rparr>"
  by (induction cs arbitrary: s) simp_all

text \<open>The three ways a handshake's connection can be left.\<close>

lemma certificate_callback_cases:
  "certificate_callback A ld ssl_new =
     (case ld of
        None \<Rightarrow> ssl_new
      | Some l \<Rightarrow>
          if \<not> use_certificate A (ld_leaf l) then ssl_new
          else if \<not> use_private_key A (ld_leaf l) (ld_key l)
          then \<lparr>ssl_cert = Some (ld_leaf l), ssl_key = None, ssl_chain = []\<rparr>
          else \<lparr>ssl_cert = Some (ld_leaf l), ssl_key = Some (ld_key l),
                ssl_chain = filter (add_chain_cert A) (ld_chain l)\<rparr>)"
  by (simp add: certificate_callback_def ssl_new_def add_chain_eq Let_def split: option.split)

text \<open>
  Whatever is written to the two files and whenever handshakes fall, a connection has a key only
  together with a certificate that BoringSSL accepted the key for, and chain certificates only with
  both.
\<close>

theorem handshake_key_matches:
  "list_all (\<lambda>s. (case ssl_key s of None \<Rightarrow> ssl_chain s = []
                 | Some k \<Rightarrow> (case ssl_cert s of None \<Rightarrow> False | Some c \<Rightarrow> use_private_key A c k)))
     (handshakes A pc pk ops F dynamic_cert_new)"
  unfolding handshakes_cert_run certificate_callback_cases
  by (auto simp: list_all_iff ssl_new_def split: option.split)

text \<open>
  What the mixed pair of an interrupted renewal means for clients, when BoringSSL refuses a key that is not
  the certificate's: after a handshake between the two writes, every handshake until the certificate
  changes again ends without a key, though the files hold a good pair.
\<close>

lemma interrupted_renewal_breaks_tls:
  assumes "\<not> use_private_key A ''c2'' ''k1''"
  shows "list_all (\<lambda>s. ssl_key s = None)
     (handshakes A (\<lambda>bs. Some [bs]) Some
        ([WriteCert (SysTime 2) ''c2'', Handshake, WriteKey ''k2''] @ replicate n Handshake) demo_files dynamic_cert_new)"
proof -
  let ?v = "\<lparr>ld_leaf = ''c2'', ld_chain = [], ld_key = ''k1''\<rparr>"
  let ?F = "\<lparr>cfl_cert = Some (SysTime 2, ''c2''), cfl_key = Some ''k2''\<rparr>"
  have "cert_run (\<lambda>bs. Some [bs]) Some (replicate n Handshake) ?F (Some (SysTime 2, ?v)) = replicate n (Some ?v)"
    by (induction n) (simp_all add: current_def reload_get_def)
  then have "cert_run (\<lambda>bs. Some [bs]) Some
      ([WriteCert (SysTime 2) ''c2'', Handshake, WriteKey ''k2''] @ replicate n Handshake) demo_files None
      = Some ?v # replicate n (Some ?v)"
    by (simp add: demo_files_def current_def reload_get_def load_pair_def)
  with assms show ?thesis
    unfolding handshakes_cert_run dynamic_cert_new_def reload_new_def certificate_callback_cases
    by (auto simp: list_all_iff ssl_new_def simp del: cert_run.simps)
qed

subsection \<open>The HTTP/3 listener\<close>

text \<open>
  \<open>ResolvesServerCert::resolve\<close> asks the same kind of cache; \<open>serve\<close> loads the certificate once before it opens
  its socket, and fails without one.
\<close>

definition resolver_new :: "('c list \<times> 's) reload" where
  "resolver_new = reload_new"

definition resolve_cert :: "(bytes \<Rightarrow> 'c list option) \<Rightarrow> (bytes \<Rightarrow> 'k option) \<Rightarrow> ('k \<Rightarrow> 's option) \<Rightarrow> cert_files
    \<Rightarrow> ('c list \<times> 's) reload \<Rightarrow> ('c list \<times> 's) reload \<times> ('c list \<times> 's) option" where
  "resolve_cert load_certs load_key sign F cached = resolver_current load_certs load_key sign F cached"

definition serve_setup :: "(bytes \<Rightarrow> 'c list option) \<Rightarrow> (bytes \<Rightarrow> 'k option) \<Rightarrow> ('k \<Rightarrow> 's option) \<Rightarrow> cert_files
    \<Rightarrow> bool \<Rightarrow> bool \<Rightarrow> (('c list \<times> 's) reload \<times> string list) option" where
  "serve_setup load_certs load_key sign F tls_ok endpoint_ok =
     (case resolver_current load_certs load_key sign F resolver_new of
        (cached, None) \<Rightarrow> None
      | (cached, Some _) \<Rightarrow>
          if \<not> tls_ok then None
          else let alpn_protocols = [''h3'']
               in if \<not> endpoint_ok then None else Some (cached, alpn_protocols))"

text \<open>
  A listener that started keeps serving what it loaded while the file is unchanged, and the files'
  certificate after a change that can be read.
\<close>

lemma started_listener_resolves:
  assumes "serve_setup load_certs load_key sign F tls_ok endpoint_ok = Some (cached, alpn)"
  shows "snd (resolve_cert load_certs load_key sign F cached) = load_certified load_certs load_key sign F"
    and "load_certified load_certs load_key sign F \<noteq> None" and "tls_ok" and "endpoint_ok" and "alpn = [''h3'']"
  using assms
  by (auto simp: serve_setup_def resolve_cert_def resolver_current_def reload_get_def resolver_new_def reload_new_def Let_def
      split: option.splits if_splits prod.splits)

end
