(* ===== verification/Renewal.thy ===== *)
theory Renewal
  imports Handshakes Utf8
begin

section \<open>The renewal loop beside the listener: \<^verbatim>\<open>AcmeRunner\<close> and \<^verbatim>\<open>renewal_loop\<close> in \<^verbatim>\<open>zaphyl/src/acme.rs\<close>\<close>

text \<open>
  The loop never ends: a run of it is the list of its turns, each with the clock, the authority's answers and
  the outcomes of the two writes.  TLS handshakes fall between the turns and are served from the files
  through the reload cache.
\<close>

subsection \<open>The runner\<close>

record acme_runner =
  ar_config :: acme_config
  ar_cert_path :: string
  ar_key_path :: string

definition acme_runner_start :: "acme_config \<Rightarrow> bool \<Rightarrow> ca_session \<Rightarrow> obtain_io \<Rightarrow> challenge_store \<Rightarrow> cert_files
    \<Rightarrow> challenge_store \<times> cert_files \<times> acme_runner option" where
  "acme_runner_start acme mkdir_ok ca io store F =
     (let cache = acme_cache_dir acme;
          cert_path = path_push cache ''cert.pem'';
          key_path = path_push cache ''key.pem''
      in case acme_start mkdir_ok ca io store F of
           (store, F, False) \<Rightarrow> (store, F, None)
         | (store, F, True) \<Rightarrow> (store, F, Some \<lparr>ar_config = acme, ar_cert_path = cert_path, ar_key_path = key_path\<rparr>))"

definition cert_paths :: "acme_runner \<Rightarrow> string \<times> string" where
  "cert_paths r = (ar_cert_path r, ar_key_path r)"

text \<open>The paths the listener is given are the runner's.\<close>

lemma runner_paths_served:
  assumes "cf_tls c = None" and "cf_acme c = Some acme"
    and "acme_runner_start acme mkdir_ok ca io store F = (store', F', Some r)"
  shows "resolve_tls c True = Go (Some (cert_paths r))" and "ar_config r = acme"
  using assms by (auto simp: acme_runner_start_def resolve_tls_def cert_paths_def Let_def split: bool.splits prod.splits)

subsection \<open>The loop\<close>

text \<open>The clock in seconds, 0 before the epoch; \<open>try_from\<close> cannot fail on a clock that fits \<open>SystemTime\<close>.\<close>

definition now_unix :: "systime \<Rightarrow> int" where
  "now_unix t = (if nanos t < 0 then 0 else if systime_secs t \<le> i64_max then systime_secs t else 0)"

text \<open>
  \<open>cert_not_after_unix\<close>: \<open>first_pem\<close> is the first block of a PEM text, if there is one and it can be read;
  \<open>x509\<close> the expiry of the certificate in a block.
\<close>

definition cert_not_after_unix :: "(bytes \<Rightarrow> 'p option option) \<Rightarrow> ('p \<Rightarrow> int option) \<Rightarrow> bytes \<Rightarrow> int option" where
  "cert_not_after_unix first_pem x509 pem =
     (case first_pem pem of
        None \<Rightarrow> None
      | Some None \<Rightarrow> None
      | Some (Some entry) \<Rightarrow> x509 entry)"

record turn =
  tn_now :: systime
  tn_ca :: ca_session
  tn_io :: obtain_io

text \<open>\<open>read_to_string\<close> fails on a file that is not UTF-8: it is renewed like one that does not parse.\<close>

definition loop_turn :: "(bytes \<Rightarrow> int option) \<Rightarrow> acme_config \<Rightarrow> turn \<Rightarrow> challenge_store \<Rightarrow> cert_files
    \<Rightarrow> challenge_store \<times> cert_files" where
  "loop_turn not_after acme t store F =
     renewal_turn (\<lambda>pem. if valid_utf8 pem then not_after pem else None) (acme_renew_before_days acme)
       (now_unix (tn_now t)) (tn_ca t) (tn_io t) store F"

fun renewal_loop :: "(bytes \<Rightarrow> int option) \<Rightarrow> acme_config \<Rightarrow> turn list \<Rightarrow> challenge_store \<Rightarrow> cert_files
    \<Rightarrow> challenge_store \<times> cert_files" where
  "renewal_loop not_after acme [] store F = (store, F)"
| "renewal_loop not_after acme (t # ts) store F =
     (case loop_turn not_after acme t store F of (store, F) \<Rightarrow> renewal_loop not_after acme ts store F)"

text \<open>Turns and handshakes; the answers of the handshakes.\<close>

datatype cert_event = Turn turn | Hello systime

fun cert_service :: "(bytes \<Rightarrow> int option) \<Rightarrow> acme_config \<Rightarrow> (bytes \<Rightarrow> 'c list option) \<Rightarrow> (bytes \<Rightarrow> 'k option)
    \<Rightarrow> cert_event list \<Rightarrow> challenge_store \<Rightarrow> cert_files \<Rightarrow> ('c, 'k) loaded reload \<Rightarrow> ('c, 'k) loaded option list" where
  "cert_service na acme pc pk [] store F cached = []"
| "cert_service na acme pc pk (Turn t # es) store F cached =
     (case loop_turn na acme t store F of (store, F) \<Rightarrow> cert_service na acme pc pk es store F cached)"
| "cert_service na acme pc pk (Hello h # es) store F cached =
     (case current pc pk F cached of (cached, ans) \<Rightarrow> ans # cert_service na acme pc pk es store F cached)"

subsection \<open>What an order depends on\<close>

text \<open>What the authority issues does not depend on the challenges the store holds already.\<close>

definition issued :: "ca_session \<Rightarrow> (bytes \<times> bytes) option" where
  "issued ca = snd (run_order ca challenge_new)"

lemma authorize_snd:
  "snd (authorize as store) \<longleftrightarrow>
     list_all (\<lambda>a. case a of None \<Rightarrow> False
                | Some a \<Rightarrow> (case az_status a of AuthzValid \<Rightarrow> True | AuthzOther \<Rightarrow> False
                    | AuthzPending \<Rightarrow> az_challenge a \<noteq> None \<and> az_ready a)) as"
  by (induction as store rule: authorize.induct) (auto simp: Let_def split: authz_status.split option.split)

lemma run_order_issued: "snd (run_order ca store) = issued ca"
proof -
  have "snd (authorize (ca_authorizations ca) store) = snd (authorize (ca_authorizations ca) challenge_new)"
    by (simp only: authorize_snd)
  then show ?thesis
    by (simp add: issued_def run_order_def Let_def case_prod_unfold split: option.split)
qed

lemma loop_turn_down:
  assumes "issued (tn_ca t) = None"
  shows "snd (loop_turn na acme t store F) = F"
  using run_order_issued [of "tn_ca t" store] assms
  by (auto simp: loop_turn_def renewal_turn_def obtain_cert_def Let_def split: prod.splits option.splits)

text \<open>A turn on a certificate that is not due does nothing at all, whatever the authority would answer.\<close>

definition due :: "(bytes \<Rightarrow> int option) \<Rightarrow> acme_config \<Rightarrow> int \<Rightarrow> cert_files \<Rightarrow> bool" where
  "due na acme now F =
     (case cfl_cert F of
        None \<Rightarrow> True
      | Some (_, pem) \<Rightarrow> needs_renewal (if valid_utf8 pem then na pem else None) now
          (renewal_window (acme_renew_before_days acme)))"

lemma loop_turn_not_due: "\<not> due na acme (now_unix (tn_now t)) F \<Longrightarrow> loop_turn na acme t store F = (store, F)"
  by (auto simp: loop_turn_def renewal_turn_def due_def Let_def split: option.splits)

lemma loop_turn_renews:
  assumes "due na acme (now_unix (tn_now t)) F" and "issued (tn_ca t) = Some (cert, key)"
    and "oi_cert (tn_io t) = WriteOk" and "oi_key (tn_io t) = WriteOk"
  shows "snd (loop_turn na acme t store F) = F\<lparr>cfl_cert := Some (oi_now (tn_io t), cert), cfl_key := Some key\<rparr>"
  using run_order_issued [of "tn_ca t" store] assms
  by (auto simp: loop_turn_def renewal_turn_def due_def obtain_cert_def write_cert_def write_key_def Let_def
      split: prod.splits option.splits)

subsection \<open>Outages of the authority\<close>

text \<open>
  A pair that can be served: the readers of the listener and of the loop agree on it (\<open>expiry\<close> is the leaf's
  \<open>notAfter\<close>), and the leaf is good for at least \<open>w\<close> more seconds.
\<close>

definition usable :: "(bytes \<Rightarrow> int option) \<Rightarrow> (bytes \<Rightarrow> 'c list option) \<Rightarrow> (bytes \<Rightarrow> 'k option) \<Rightarrow> ('c \<Rightarrow> int)
    \<Rightarrow> int \<Rightarrow> int \<Rightarrow> bytes \<Rightarrow> bytes \<Rightarrow> bool" where
  "usable na pc pk expiry w now cert key =
     (valid_utf8 cert \<and> pk key \<noteq> None \<and>
      (case pc cert of
         Some (leaf # chain) \<Rightarrow> na cert = Some (expiry leaf) \<and> w \<le> expiry leaf - now
       | _ \<Rightarrow> False))"

text \<open>
  A run that is watched from a turn at \<open>prev\<close>, \<open>k\<close> turns into an outage, with no certificate file newer than \<open>T\<close>:
  every event comes at most \<open>g\<close> seconds after the last turn, no more than \<open>m\<close> turns in a row find the
  authority down, and one that does not gets a usable pair that is not due at once, writes it and finds a
  modification time that is new.
\<close>

fun orderly :: "(bytes \<Rightarrow> int option) \<Rightarrow> acme_config \<Rightarrow> (bytes \<Rightarrow> 'c list option) \<Rightarrow> (bytes \<Rightarrow> 'k option) \<Rightarrow> ('c \<Rightarrow> int)
    \<Rightarrow> int \<Rightarrow> nat \<Rightarrow> nat \<Rightarrow> int \<Rightarrow> systime \<Rightarrow> cert_event list \<Rightarrow> bool" where
  "orderly na acme pc pk expiry g m k prev T [] = True"
| "orderly na acme pc pk expiry g m k prev T (Hello h # es) =
     (now_unix h - prev \<le> g \<and> orderly na acme pc pk expiry g m k prev T es)"
| "orderly na acme pc pk expiry g m k prev T (Turn t # es) =
     (now_unix (tn_now t) - prev \<le> g \<and>
      (case issued (tn_ca t) of
         None \<Rightarrow> Suc k \<le> m \<and> orderly na acme pc pk expiry g m (Suc k) (now_unix (tn_now t)) T es
       | Some (cert, key) \<Rightarrow>
           oi_cert (tn_io t) = WriteOk \<and> oi_key (tn_io t) = WriteOk \<and> T < oi_now (tn_io t) \<and>
           usable na pc pk expiry (renewal_window (acme_renew_before_days acme)) (now_unix (tn_now t)) cert key \<and>
           orderly na acme pc pk expiry g m 0 (now_unix (tn_now t)) (oi_now (tn_io t)) es))"

fun hello_times :: "cert_event list \<Rightarrow> int list" where
  "hello_times [] = []"
| "hello_times (Turn t # es) = hello_times es"
| "hello_times (Hello h # es) = now_unix h # hello_times es"

text \<open>The invariant: the files hold a usable pair, and the cache nothing newer.\<close>

definition serviceable :: "(bytes \<Rightarrow> int option) \<Rightarrow> (bytes \<Rightarrow> 'c list option) \<Rightarrow> (bytes \<Rightarrow> 'k option) \<Rightarrow> ('c \<Rightarrow> int)
    \<Rightarrow> int \<Rightarrow> int \<Rightarrow> systime \<Rightarrow> cert_files \<Rightarrow> ('c, 'k) loaded reload \<Rightarrow> bool" where
  "serviceable na pc pk expiry w now T F cached =
     (coherent pc pk F cached \<and> (\<forall>t\<in>cached_time cached. t \<le> T) \<and>
      (\<exists>t cert key. F = \<lparr>cfl_cert = Some (t, cert), cfl_key = Some key\<rparr> \<and> t \<le> T
         \<and> usable na pc pk expiry w now cert key))"

lemma serviceableI:
  assumes "coherent pc pk \<lparr>cfl_cert = Some (t, cert), cfl_key = Some key\<rparr> cached"
    and "\<And>u. u \<in> cached_time cached \<Longrightarrow> u \<le> T" and "t \<le> T" and "usable na pc pk expiry w now cert key"
  shows "serviceable na pc pk expiry w now T \<lparr>cfl_cert = Some (t, cert), cfl_key = Some key\<rparr> cached"
  unfolding serviceable_def using assms by fast

lemma serviceableE:
  assumes "serviceable na pc pk expiry w now T F cached"
  obtains t cert key where "F = \<lparr>cfl_cert = Some (t, cert), cfl_key = Some key\<rparr>" and "t \<le> T"
    and "usable na pc pk expiry w now cert key" and "coherent pc pk F cached"
    and "\<forall>u\<in>cached_time cached. u \<le> T"
  using assms unfolding serviceable_def by fast

lemma usable_later:
  "usable na pc pk expiry w now cert key \<Longrightarrow> w' + now' \<le> w + now \<Longrightarrow> usable na pc pk expiry w' now' cert key"
  by (auto simp: usable_def split: option.splits list.splits)

lemma not_due_usable:
  assumes "usable na pc pk expiry w prev cert key"
    and "\<not> due na acme now \<lparr>cfl_cert = Some (t, cert), cfl_key = Some key\<rparr>"
  shows "usable na pc pk expiry (renewal_window (acme_renew_before_days acme)) now cert key"
proof -
  let ?w = "renewal_window (acme_renew_before_days acme)"
  have "clamp_i64 x < ?w \<longleftrightarrow> x < ?w" for x
    using renewal_window_bounds [of "acme_renew_before_days acme"] by (intro clamp_less_iff) (auto simp: i64_min_def)
  with assms show ?thesis
    by (auto simp: usable_def due_def needs_renewal_def split: option.splits list.splits)
qed

lemma serviceable_hello:
  assumes "serviceable na pc pk expiry w prev T F cached"
  shows "\<exists>l. snd (current pc pk F cached) = Some l \<and> w \<le> expiry (ld_leaf l) - prev"
    and "serviceable na pc pk expiry w prev T F (fst (current pc pk F cached))"
proof -
  from assms obtain t cert key where F: "F = \<lparr>cfl_cert = Some (t, cert), cfl_key = Some key\<rparr>"
    and t: "t \<le> T" and u: "usable na pc pk expiry w prev cert key" and c: "coherent pc pk F cached"
    and times: "\<forall>u\<in>cached_time cached. u \<le> T" by (rule serviceableE)
  show "\<exists>l. snd (current pc pk F cached) = Some l \<and> w \<le> expiry (ld_leaf l) - prev"
    using u unfolding current_coherent(1) [OF c]
    by (auto simp: F load_pair_def usable_def split: option.splits list.splits)
  have "u \<le> T" if "u \<in> cached_time (fst (current pc pk F cached))" for u
    using that current_cached_time [of pc pk F cached] times t by (auto simp: F)
  with current_coherent(2) [OF c] t u show "serviceable na pc pk expiry w prev T F (fst (current pc pk F cached))"
    unfolding F by (intro serviceableI)
qed

lemma serviceable_later:
  assumes "serviceable na pc pk expiry w prev T F cached" and "w' + now \<le> w + prev" and "T \<le> T'"
  shows "serviceable na pc pk expiry w' now T' F cached"
proof -
  from assms(1) obtain t cert key where F: "F = \<lparr>cfl_cert = Some (t, cert), cfl_key = Some key\<rparr>"
    and t: "t \<le> T" and u: "usable na pc pk expiry w prev cert key" and c: "coherent pc pk F cached"
    and times: "\<forall>u\<in>cached_time cached. u \<le> T" by (rule serviceableE)
  have "u \<le> T'" if "u \<in> cached_time cached" for u using times that assms(3) by (meson order_trans)
  with c order_trans [OF t assms(3)] usable_later [OF u assms(2)] show ?thesis
    unfolding F by (intro serviceableI)
qed

lemma serviceable_working:
  assumes "serviceable na pc pk expiry w prev T F cached" and "issued (tn_ca t) = Some (cert, key)"
    and "oi_cert (tn_io t) = WriteOk" and "oi_key (tn_io t) = WriteOk" and "T < oi_now (tn_io t)"
    and "usable na pc pk expiry (renewal_window (acme_renew_before_days acme)) (now_unix (tn_now t)) cert key"
  shows "serviceable na pc pk expiry (renewal_window (acme_renew_before_days acme)) (now_unix (tn_now t))
           (oi_now (tn_io t)) (snd (loop_turn na acme t store F)) cached"
proof -
  from assms(1) obtain t' c' k' where F: "F = \<lparr>cfl_cert = Some (t', c'), cfl_key = Some k'\<rparr>"
    and t: "t' \<le> T" and u: "usable na pc pk expiry w prev c' k'" and c: "coherent pc pk F cached"
    and times: "\<forall>u\<in>cached_time cached. u \<le> T" by (rule serviceableE)
  have newer: "u < oi_now (tn_io t)" if "u \<in> cached_time cached" for u
    using times that assms(5) by (meson le_less_trans)
  show ?thesis
  proof (cases "due na acme (now_unix (tn_now t)) F")
    case True
    have new: "snd (loop_turn na acme t store F) = \<lparr>cfl_cert = Some (oi_now (tn_io t), cert), cfl_key = Some key\<rparr>"
      using loop_turn_renews [OF True assms(2-4)] F by simp
    have "coherent pc pk \<lparr>cfl_cert = Some (oi_now (tn_io t), cert), cfl_key = Some key\<rparr> cached"
      using newer by (auto simp: coherent_def cached_time_def)
    then show ?thesis unfolding new using assms(6) newer by (intro serviceableI) (auto intro: less_imp_le)
  next
    case False
    have "usable na pc pk expiry (renewal_window (acme_renew_before_days acme)) (now_unix (tn_now t)) c' k'"
      using not_due_usable [OF u, of acme "now_unix (tn_now t)" t'] False F by simp
    with c newer order_trans [OF t less_imp_le [OF assms(5)]] show ?thesis
      unfolding loop_turn_not_due [OF False] snd_conv unfolding F
      by (intro serviceableI) (auto intro: less_imp_le)
  qed
qed

lemma service_run:
  assumes "orderly na acme pc pk expiry g m k prev T es" and "0 \<le> g" and "k \<le> m"
    and "serviceable na pc pk expiry (renewal_window (acme_renew_before_days acme) - int k * g) prev T F cached"
  shows "list_all2 (\<lambda>h ans. \<exists>l. ans = Some l
             \<and> renewal_window (acme_renew_before_days acme) - int (Suc m) * g \<le> expiry (ld_leaf l) - h)
     (hello_times es) (cert_service na acme pc pk es store F cached)"
  using assms
proof (induction na acme pc pk expiry g m k prev T es arbitrary: store F cached rule: orderly.induct)
  case (2 na acme pc pk expiry g m k prev T h es)
  have "int k * g \<le> int m * g" using 2(3,4) by (intro mult_right_mono) simp_all
  with serviceable_hello(1) [OF 2(5)] 2(2) obtain l where "snd (current pc pk F cached) = Some l"
    "renewal_window (acme_renew_before_days acme) - int (Suc m) * g \<le> expiry (ld_leaf l) - now_unix h"
    by (auto simp: algebra_simps)
  moreover have "list_all2 (\<lambda>h ans. \<exists>l. ans = Some l
             \<and> renewal_window (acme_renew_before_days acme) - int (Suc m) * g \<le> expiry (ld_leaf l) - h)
     (hello_times es) (cert_service na acme pc pk es store F (fst (current pc pk F cached)))"
    using 2 serviceable_hello(2) [OF 2(5)] by (intro 2(1)) auto
  ultimately show ?case by (simp add: case_prod_unfold)
next
  case (3 na acme pc pk expiry g m k prev T t es)
  let ?w = "renewal_window (acme_renew_before_days acme)"
  show ?case
  proof (cases "issued (tn_ca t)")
    case None
    have "serviceable na pc pk expiry (?w - int (Suc k) * g) (now_unix (tn_now t)) T F cached"
      using 3(3) by (intro serviceable_later [OF 3(6)]) (simp_all add: algebra_simps)
    with 3(1) [OF None] 3(3-5) None loop_turn_down [OF None, of na acme store F] show ?thesis
      by (simp add: case_prod_unfold)
  next
    case (Some ck)
    obtain cert key where ck: "ck = (cert, key)" by fastforce
    with Some 3(3) have good: "oi_cert (tn_io t) = WriteOk" "oi_key (tn_io t) = WriteOk" "T < oi_now (tn_io t)"
      "usable na pc pk expiry ?w (now_unix (tn_now t)) cert key"
      "orderly na acme pc pk expiry g m 0 (now_unix (tn_now t)) (oi_now (tn_io t)) es" by simp_all
    from serviceable_working [OF 3(6) Some [unfolded ck] good(1-4), of store]
      3(2) [OF Some ck [symmetric]] good(5) 3(4) show ?thesis
      by (simp add: case_prod_unfold)
  qed
qed simp

text \<open>
  C0. Renewal in time: let the loop start on a usable pair that is not due, let every turn and every handshake come
  at most \<open>g\<close> seconds after the last turn, and let the authority be down (refuse, not answer, or not finish an order)
  for at most \<open>m\<close> turns in a row, else issue a pair that is not due at once.  Then every handshake is served a
  certificate, with at least the renewal window less \<open>(m + 1) * g\<close> seconds to live: none has expired while the
  outages are shorter than the window.  (Both files are written whole and between two handshakes; what
  happens otherwise is below.)
\<close>

theorem handshakes_outlive_outages:
  assumes "orderly na acme pc pk expiry g m 0 start T es" and "0 \<le> g"
    and "serviceable na pc pk expiry (renewal_window (acme_renew_before_days acme)) start T F dynamic_cert_new"
  shows "list_all2 (\<lambda>h ans. \<exists>l. ans = Some l
             \<and> renewal_window (acme_renew_before_days acme) - int (Suc m) * g \<le> expiry (ld_leaf l) - h)
     (hello_times es) (cert_service na acme pc pk es store F dynamic_cert_new)"
  using service_run [OF assms(1,2)] assms(3) by simp

definition demo_acme :: acme_config where
  "demo_acme = \<lparr>acme_domains = [''a.io''], acme_email = ''me@a.io'', acme_directory = ''https://ca.io'',
     acme_cache_dir = ''/acme'', acme_renew_before_days = 30, acme_check_interval = 600000\<rparr>"

definition demo_expiry :: "bytes \<Rightarrow> int" where
  "demo_expiry leaf = (if leaf = ''c1'' then 3000000 else 9000000)"

definition demo_turn :: "int \<Rightarrow> bool \<Rightarrow> turn" where
  "demo_turn now up = \<lparr>tn_now = SysTime (now * 10 ^ 9), tn_ca = demo_ca\<lparr>ca_order := up, ca_cert := Some ''c2''\<rparr>,
     tn_io = \<lparr>oi_cert = WriteOk, oi_key = WriteOk, oi_now = SysTime (now * 10 ^ 9)\<rparr>\<rparr>"

text \<open>A week into a certificate's last month the authority is down, a week later it is back.\<close>

definition demo_service :: "cert_event list" where
  "demo_service = [Hello (SysTime (10 * 10 ^ 9)), Turn (demo_turn 600000 False), Hello (SysTime (700000 * 10 ^ 9)),
     Turn (demo_turn 1200000 True), Hello (SysTime (1300000 * 10 ^ 9))]"

lemma demo_issued:
  "issued (demo_ca\<lparr>ca_order := False, ca_cert := Some ''c2''\<rparr>) = None"
  "issued (demo_ca\<lparr>ca_order := True, ca_cert := Some ''c2''\<rparr>) = Some (''c2'', ''k'')"
  by (simp_all add: issued_def run_order_def demo_ca_def)

theorem handshakes_outlive_outages_witness:
  "list_all2 (\<lambda>h ans. \<exists>l. ans = Some l \<and> 1392000 \<le> demo_expiry (ld_leaf l) - h)
     [10, 700000, 1300000]
     (cert_service (\<lambda>pem. Some (demo_expiry pem)) demo_acme (\<lambda>pem. Some [pem]) Some demo_service challenge_new
        demo_files dynamic_cert_new)"
proof -
  have w: "renewal_window (acme_renew_before_days demo_acme) = 2592000"
    by (simp add: renewal_window_def demo_acme_def seconds_per_day_def clamp_i64_def i64_max_def i64_min_def)
  have utf8: "valid_utf8 ''c1''" "valid_utf8 ''c2''" by code_simp+
  have secs: "now_unix (SysTime (n * 10 ^ 9)) = n" if "0 \<le> n" "n \<le> i64_max" for n
    using that by (simp add: now_unix_def systime_secs_def)
  have times: "now_unix (SysTime (10 * 10 ^ 9)) = 10" "now_unix (SysTime (600000 * 10 ^ 9)) = 600000"
    "now_unix (SysTime (700000 * 10 ^ 9)) = 700000" "now_unix (SysTime (1200000 * 10 ^ 9)) = 1200000"
    "now_unix (SysTime (1300000 * 10 ^ 9)) = 1300000"
    by (rule secs; simp add: i64_max_def)+
  have "orderly (\<lambda>pem. Some (demo_expiry pem)) demo_acme (\<lambda>pem. Some [pem]) Some demo_expiry 600000 1 0 0
      (SysTime 1) demo_service"
    by (simp add: demo_service_def demo_turn_def times [simplified] demo_issued usable_def w utf8 demo_expiry_def
        less_systime_def del: power.simps)
  moreover have "serviceable (\<lambda>pem. Some (demo_expiry pem)) (\<lambda>pem. Some [pem]) Some demo_expiry
      (renewal_window (acme_renew_before_days demo_acme)) 0 (SysTime 1) demo_files dynamic_cert_new"
    unfolding demo_files_def w
    by (rule serviceableI)
      (simp_all add: coherent_def cached_time_def dynamic_cert_new_def reload_new_def usable_def utf8 demo_expiry_def)
  moreover have "hello_times demo_service = [10, 700000, 1300000]"
    by (simp add: demo_service_def times [simplified])
  ultimately show ?thesis
    using handshakes_outlive_outages [where g = 600000 and m = 1 and acme = demo_acme and es = demo_service
        and store = challenge_new] by (simp add: w)
qed

subsection \<open>Writes that fail\<close>

text \<open>
  The loop looks at the certificate only: when the certificate is written and its key is not, the new certificate
  stays beside the old key, and no turn tries again until the new certificate nears its expiry.
\<close>

lemma lost_key_write_sticks:
  assumes "due na acme (now_unix (tn_now t)) F" and "issued (tn_ca t) = Some (cert, key)"
    and "oi_cert (tn_io t) = WriteOk" and "oi_key (tn_io t) = CreateFails"
    and "list_all (\<lambda>t'. \<not> due na acme (now_unix (tn_now t')) (F\<lparr>cfl_cert := Some (oi_now (tn_io t), cert)\<rparr>)) ts"
  shows "snd (renewal_loop na acme (t # ts) store F) = F\<lparr>cfl_cert := Some (oi_now (tn_io t), cert)\<rparr>"
proof -
  have first: "snd (loop_turn na acme t store F) = F\<lparr>cfl_cert := Some (oi_now (tn_io t), cert)\<rparr>"
    using run_order_issued [of "tn_ca t" store] assms(1-4)
    by (auto simp: loop_turn_def renewal_turn_def due_def obtain_cert_def write_cert_def write_key_def Let_def
        split: prod.splits option.splits)
  have "renewal_loop na acme ts store' G = (store', G)"
    if "list_all (\<lambda>t'. \<not> due na acme (now_unix (tn_now t')) G) ts" for store' G
    using that by (induction ts) (simp_all add: loop_turn_not_due)
  with assms(5) first show ?thesis by (simp add: case_prod_unfold)
qed

text \<open>
  The certificate is written in place: a write that fails leaves a part of it, and handshakes that were
  served the old pair from the cache a moment before are served nothing, as the new modification time makes
  them read the broken file.
\<close>

lemma torn_renewal_stops_tls:
  assumes "pc [] = None" and "issued (tn_ca t) = Some (cert, key)" and "oi_cert (tn_io t) = WriteFailsAfter 0"
    and "due na acme (now_unix (tn_now t)) F" and "current pc pk F None = (cached, Some v)"
    and "map_option fst (cfl_cert F) \<noteq> Some (oi_now (tn_io t))"
  shows "cert_service na acme pc pk (Turn t # map Hello hs) store F cached = replicate (length hs) None"
proof -
  have F: "snd (loop_turn na acme t store F) = F\<lparr>cfl_cert := Some (oi_now (tn_io t), [])\<rparr>"
    using run_order_issued [of "tn_ca t" store] assms(2-4)
    by (auto simp: loop_turn_def renewal_turn_def due_def obtain_cert_def write_cert_def Let_def
        split: prod.splits option.splits)
  have "cached_time cached \<subseteq> set_option (map_option fst (cfl_cert F))"
    using current_cached_time [of pc pk F None] assms(5) by (simp add: cached_time_def)
  then have "current pc pk (F\<lparr>cfl_cert := Some (oi_now (tn_io t), [])\<rparr>) cached = (cached, None)"
    using assms(1,6) by (auto simp: current_def reload_get_def load_pair_def cached_time_def split: option.splits)
  then have "cert_service na acme pc pk (map Hello hs) s (F\<lparr>cfl_cert := Some (oi_now (tn_io t), [])\<rparr>) cached
      = replicate (length hs) None" for s
    by (induction hs) simp_all
  with F show ?thesis by (simp add: case_prod_unfold)
qed

end
