(* ===== verification/Access.thy ===== *)
theory Access
  imports Prelude
begin

section \<open>Access control: \<^verbatim>\<open>crates/zaphyl-core/src/access.rs\<close>\<close>

text \<open>
  Allow and deny lists of networks.  \<open>IpAddr\<close> and its \<open>FromStr\<close> are the standard library's and
  are defined here; \<open>IpNet\<close> is the \<open>ipnet\<close> crate's and enters as a record of the three functions
  the code calls.  \<open>net_api_ok\<close> states what the code relies on: a host prefix (32 or 128 bits) is
  always a valid one and contains that host alone.
\<close>

subsection \<open>\<open>IpAddr\<close> and its parser\<close>

datatype ip_addr = V4 (octets: "int list") | V6 (segments: "int list")

definition digit_in :: "int \<Rightarrow> char \<Rightarrow> int option" where
  "digit_in radix c =
     (let n = (of_char c :: int);
          v = (if 48 \<le> n \<and> n \<le> 57 then Some (n - 48)
               else if 97 \<le> n \<and> n \<le> 122 then Some (n - 87)
               else if 65 \<le> n \<and> n \<le> 90 then Some (n - 55) else None)
      in case v of Some d \<Rightarrow> if d < radix then Some d else None | None \<Rightarrow> None)"

text \<open>\<open>read_number\<close>: as many digits as there are; more than \<open>max_digits\<close> is a failure.\<close>

fun read_digits :: "int \<Rightarrow> nat \<Rightarrow> int \<Rightarrow> string \<Rightarrow> nat \<times> int \<times> string" where
  "read_digits radix k acc [] = (k, acc, [])"
| "read_digits radix k acc (c # cs) =
     (case digit_in radix c of
        None \<Rightarrow> (k, acc, c # cs)
      | Some d \<Rightarrow> read_digits radix (Suc k) (radix * acc + d) cs)"

definition read_number :: "int \<Rightarrow> nat \<Rightarrow> bool \<Rightarrow> int \<Rightarrow> string \<Rightarrow> (int \<times> string) option" where
  "read_number radix max_digits zero_prefix bound s =
     (let (k, n, rest) = read_digits radix 0 0 s
      in if k = 0 \<or> max_digits < k \<or> bound \<le> n then None
         else if \<not> zero_prefix \<and> hd s = CHR ''0'' \<and> 1 < k then None
         else Some (n, rest))"

definition read_char :: "char \<Rightarrow> string \<Rightarrow> string option" where
  "read_char c s = strip_prefix [c] s"

definition read_sep :: "char \<Rightarrow> nat \<Rightarrow> string \<Rightarrow> string option" where
  "read_sep c i s = (if i = 0 then Some s else read_char c s)"

fun read_octets :: "nat \<Rightarrow> nat \<Rightarrow> string \<Rightarrow> (int list \<times> string) option" where
  "read_octets i 0 s = Some ([], s)"
| "read_octets i (Suc k) s =
     (case read_sep CHR ''.'' i s of None \<Rightarrow> None
      | Some s' \<Rightarrow>
          (case read_number 10 3 False 256 s' of None \<Rightarrow> None
           | Some (n, s'') \<Rightarrow>
               (case read_octets (Suc i) k s'' of None \<Rightarrow> None
                | Some (ns, s''') \<Rightarrow> Some (n # ns, s'''))))"

text \<open>\<open>read_groups\<close>: up to \<open>left\<close> groups, the last two possibly a dotted IPv4 address.\<close>

fun read_groups :: "nat \<Rightarrow> nat \<Rightarrow> string \<Rightarrow> int list \<times> bool \<times> string" where
  "read_groups i 0 s = ([], False, s)"
| "read_groups i (Suc left) s =
     (let v4 = (if 0 < left
                then case read_sep CHR '':'' i s of None \<Rightarrow> None | Some s' \<Rightarrow> read_octets 0 4 s'
                else None)
      in case v4 of
           Some ([a, b, c, d], rest) \<Rightarrow> ([256 * a + b, 256 * c + d], True, rest)
         | _ \<Rightarrow>
           (case read_sep CHR '':'' i s of None \<Rightarrow> ([], False, s)
            | Some s' \<Rightarrow>
                (case read_number 16 4 True (2 ^ 16) s' of None \<Rightarrow> ([], False, s)
                 | Some (g, s'') \<Rightarrow>
                     (let (gs, b, rest) = read_groups (Suc i) left s'' in (g # gs, b, rest)))))"

definition read_ipv6 :: "string \<Rightarrow> (int list \<times> string) option" where
  "read_ipv6 s =
     (let (head, head_v4, s') = read_groups 0 8 s
      in if length head = 8 then Some (head, s')
         else if head_v4 then None
         else case strip_prefix ''::'' s' of None \<Rightarrow> None
              | Some s'' \<Rightarrow>
                  (let (tail, _, rest) = read_groups 0 (8 - (length head + 1)) s''
                   in Some (head @ replicate (8 - length head - length tail) 0 @ tail, rest)))"

definition parse_ip :: "string \<Rightarrow> ip_addr option" where
  "parse_ip s =
     (case read_octets 0 4 s of
        Some (os, rest) \<Rightarrow> if rest = [] then Some (V4 os) else None
      | None \<Rightarrow>
          (case read_ipv6 s of
             Some (gs, rest) \<Rightarrow> if rest = [] then Some (V6 gs) else None
           | None \<Rightarrow> None))"

definition is_ipv4 :: "ip_addr \<Rightarrow> bool" where
  "is_ipv4 ip = (case ip of V4 _ \<Rightarrow> True | V6 _ \<Rightarrow> False)"

lemma parse_ip_examples:
  "parse_ip ''10.0.0.5'' = Some (V4 [10, 0, 0, 5])"
  "parse_ip ''1.2.3.04'' = None" "parse_ip ''1.2.3.256'' = None" "parse_ip ''1.2.3.4 '' = None"
  "parse_ip ''::1'' = Some (V6 [0, 0, 0, 0, 0, 0, 0, 1])"
  "parse_ip ''fe80::1:2'' = Some (V6 [65152, 0, 0, 0, 0, 0, 1, 2])"
  "parse_ip ''::ffff:1.2.3.4'' = Some (V6 [0, 0, 0, 0, 0, 65535, 258, 772])"
  "parse_ip ''1:2:3:4:5:6:7:8'' = Some (V6 [1, 2, 3, 4, 5, 6, 7, 8])"
  "parse_ip ''1::2::3'' = None" "parse_ip ''not-an-ip'' = None"
  by (code_simp, code_simp, code_simp, code_simp, code_simp, code_simp, code_simp, code_simp, code_simp, code_simp)

subsection \<open>The rules\<close>

record 'n net_api =
  net_parse :: "string \<Rightarrow> 'n option"             \<comment> \<open>\<open>IpNet::from_str\<close>\<close>
  net_new :: "ip_addr \<Rightarrow> nat \<Rightarrow> 'n option"        \<comment> \<open>\<open>IpNet::new\<close>\<close>
  net_contains :: "'n \<Rightarrow> ip_addr \<Rightarrow> bool"        \<comment> \<open>\<open>IpNet::contains\<close>\<close>

record 'n access_control =
  ac_allow :: "'n list"
  ac_deny :: "'n list"

definition parse_net :: "'n net_api \<Rightarrow> string \<Rightarrow> string + 'n" where
  "parse_net N entry =
     (case net_parse N entry of
        Some net \<Rightarrow> Inr net
      | None \<Rightarrow>
          (case parse_ip entry of
             Some ip \<Rightarrow>
               (let pfx = (if is_ipv4 ip then 32 else 128)
                in case net_new N ip pfx of Some net \<Rightarrow> Inr net | None \<Rightarrow> Inl entry)
           | None \<Rightarrow> Inl entry))"

text \<open>\<open>collect\<close> into a \<open>Result\<close> stops at the first error.\<close>

fun parse_nets :: "'n net_api \<Rightarrow> string list \<Rightarrow> string + 'n list" where
  "parse_nets N [] = Inr []"
| "parse_nets N (e # es) =
     (case parse_net N e of
        Inl bad \<Rightarrow> Inl bad
      | Inr net \<Rightarrow> (case parse_nets N es of Inl bad \<Rightarrow> Inl bad | Inr nets \<Rightarrow> Inr (net # nets)))"

definition access_parse :: "'n net_api \<Rightarrow> string list \<Rightarrow> string list \<Rightarrow> string + 'n access_control" where
  "access_parse N allow deny =
     (case parse_nets N allow of
        Inl bad \<Rightarrow> Inl bad
      | Inr a \<Rightarrow> (case parse_nets N deny of
                   Inl bad \<Rightarrow> Inl bad
                 | Inr d \<Rightarrow> Inr \<lparr>ac_allow = a, ac_deny = d\<rparr>))"

definition access_is_empty :: "'n access_control \<Rightarrow> bool" where
  "access_is_empty ac = (ac_allow ac = [] \<and> ac_deny ac = [])"

definition allows :: "'n net_api \<Rightarrow> 'n access_control \<Rightarrow> ip_addr \<Rightarrow> bool" where
  "allows N ac ip =
     (if list_ex (\<lambda>net. net_contains N net ip) (ac_deny ac) then False
      else if ac_allow ac \<noteq> [] \<and> \<not> list_ex (\<lambda>net. net_contains N net ip) (ac_allow ac) then False
      else True)"

subsection \<open>Meaning of an entry\<close>

definition net_api_ok :: "'n net_api \<Rightarrow> bool" where
  "net_api_ok N = (\<forall>ip. \<exists>net. net_new N ip (if is_ipv4 ip then 32 else 128) = Some net \<and>
     (\<forall>q. net_contains N net q = (q = ip)))"

definition entry_valid :: "'n net_api \<Rightarrow> string \<Rightarrow> bool" where
  "entry_valid N e = (net_parse N e \<noteq> None \<or> parse_ip e \<noteq> None)"

text \<open>A client is covered by an entry that is a block containing it, or is its very address.\<close>

definition covers :: "'n net_api \<Rightarrow> ip_addr \<Rightarrow> string \<Rightarrow> bool" where
  "covers N q e = (case net_parse N e of Some net \<Rightarrow> net_contains N net q | None \<Rightarrow> parse_ip e = Some q)"

lemma parse_net_Inr:
  assumes "net_api_ok N" and "parse_net N e = Inr net"
  shows "entry_valid N e" and "net_contains N net q = covers N q e"
proof -
  show "entry_valid N e"
    using assms(2) by (auto simp: parse_net_def entry_valid_def split: option.splits)
  show "net_contains N net q = covers N q e"
  proof (cases "net_parse N e")
    case None
    with assms(2) obtain ip where ip: "parse_ip e = Some ip"
      "net_new N ip (if is_ipv4 ip then 32 else 128) = Some net"
      by (auto simp: parse_net_def Let_def split: option.splits)
    then have "net_contains N net q = (q = ip)"
      using assms(1) unfolding net_api_ok_def by (metis option.inject)
    with ip None show ?thesis by (auto simp: covers_def)
  qed (use assms(2) in \<open>simp add: parse_net_def covers_def\<close>)
qed

lemma parse_net_Inl:
  assumes "net_api_ok N"
  shows "parse_net N e = Inl bad \<longleftrightarrow> bad = e \<and> \<not> entry_valid N e"
proof (cases "net_parse N e")
  case None
  show ?thesis
  proof (cases "parse_ip e")
    case (Some ip)
    obtain net where "net_new N ip (if is_ipv4 ip then 32 else 128) = Some net"
      using assms unfolding net_api_ok_def by blast
    with None Some show ?thesis by (simp add: parse_net_def entry_valid_def)
  qed (use None in \<open>auto simp: parse_net_def entry_valid_def\<close>)
qed (simp add: parse_net_def entry_valid_def)

lemma parse_nets_Inr:
  assumes "net_api_ok N" and "parse_nets N es = Inr nets"
  shows "list_ex (\<lambda>net. net_contains N net q) nets = list_ex (covers N q) es"
    and "nets = [] \<longleftrightarrow> es = []"
  using assms(2)
  by (induction es arbitrary: nets) (auto split: sum.splits simp: parse_net_Inr [OF assms(1)])

lemma parse_nets_Inl:
  assumes "net_api_ok N"
  shows "parse_nets N es = Inl bad \<longleftrightarrow> find (\<lambda>e. \<not> entry_valid N e) es = Some bad"
proof (induction es)
  case (Cons e es)
  show ?case
  proof (cases "parse_net N e")
    case (Inl b)
    with parse_net_Inl [OF assms, of e b] show ?thesis by simp
  next
    case (Inr net)
    with parse_net_Inr(1) [OF assms Inr] Cons show ?thesis by (auto split: sum.splits)
  qed
qed simp

lemma find_append: "find P (xs @ ys) = (case find P xs of None \<Rightarrow> find P ys | Some x \<Rightarrow> Some x)"
  by (induction xs) auto

subsection \<open>Properties\<close>

text \<open>
  Parsing accepts the lists exactly when every entry is a block or an address, and otherwise
  reports the first offending entry, allow entries first.
\<close>

theorem access_parse_first_error:
  assumes "net_api_ok N"
  shows "access_parse N allow deny = Inl bad \<longleftrightarrow>
     find (\<lambda>e. \<not> entry_valid N e) (allow @ deny) = Some bad"
proof (cases "parse_nets N allow")
  case (Inl b)
  then have "find (\<lambda>e. \<not> entry_valid N e) allow = Some b"
    by (simp add: parse_nets_Inl [OF assms])
  with Inl show ?thesis by (simp add: access_parse_def find_append)
next
  case (Inr a)
  then have "find (\<lambda>e. \<not> entry_valid N e) allow = None"
    using parse_nets_Inl [OF assms, of allow] by (cases "find (\<lambda>e. \<not> entry_valid N e) allow") auto
  then have "find (\<lambda>e. \<not> entry_valid N e) (allow @ deny) = Some bad \<longleftrightarrow> parse_nets N deny = Inl bad"
    by (simp add: find_append parse_nets_Inl [OF assms])
  with Inr show ?thesis by (auto simp: access_parse_def split: sum.split)
qed

text \<open>A concrete \<open>IpNet\<close>: an address and a prefix length, compared on the leading bits.\<close>

definition ip_val :: "ip_addr \<Rightarrow> int" where
  "ip_val ip =
     (case ip of V4 os \<Rightarrow> fold (\<lambda>n acc. 256 * acc + n) os 0
      | V6 gs \<Rightarrow> fold (\<lambda>n acc. 65536 * acc + n) gs 0)"

definition cidr_contains :: "ip_addr \<times> nat \<Rightarrow> ip_addr \<Rightarrow> bool" where
  "cidr_contains net q =
     (case net of (a, p) \<Rightarrow>
        let w = (if is_ipv4 a then 32 else 128)
        in if p = w then q = a
           else is_ipv4 a = is_ipv4 q \<and> ip_val a div 2 ^ (w - p) = ip_val q div 2 ^ (w - p))"

definition cidr_parse :: "string \<Rightarrow> (ip_addr \<times> nat) option" where
  "cidr_parse s =
     (case split_on CHR ''/'' s of
        [a, p] \<Rightarrow>
          (case (parse_ip a, parse_uint 8 p) of
             (Some ip, Some n) \<Rightarrow> if n \<le> (if is_ipv4 ip then 32 else 128) then Some (ip, n) else None
           | _ \<Rightarrow> None)
      | _ \<Rightarrow> None)"

definition cidr :: "(ip_addr \<times> nat) net_api" where
  "cidr = \<lparr>net_parse = cidr_parse,
     net_new = (\<lambda>ip p. if p \<le> (if is_ipv4 ip then 32 else 128) then Some (ip, p) else None),
     net_contains = cidr_contains\<rparr>"

lemma cidr_ok: "net_api_ok cidr"
  by (auto simp: net_api_ok_def cidr_def cidr_contains_def)

theorem access_parse_first_error_witness:
  "access_parse cidr [''10.0.0.0/8'', ''10.0.0.1''] [''not-an-ip'', ''x''] = Inl ''not-an-ip''"
  by (simp only: access_parse_first_error [OF cidr_ok]) code_simp

text \<open>
  C25. Once the lists are parsed, a client is refused exactly when a deny entry covers it, or when
  there are allow entries and none of them covers it; deny takes precedence over allow.
\<close>

theorem access_decision:
  assumes "net_api_ok N" and "access_parse N allow deny = Inr ac"
  shows "allows N ac q \<longleftrightarrow>
     \<not> list_ex (covers N q) deny \<and> (allow = [] \<or> list_ex (covers N q) allow)"
proof -
  obtain a d where p: "parse_nets N allow = Inr a" "parse_nets N deny = Inr d"
    "ac = \<lparr>ac_allow = a, ac_deny = d\<rparr>"
    using assms(2) by (auto simp: access_parse_def split: sum.splits)
  show ?thesis
    using parse_nets_Inr(1) [OF assms(1) p(1), of q] parse_nets_Inr(2) [OF assms(1) p(1)]
      parse_nets_Inr(1) [OF assms(1) p(2), of q] p(3)
    by (simp add: allows_def)
qed

definition demo_ac :: "(ip_addr \<times> nat) access_control" where
  "demo_ac = \<lparr>ac_allow = [(V4 [10, 0, 0, 0], 8)], ac_deny = [(V4 [10, 0, 0, 5], 32)]\<rparr>"

theorem access_decision_witness:
  "allows cidr demo_ac (V4 [10, 0, 0, 6]) \<and> \<not> allows cidr demo_ac (V4 [10, 0, 0, 5])
   \<and> \<not> allows cidr demo_ac (V4 [11, 0, 0, 1])"
proof -
  have p: "access_parse cidr [''10.0.0.0/8''] [''10.0.0.5''] = Inr demo_ac" by code_simp
  have "list_ex (covers cidr (V4 [10, 0, 0, 6])) [''10.0.0.0/8'']"
    "\<not> list_ex (covers cidr (V4 [10, 0, 0, 6])) [''10.0.0.5'']"
    "list_ex (covers cidr (V4 [10, 0, 0, 5])) [''10.0.0.5'']"
    "\<not> list_ex (covers cidr (V4 [11, 0, 0, 1])) [''10.0.0.0/8'']"
    by code_simp+
  then show ?thesis using access_decision [OF cidr_ok p] by simp
qed

end
