(* ===== verification/Http.thy ===== *)
theory Http
  imports Router Access CachePolicy
begin

section \<open>Requests and header maps as the proxy sees them\<close>

text \<open>
  The view of a request that the proxy code takes through Pingora and the \<open>http\<close> crate, and the two
  ways it edits a response's or request's headers.  Header names in a request are lower case, and
  a value is absent where \<open>to_str\<close> fails (it is not visible ASCII).  Whether a name and a value make a
  valid header is the crate's decision, so it is a parameter; the code ignores the error.
\<close>

record request =
  rq_method :: string
  rq_path :: string
  rq_query :: "string option"
  rq_path_and_query :: "string option"
  rq_headers :: "(string \<times> string option) list"
  rq_client :: "(ip_addr \<times> string) option"     \<comment> \<open>the client's address and its text\<close>
  rq_body :: "bytes list"                        \<comment> \<open>the chunks that arrive\<close>
  rq_body_fails :: bool                          \<comment> \<open>reading fails after them\<close>

definition hget :: "(string \<times> string option) list \<Rightarrow> string \<Rightarrow> string option" where
  "hget hs name = (case List.find (\<lambda>h. fst h = name) hs of None \<Rightarrow> None | Some h \<Rightarrow> snd h)"

definition hhas :: "(string \<times> string option) list \<Rightarrow> string \<Rightarrow> bool" where
  "hhas hs name = list_ex (\<lambda>h. fst h = name) hs"

text \<open>The visible headers, as owned pairs.\<close>

definition visible :: "(string \<times> string option) list \<Rightarrow> headers" where
  "visible hs = List.map_filter (\<lambda>(name, v). map_option (Pair name) v) hs"

text \<open>\<open>headers.get("host")...map(|value| value.split(':').next().unwrap_or(value))\<close>\<close>

definition host_name :: "request \<Rightarrow> string option" where
  "host_name req = map_option (\<lambda>v. first_piece CHR '':'' v v) (hget (rq_headers req) ''host'')"

definition target_text :: "request \<Rightarrow> string" where
  "target_text req = (case rq_path_and_query req of None \<Rightarrow> ''/'' | Some pq \<Rightarrow> pq)"

definition client_text :: "request \<Rightarrow> string" where
  "client_text req = (case rq_client req of None \<Rightarrow> [] | Some (_, s) \<Rightarrow> s)"

definition content_length :: "request \<Rightarrow> nat option" where
  "content_length req =
     (case hget (rq_headers req) ''content-length'' of None \<Rightarrow> None | Some v \<Rightarrow> parse_uint 64 v)"

subsection \<open>Editing headers\<close>

type_synonym header_check = "string \<Rightarrow> string \<Rightarrow> bool"

definition insert_header :: "header_check \<Rightarrow> string \<Rightarrow> string \<Rightarrow> headers \<Rightarrow> headers" where
  "insert_header valid name v hs =
     (if valid name v then filter (\<lambda>h. \<not> eq_ignore_ascii_case (fst h) name) hs @ [(name, v)] else hs)"

definition append_header :: "header_check \<Rightarrow> string \<Rightarrow> string \<Rightarrow> headers \<Rightarrow> headers" where
  "append_header valid name v hs = (if valid name v then hs @ [(name, v)] else hs)"

definition insert_all :: "header_check \<Rightarrow> headers \<Rightarrow> headers \<Rightarrow> headers" where
  "insert_all valid new hs = fold (\<lambda>(name, v) hs. insert_header valid name v hs) new hs"

definition append_all :: "header_check \<Rightarrow> headers \<Rightarrow> headers \<Rightarrow> headers" where
  "append_all valid new hs = fold (\<lambda>(name, v) hs. append_header valid name v hs) new hs"

definition values_of :: "headers \<Rightarrow> string \<Rightarrow> string list" where
  "values_of hs name = map snd (filter (\<lambda>h. eq_ignore_ascii_case (fst h) name) hs)"

named_theorems hdr_simps \<open>the values of a header after an edit\<close>

lemma values_of_append [hdr_simps]: "values_of (xs @ ys) name = values_of xs name @ values_of ys name"
  by (simp add: values_of_def)

lemma values_of_insert [hdr_simps]:
  "values_of (insert_header valid n v hs) name =
     (if valid n v \<and> eq_ignore_ascii_case n name then [v] else values_of hs name)"
proof (cases "valid n v")
  case valid: True
  show ?thesis
  proof (cases "eq_ignore_ascii_case n name")
    case True
    then have "eq_ignore_ascii_case x name \<longleftrightarrow> eq_ignore_ascii_case x n" for x
      by (simp add: eq_ignore_ascii_case_def)
    with valid True show ?thesis by (simp add: values_of_def insert_header_def filter_empty_conv)
  next
    case False
    then have "eq_ignore_ascii_case x name \<Longrightarrow> \<not> eq_ignore_ascii_case x n" for x
      by (simp add: eq_ignore_ascii_case_def)
    then have "filter (\<lambda>h. \<not> eq_ignore_ascii_case (fst h) n \<and> eq_ignore_ascii_case (fst h) name) hs
        = filter (\<lambda>h. eq_ignore_ascii_case (fst h) name) hs"
      by (intro filter_cong) auto
    with valid False show ?thesis by (simp add: values_of_def insert_header_def conj_commute)
  qed
qed (simp add: insert_header_def)

text \<open>Inserting a list of headers: the last valid one of a name decides, if there is one.\<close>

definition decisive :: "header_check \<Rightarrow> headers \<Rightarrow> string \<Rightarrow> string option" where
  "decisive valid new name =
     map_option snd (List.find (\<lambda>h. valid (fst h) (snd h) \<and> eq_ignore_ascii_case (fst h) name) (rev new))"

lemma values_of_insert_all [hdr_simps]:
  "values_of (insert_all valid new hs) name =
     (case decisive valid new name of Some v \<Rightarrow> [v] | None \<Rightarrow> values_of hs name)"
proof (induction new rule: rev_induct)
  case (snoc h new)
  obtain n v where h: "h = (n, v)" by fastforce
  show ?case
    using snoc.IH h by (simp add: insert_all_def decisive_def values_of_insert)
qed (simp add: insert_all_def decisive_def)

end
