(* ===== verification/RateLimit.thy ===== *)
theory RateLimit
  imports Prelude
begin

section \<open>Rate limiting: \<^verbatim>\<open>crates/zaphyl-core/src/ratelimit.rs\<close>\<close>

text \<open>
  The fixed-window limiter.  The mutex makes every \<open>check\<close> atomic, so the limiter is its map of
  windows passed from call to call, and concurrent callers are an arbitrary sequence of calls.
  Times are \<open>u64\<close> milliseconds with saturating subtraction, counts are \<open>u32\<close>.
\<close>

record window =
  w_start_ms :: u64
  w_count :: u32

record rate_limiter =
  rl_window_ms :: u64
  rl_max :: u32
  rl_windows :: "string \<rightharpoonup> window"

definition rate_limiter_new :: "u64 \<Rightarrow> u32 \<Rightarrow> rate_limiter" where
  "rate_limiter_new window_ms max_events =
     \<lparr>rl_window_ms = window_ms, rl_max = max_events, rl_windows = Map.empty\<rparr>"

definition check :: "rate_limiter \<Rightarrow> string \<Rightarrow> u64 \<Rightarrow> rate_limiter \<times> bool" where
  "check l key now_ms =
     (let w = (case rl_windows l key of Some w \<Rightarrow> w | None \<Rightarrow> \<lparr>w_start_ms = now_ms, w_count = 0\<rparr>);
          w = (if rl_window_ms l \<le> saturating_sub now_ms (w_start_ms w)
               then w\<lparr>w_start_ms := now_ms, w_count := 0\<rparr> else w)
      in if w_count w < rl_max l
         then (l\<lparr>rl_windows := (rl_windows l)(key \<mapsto> w\<lparr>w_count := w_count w + 1\<rparr>)\<rparr>, True)
         else (l\<lparr>rl_windows := (rl_windows l)(key \<mapsto> w)\<rparr>, False))"

subsection \<open>Keyed decisions: the limiter's contract\<close>

text \<open>
  The answers that a sequence of calls gives to one key.
\<close>

fun decisions :: "('s \<Rightarrow> 'k \<Rightarrow> 't \<Rightarrow> 's \<times> bool) \<Rightarrow> 's \<Rightarrow> ('k \<times> 't) list \<Rightarrow> 'k \<Rightarrow> bool list" where
  "decisions f s [] k = []"
| "decisions f s ((k', t) # evs) k =
     (let (s', b) = f s k' t in (if k' = k then [b] else []) @ decisions f s' evs k)"

locale keyed_limiter =
  fixes check_key :: "'s \<Rightarrow> 'k \<Rightarrow> 't \<Rightarrow> 's \<times> bool"
    and view :: "'s \<Rightarrow> 'k \<Rightarrow> 'v"
  assumes view_other: "k' \<noteq> k \<Longrightarrow> view (fst (check_key s k' t)) k = view s k"
    and view_local: "view s k = view s' k \<Longrightarrow>
      snd (check_key s k t) = snd (check_key s' k t) \<and>
      view (fst (check_key s k t)) k = view (fst (check_key s' k t)) k"
begin

text \<open>A key's answers depend on its own calls alone.\<close>

lemma decisions_own:
  "view s k = view s' k \<Longrightarrow>
    decisions check_key s evs k = decisions check_key s' (filter (\<lambda>e. fst e = k) evs) k"
proof (induction evs arbitrary: s s')
  case (Cons e evs)
  obtain k' t where e: "e = (k', t)" by fastforce
  show ?case
  proof (cases "k' = k")
    case True
    have "snd (check_key s k t) = snd (check_key s' k t)"
      and "view (fst (check_key s k t)) k = view (fst (check_key s' k t)) k"
      using view_local [OF Cons.prems] by simp_all
    with True e Cons.IH [of "fst (check_key s k t)" "fst (check_key s' k t)"]
    show ?thesis by (auto split: prod.splits)
  next
    case False
    have "view (fst (check_key s k' t)) k = view s' k"
      using view_other [OF False] Cons.prems by simp
    with False e Cons.IH [of "fst (check_key s k' t)" s'] show ?thesis
      by (auto split: prod.splits)
  qed
qed simp

end

definition key_view :: "rate_limiter \<Rightarrow> string \<Rightarrow> u64 \<times> u32 \<times> window option" where
  "key_view l k = (rl_window_ms l, rl_max l, rl_windows l k)"

interpretation rl: keyed_limiter check key_view
  by unfold_locales (auto simp: check_def key_view_def Let_def split: option.splits)

subsection \<open>Lemmas\<close>

lemma check_config [simp]:
  "rl_window_ms (fst (check l k t)) = rl_window_ms l"
  "rl_max (fst (check l k t)) = rl_max l"
  by (simp_all add: check_def Let_def)

text \<open>No window has counted more than the maximum.\<close>

definition rl_inv :: "rate_limiter \<Rightarrow> bool" where
  "rl_inv l = (\<forall>k w. rl_windows l k = Some w \<longrightarrow> w_count w \<le> rl_max l)"

lemma inc_le: "c < (m :: u32) \<Longrightarrow> c + 1 \<le> m \<and> unat (c + 1) = unat c + 1"
proof -
  assume "c < m"
  then have "unat c < unat m" by (simp add: word_less_nat_alt)
  moreover have "unat m < 2 ^ 32" using unsigned_less [of m, where 'a = nat] by simp
  ultimately have "unat (c + 1) = unat c + 1" by (intro unat_plus_one) simp
  with \<open>unat c < unat m\<close> show ?thesis by (simp add: word_le_nat_alt)
qed

lemma rl_inv_new: "rl_inv (rate_limiter_new w m)"
  by (simp add: rl_inv_def rate_limiter_new_def)

lemma rl_inv_check: "rl_inv l \<Longrightarrow> rl_inv (fst (check l k t))"
proof -
  assume inv: "rl_inv l"
  have one: "c + 1 \<le> rl_max l" if "c < rl_max l" for c using inc_le [OF that] by simp
  have pos: "1 \<le> rl_max l" if "0 < rl_max l" using one [OF that] by simp
  have le: "w_count w \<le> rl_max l" if "rl_windows l j = Some w" for j w
    using inv that by (simp add: rl_inv_def)
  show ?thesis
    using one pos le
    by (cases "rl_windows l k") (auto simp: rl_inv_def check_def Let_def)
qed

lemma window_eta [simp]: "w\<lparr>w_start_ms := s, w_count := c\<rparr> = \<lparr>w_start_ms = s, w_count = c\<rparr>"
  by (cases w) simp

text \<open>One call on a key with a live window (\<open>now\<close> before its end) and on an expired one.\<close>

definition live :: "rate_limiter \<Rightarrow> u64 \<Rightarrow> window \<Rightarrow> bool" where
  "live l t w = (unat t - unat (w_start_ms w) < unat (rl_window_ms l))"

lemma check_live:
  assumes "rl_windows l k = Some w" and "live l t w"
  shows "check l k t =
     (if w_count w < rl_max l
      then (l\<lparr>rl_windows := (rl_windows l)(k \<mapsto> w\<lparr>w_count := w_count w + 1\<rparr>)\<rparr>, True)
      else (l\<lparr>rl_windows := (rl_windows l)(k \<mapsto> w)\<rparr>, False))"
  using assms by (simp add: check_def live_def word_le_nat_alt)

lemma check_reset:
  assumes "case rl_windows l k of None \<Rightarrow> True | Some w \<Rightarrow> \<not> live l t w"
  shows "check l k t =
     (if 0 < rl_max l
      then (l\<lparr>rl_windows := (rl_windows l)(k \<mapsto> \<lparr>w_start_ms = t, w_count = 1\<rparr>)\<rparr>, True)
      else (l\<lparr>rl_windows := (rl_windows l)(k \<mapsto> \<lparr>w_start_ms = t, w_count = 0\<rparr>)\<rparr>, False))"
  using assms
  by (auto simp: check_def live_def word_le_nat_alt Let_def split: option.splits)

text \<open>The answers to one key's calls while its window is live.\<close>

lemma decisions_live:
  assumes "rl_windows l k = Some w" and "w_count w \<le> rl_max l" and "list_all (\<lambda>t. live l t w) ts"
  shows "decisions check l (map (Pair k) ts) k
     = map (\<lambda>i. unat (w_count w) + i < unat (rl_max l)) [0..<length ts]"
  using assms
proof (induction ts arbitrary: l w)
  case (Cons t ts)
  show ?case
  proof (cases "w_count w < rl_max l")
    case True
    define w' where "w' = w\<lparr>w_count := w_count w + 1\<rparr>"
    define l' where "l' = l\<lparr>rl_windows := (rl_windows l)(k \<mapsto> w')\<rparr>"
    have c: "check l k t = (l', True)"
      using Cons.prems True by (simp add: check_live l'_def w'_def)
    have inc: "w_count w + 1 \<le> rl_max l" "unat (w_count w') = unat (w_count w) + 1"
      using inc_le [OF True] by (simp_all add: w'_def)
    have "decisions check l' (map (Pair k) ts) k
        = map (\<lambda>i. unat (w_count w') + i < unat (rl_max l')) [0..<length ts]"
      using Cons.prems inc by (intro Cons.IH) (auto simp: l'_def w'_def live_def list_all_iff)
    with c True inc show ?thesis
      by (simp del: upt_Suc add: map_upt_Suc l'_def word_less_nat_alt)
  next
    case False
    then have full: "unat (rl_max l) = unat (w_count w)"
      using Cons.prems by (simp add: word_le_nat_alt word_less_nat_alt)
    have c: "check l k t = (l, False)"
      using Cons.prems False by (simp add: check_live fun_upd_idem)
    with Cons full show ?thesis by (simp del: upt_Suc add: map_upt_Suc)
  qed
qed simp

lemma decisions_reset:
  assumes "case rl_windows l k of None \<Rightarrow> True | Some w \<Rightarrow> \<not> live l t w"
    and "list_all (\<lambda>u. unat u - unat t < unat (rl_window_ms l)) ts"
  shows "decisions check l (map (Pair k) (t # ts)) k
     = map (\<lambda>i. i < unat (rl_max l)) [0..<Suc (length ts)]"
proof (cases "0 < rl_max l")
  case True
  define w where "w = \<lparr>w_start_ms = t, w_count = (1 :: u32)\<rparr>"
  define l' where "l' = l\<lparr>rl_windows := (rl_windows l)(k \<mapsto> w)\<rparr>"
  have c: "check l k t = (l', True)" using True assms(1) by (simp add: check_reset l'_def w_def)
  have pos: "0 < unat (rl_max l)" using True by (simp add: word_less_nat_alt)
  have "decisions check l' (map (Pair k) ts) k
      = map (\<lambda>i. unat (w_count w) + i < unat (rl_max l')) [0..<length ts]"
    using assms(2) True inc_le [OF True]
    by (intro decisions_live) (auto simp: l'_def w_def live_def list_all_iff)
  with c pos show ?thesis by (simp del: upt_Suc add: map_upt_Suc l'_def w_def)
next
  case False
  then have z: "rl_max l = 0" by (simp add: word_neq_0_conv [symmetric])
  define w where "w = \<lparr>w_start_ms = t, w_count = (0 :: u32)\<rparr>"
  define l' where "l' = l\<lparr>rl_windows := (rl_windows l)(k \<mapsto> w)\<rparr>"
  have c: "check l k t = (l', False)" using z assms(1) by (simp add: check_reset l'_def w_def)
  have "decisions check l' (map (Pair k) ts) k
      = map (\<lambda>i. unat (w_count w) + i < unat (rl_max l')) [0..<length ts]"
    using assms(2) by (intro decisions_live) (auto simp: l'_def w_def live_def list_all_iff)
  with c z show ?thesis by (simp del: upt_Suc add: map_upt_Suc l'_def w_def)
qed

lemma own_calls: "filter (\<lambda>e. fst e = k) evs = map (Pair k) (map snd (filter (\<lambda>e. fst e = k) evs))"
  by (induction evs) auto

definition calls_of :: "string \<Rightarrow> (string \<times> u64) list \<Rightarrow> u64 list" where
  "calls_of k evs = map snd (filter (\<lambda>e. fst e = k) evs)"

lemma decisions_calls:
  "decisions check l evs k = decisions check l (map (Pair k) (calls_of k evs)) k"
  using rl.decisions_own [of l k l evs] own_calls [of k evs] by (simp add: calls_of_def)

text \<open>
  C0. Exactness: for a key seen for the first time, the calls made while the window it opens is
  live are answered yes exactly for the first \<open>max\<close> of them, whatever the other keys do in
  between.
\<close>

theorem rate_limit_exact:
  assumes "rl_windows l k = None" and "calls_of k evs = t # ts"
    and "list_all (\<lambda>u. unat u - unat t < unat (rl_window_ms l)) ts"
  shows "decisions check l evs k = map (\<lambda>i. i < unat (rl_max l)) [0..<length (calls_of k evs)]"
  unfolding decisions_calls [of l evs k]
  using decisions_reset [where l = l and k = k and t = t and ts = ts] assms by simp

definition two_clients :: "(string \<times> u64) list" where
  "two_clients = [(''a'', 0), (''b'', 10), (''a'', 100), (''b'', 10), (''a'', 999)]"

theorem rate_limit_exact_witness:
  "decisions check (rate_limiter_new 1000 2) two_clients ''a'' = [True, True, False]"
proof -
  have "decisions check (rate_limiter_new 1000 2) two_clients ''a''
     = map (\<lambda>i. i < unat (rl_max (rate_limiter_new 1000 2)))
         [0..<length (calls_of ''a'' two_clients)]"
    by (rule rate_limit_exact [where t = 0 and ts = "[100, 999]"])
      (simp_all add: rate_limiter_new_def two_clients_def calls_of_def)
  then show ?thesis by (simp add: rate_limiter_new_def two_clients_def calls_of_def upt_rec)
qed

text \<open>
  What a key can still be granted within one window length after the time \<open>a\<close>.
\<close>

definition allowance :: "rate_limiter \<Rightarrow> u64 \<Rightarrow> string \<Rightarrow> nat" where
  "allowance l a k =
     (case rl_windows l k of
        None \<Rightarrow> unat (rl_max l)
      | Some w \<Rightarrow> unat (rl_max l) - unat (w_count w)
          + (if unat a \<le> unat (w_start_ms w) then 0 else unat (rl_max l)))"

lemma allowance_step:
  assumes "unat a \<le> unat t" and "unat t < unat a + unat (rl_window_ms l)"
  shows "allowance (fst (check l k t)) a k + (if snd (check l k t) then 1 else 0) \<le> allowance l a k"
proof (cases "\<exists>w. rl_windows l k = Some w \<and> live l t w")
  case True
  then obtain w where w: "rl_windows l k = Some w" "live l t w" by blast
  show ?thesis
  proof (cases "w_count w < rl_max l")
    case True
    then have "unat (w_count w) < unat (rl_max l)" by (simp add: word_less_nat_alt)
    with True w inc_le [OF True] show ?thesis
      by (simp add: check_live allowance_def) arith
  qed (use w in \<open>simp add: check_live allowance_def\<close>)
next
  case False
  then have r: "case rl_windows l k of None \<Rightarrow> True | Some w \<Rightarrow> \<not> live l t w"
    by (auto split: option.split)
  have "\<not> unat a \<le> unat (w_start_ms w)" if "rl_windows l k = Some w" for w
    using r that assms by (auto simp: live_def)
  then have "unat (rl_max l) \<le> allowance l a k"
    by (auto simp: allowance_def split: option.split)
  moreover have "0 < unat (rl_max l)" if "0 < rl_max l" using that by (simp add: word_less_nat_alt)
  ultimately show ?thesis using assms(1) by (auto simp: check_reset [OF r] allowance_def)
qed

lemma decisions_allowance:
  assumes "list_all (\<lambda>t. unat a \<le> unat t \<and> unat t < unat a + unat (rl_window_ms l)) ts"
  shows "count_list (decisions check l (map (Pair k) ts) k) True \<le> allowance l a k"
  using assms
proof (induction ts arbitrary: l)
  case (Cons t ts)
  have "count_list (decisions check (fst (check l k t)) (map (Pair k) ts) k) True
      \<le> allowance (fst (check l k t)) a k"
    by (rule Cons.IH) (use Cons.prems in simp)
  with allowance_step [of a t l k] Cons.prems show ?case
    by (cases "check l k t") (simp split: if_splits)
qed simp

text \<open>
  C24. Whatever state the limiter is in and however the calls of the keys interleave, within any
  span shorter than the window a key is granted at most twice the maximum (the price of fixed
  windows: the end of one window and the start of the next); the clock need not even be monotone.
\<close>

theorem rate_limit_two_windows:
  fixes a :: u64
  assumes "list_all (\<lambda>t. unat a \<le> unat t \<and> unat t < unat a + unat (rl_window_ms l)) (calls_of k evs)"
  shows "count_list (decisions check l evs k) True \<le> 2 * unat (rl_max l)"
proof -
  have "allowance l a k \<le> 2 * unat (rl_max l)"
    by (auto simp: allowance_def split: option.split)
  with decisions_allowance [OF assms, of k] show ?thesis
    unfolding decisions_calls [of l evs k] by simp
qed

text \<open>The bound is reached: two events at the end of a window, two at the start of the next.\<close>

definition burst :: "(string \<times> u64) list" where
  "burst = [(''a'', 999), (''a'', 999), (''a'', 1000), (''a'', 1001), (''a'', 1002)]"

definition burst_state :: rate_limiter where
  "burst_state = fst (check (rate_limiter_new 1000 3) ''a'' 0)"

theorem rate_limit_two_windows_witness:
  "count_list (decisions check burst_state burst ''a'') True \<le> 2 * unat (rl_max burst_state)
   \<and> decisions check burst_state burst ''a'' = [True, True, True, True, True]"
proof
  have w: "rl_window_ms burst_state = 1000" by (simp add: burst_state_def rate_limiter_new_def)
  have "calls_of ''a'' burst = [999, 999, 1000, 1001, 1002]" by (simp add: burst_def calls_of_def)
  then show "count_list (decisions check burst_state burst ''a'') True
      \<le> 2 * unat (rl_max burst_state)"
    by (intro rate_limit_two_windows [of 999]) (simp add: w)
  show "decisions check burst_state burst ''a'' = [True, True, True, True, True]" by code_simp
qed

end
