(* ===== verification/Proxy.thy ===== *)
theory Proxy
  imports Http RateLimit CacheStore Plugins
begin

section \<open>The HTTP/1 and HTTP/2 proxy: \<^verbatim>\<open>crates/zaphyl/src/main.rs\<close>\<close>

text \<open>
  \<open>ZaphylProxy\<close> and its Pingora callbacks.  A callback is a function of the proxy's configuration
  (\<open>proxy\<close>), of the answers of the outside during the call (\<open>world\<close>: files, clock, upstream clients,
  crates), of the shared state (\<open>shared\<close>: router counters, limiter, cache, cache directory) and of the
  per-request context; what it writes to the client is a list of \<open>wire\<close> events.  Pingora calls the
  callbacks; forwarding the request and compressing are Pingora's.
\<close>

subsection \<open>State\<close>

record 'n proxy =
  px_net :: "'n net_api"
  px_access :: "'n access_control"
  px_response_headers :: headers
  px_tls_enabled :: bool
  px_alt_svc :: "string option"
  px_max_body :: "nat option"
  px_connect_timeout :: "nat option"
  px_read_timeout :: "nat option"
  px_compression :: "nat option"
  px_cache_max_body :: nat
  px_plugins :: "plugins option"

record shared =
  sh_router :: router
  sh_limiter :: "rate_limiter option"
  sh_cache :: "response_cache option"
  sh_dir :: dir

record world =
  w_health :: health
  w_decode :: "string \<Rightarrow> string option"
  w_fs :: fs
  w_read_file :: "string \<Rightarrow> bytes option"
  w_mime :: "string \<Rightarrow> string"
  w_valid :: header_check
  w_status_ok :: "nat \<Rightarrow> bool"
  w_client :: client
  w_env :: cache_env
  w_io :: disk_io
  w_now_ms :: u64
  w_now :: systime
  w_later :: systime
  w_accepts :: "nat option"

record request_ctx =
  cx_rewrite_path :: "string option"
  cx_body_seen :: nat
  cx_req_headers :: headers
  cx_resp_headers :: headers
  cx_cache_key :: "string option"
  cx_cache_ttl :: "nat option"
  cx_cache_status :: nat
  cx_cache_headers :: headers
  cx_cache_body :: bytes
  cx_cache_overflow :: bool

definition new_ctx :: request_ctx where
  "new_ctx = \<lparr>cx_rewrite_path = None, cx_body_seen = 0, cx_req_headers = [], cx_resp_headers = [],
     cx_cache_key = None, cx_cache_ttl = None, cx_cache_status = 0, cx_cache_headers = [],
     cx_cache_body = [], cx_cache_overflow = False\<rparr>"

datatype wire = RespHead nat headers bool | RespBody bytes bool | RespError nat

text \<open>
  How a filter ends: the response is written, the request goes on, or an error is returned to
  Pingora.
\<close>

datatype verdict = Handled "wire list" | Proceed | Aborted

subsection \<open>\<open>ZaphylProxy::new\<close> and \<open>build_router\<close>\<close>

definition proxy_new :: "config \<Rightarrow> bool \<Rightarrow> nat \<Rightarrow> 'n net_api \<Rightarrow> 'n access_control \<Rightarrow> plugins option \<Rightarrow> 'n proxy" where
  "proxy_new c tls_enabled http3_port N access ps =
     (let limit = (\<lambda>f. case cf_limits c of None \<Rightarrow> None | Some l \<Rightarrow> f l)
      in \<lparr>px_net = N, px_access = access, px_response_headers = cf_response_headers c,
          px_tls_enabled = tls_enabled,
          px_alt_svc = map_option (\<lambda>_. ''h3='' @ [CHR 0x22] @ '':'' @ show_nat http3_port @ [CHR 0x22]
             @ ''; ma=86400'') (cf_http3 c),
          px_max_body = limit lim_max_body, px_connect_timeout = limit lim_connect_timeout,
          px_read_timeout = limit lim_read_timeout, px_compression = cf_compression c,
          px_cache_max_body = (case cf_cache c of None \<Rightarrow> 0 | Some k \<Rightarrow> cc_max_body k),
          px_plugins = ps\<rparr>)"

definition limiter_new :: "config \<Rightarrow> rate_limiter option" where
  "limiter_new c = map_option (\<lambda>n. rate_limiter_new 1000 (of_nat n)) (cf_rate_limit c)"

fun build_targets :: "health \<Rightarrow> bool \<Rightarrow> bool \<Rightarrow> string list \<Rightarrow> health \<times> target list" where
  "build_targets h tls grpc [] = (h, [])"
| "build_targets h tls grpc (address # as) =
     (let sni = (case rsplit_once CHR '':'' address of Some (host, _) \<Rightarrow> host | None \<Rightarrow> []);
          (h, t) = target_new h address tls sni;
          (h, ts) = build_targets h tls grpc as
      in (h, with_h2 t grpc # ts))"

definition build_route :: "health \<Rightarrow> nat \<Rightarrow> route_config \<Rightarrow> health \<times> route" where
  "build_route h index r =
     (let (h, targets) = build_targets h (rcf_tls r) (rcf_grpc r) (rcf_upstream r);
          built = with_headers (with_strip_prefix (with_id (route_new (rcf_host r) (rcf_path r) targets)
                    index) (rcf_strip_prefix r)) (rcf_request_headers r) (rcf_response_headers r)
      in (h, case rcf_root r of None \<Rightarrow> built | Some root \<Rightarrow> with_static built (static_dir_new root)))"

fun build_routes :: "health \<Rightarrow> nat \<Rightarrow> route_config list \<Rightarrow> health \<times> router" where
  "build_routes h index [] = (h, [])"
| "build_routes h index (r # rs) =
     (let (h, built) = build_route h index r; (h, rest) = build_routes h (Suc index) rs
      in (h, built # rest))"

definition build_router :: "config \<Rightarrow> health \<times> router" where
  "build_router c = build_routes \<lparr>cells = (\<lambda>_. False), fresh = 0\<rparr> 0 (cf_routes c)"

subsection \<open>Answers written by the proxy itself\<close>

definition cache_hit_headers :: "header_check \<Rightarrow> cached_response \<Rightarrow> headers" where
  "cache_hit_headers valid hit =
     insert_header valid ''x-cache'' ''HIT''
       (insert_header valid ''content-length'' (show_nat (length (cr_body hit)))
         (insert_all valid (cr_headers hit) []))"

definition serve_cache_hit :: "world \<Rightarrow> cached_response \<Rightarrow> string option \<Rightarrow> verdict" where
  "serve_cache_hit W hit if_none_match =
     (case (if_none_match, etag hit) of
        (Some inm, Some et) \<Rightarrow>
          if if_none_match_satisfied inm et
          then Handled [RespHead 304
                 (insert_header (w_valid W) ''x-cache'' ''HIT'' (insert_header (w_valid W) ''etag'' et [])) True]
          else if \<not> w_status_ok W (unat (cr_status hit)) then Aborted
          else Handled [RespHead (unat (cr_status hit)) (cache_hit_headers (w_valid W) hit) False,
                        RespBody (cr_body hit) True]
      | _ \<Rightarrow>
          if \<not> w_status_ok W (unat (cr_status hit)) then Aborted
          else Handled [RespHead (unat (cr_status hit)) (cache_hit_headers (w_valid W) hit) False,
                        RespBody (cr_body hit) True])"

definition try_serve_static :: "world \<Rightarrow> router \<Rightarrow> request \<Rightarrow> verdict" where
  "try_serve_static W rt req =
     (case match_route rt (host_name req) (rq_path req) of
        None \<Rightarrow> Proceed
      | Some route \<Rightarrow>
          (case r_static_dir route of
             None \<Rightarrow> Proceed
           | Some static_dir \<Rightarrow>
               (let relative = (case rewrite_path route (rq_path req) of Some p \<Rightarrow> p | None \<Rightarrow> rq_path req)
                in case resolve (w_decode W) (w_fs W) static_dir relative of
                     None \<Rightarrow> Handled [RespError 404]
                   | Some file \<Rightarrow>
                       (case w_read_file W file of
                          None \<Rightarrow> Handled [RespError 404]
                        | Some contents \<Rightarrow>
                            Handled [RespHead 200
                              (insert_header (w_valid W) ''content-length'' (show_nat (length contents))
                                (insert_header (w_valid W) ''content-type'' (w_mime W file) [])) False,
                              RespBody contents True]))))"

text \<open>Reading the body into a buffer of at most \<open>max_body\<close> bytes.\<close>

datatype buffered = Buffered bytes | TooLarge | ReadFails

fun buffer_body :: "nat \<Rightarrow> bool \<Rightarrow> bytes \<Rightarrow> bytes list \<Rightarrow> buffered" where
  "buffer_body max_body fails body [] = (if fails then ReadFails else Buffered body)"
| "buffer_body max_body fails body (chunk # chunks) =
     (if max_body < length body + length chunk then TooLarge
      else buffer_body max_body fails (body @ chunk) chunks)"

text \<open>The chain, the target and the request of a plugin route; the target's counter advances.\<close>

definition plugin_match :: "plugins \<Rightarrow> health \<Rightarrow> router \<Rightarrow> request
    \<Rightarrow> router \<times> (plugin list \<times> target \<times> plugin_request \<times> headers) option" where
  "plugin_match ps h rt req =
     (case match_route rt (host_name req) (rq_path req) of
        None \<Rightarrow> (rt, None)
      | Some route \<Rightarrow>
          (case plugin_chain ps (r_id route) of
             None \<Rightarrow> (rt, None)
           | Some chain \<Rightarrow>
               (case next_target_for h rt (host_name req) (rq_path req) of
                  (rt, None) \<Rightarrow> (rt, None)
                | (rt, Some target) \<Rightarrow>
                    (rt, Some (chain, target,
                       \<lparr>pq_method = rq_method req, pq_path = target_text req,
                        pq_headers = visible (rq_headers req) @ r_request_headers route,
                        pq_body = [], pq_client_ip = []\<rparr>, r_response_headers route)))))"

definition plugin_head :: "header_check \<Rightarrow> plugin_response \<Rightarrow> headers \<Rightarrow> headers" where
  "plugin_head valid response resp_headers =
     insert_header valid ''content-length'' (show_nat (length (pr_body response)))
       (insert_all valid resp_headers (append_all valid (pr_headers response) []))"

definition try_run_plugins :: "'n proxy \<Rightarrow> world \<Rightarrow> router \<Rightarrow> request \<Rightarrow> router \<times> verdict" where
  "try_run_plugins P W rt req =
     (case px_plugins P of
        None \<Rightarrow> (rt, Proceed)
      | Some ps \<Rightarrow>
          (case plugin_match ps (w_health W) rt req of
             (rt, None) \<Rightarrow> (rt, Proceed)
           | (rt, Some (chain, target, prequest, resp_headers)) \<Rightarrow>
               if (case content_length req of None \<Rightarrow> False | Some len \<Rightarrow> ps_max_body ps < len)
               then (rt, Proceed)
               else (rt,
                 case buffer_body (ps_max_body ps) (rq_body_fails req) [] (rq_body req) of
                   TooLarge \<Rightarrow> Handled [RespError 413]
                 | ReadFails \<Rightarrow> Aborted
                 | Buffered body \<Rightarrow>
                     (case plugins_run ps (w_client W) chain
                             (prequest\<lparr>pq_body := body, pq_client_ip := client_text req\<rparr>)
                             (case hget (rq_headers req) ''host'' of None \<Rightarrow> [] | Some v \<Rightarrow> v) target of
                        None \<Rightarrow> Handled [RespError 502]
                      | Some response \<Rightarrow>
                          if \<not> w_status_ok W (pr_status response) then Aborted
                          else Handled [RespHead (pr_status response)
                                 (plugin_head (w_valid W) response resp_headers) False,
                               RespBody (pr_body response) True]))))"

subsection \<open>The cache in the request path\<close>

definition cache_request_key :: "request \<Rightarrow> (string \<times> string option \<times> string \<times> string) option" where
  "cache_request_key req =
     (let cc = hget (rq_headers req) ''cache-control'';
          has_auth = hhas (rq_headers req) ''authorization''
      in if request_cacheable (rq_method req) cc has_auth
         then (let host = (case host_name req of None \<Rightarrow> [] | Some h \<Rightarrow> h);
                   path_and_query = target_text req;
                   accept_encoding = hget (rq_headers req) ''accept-encoding'';
                   if_none_match = hget (rq_headers req) ''if-none-match'';
                   key = cache_key host path_and_query accept_encoding
               in Some (key, if_none_match, host, path_and_query))
         else None)"

definition store_entry :: "world \<Rightarrow> shared \<Rightarrow> response_cache \<Rightarrow> string \<Rightarrow> nat \<Rightarrow> cached_response \<Rightarrow> shared res" where
  "store_entry W S cache key ttl response =
     rbind (time_add_secs (w_later W) ttl) (\<lambda>expiry. Inr
       (let (d, cache) = cache_put (w_env W) (w_io W) (sh_dir S) cache key expiry response
        in S\<lparr>sh_dir := d, sh_cache := Some cache\<rparr>))"

definition revalidate_stale :: "'n proxy \<Rightarrow> world \<Rightarrow> shared \<Rightarrow> response_cache \<Rightarrow> cached_response \<Rightarrow> string
    \<Rightarrow> string option \<Rightarrow> string \<Rightarrow> string \<Rightarrow> request_ctx \<Rightarrow> (shared \<times> request_ctx \<times> verdict) res" where
  "revalidate_stale P W S cache hit key if_none_match host path_and_query ctx =
     (let path = first_piece CHR ''?'' path_and_query path_and_query;
          (rt, target) = next_target_for (w_health W) (sh_router S) (Some host) path;
          S = S\<lparr>sh_router := rt\<rparr>;
          miss = Inr (S, ctx\<lparr>cx_cache_key := Some key\<rparr>, Proceed)
      in case (etag hit, target) of
           (Some et, Some target) \<Rightarrow>
             (case revalidate (w_client W) target path_and_query host et (px_cache_max_body P) of
                NotModified \<Rightarrow>
                  rbind (store_entry W S cache key (case stored_ttl hit of Some t \<Rightarrow> t | None \<Rightarrow> 60) hit)
                    (\<lambda>S. Inr (S, ctx, serve_cache_hit W hit if_none_match))
              | Modified status hs body \<Rightarrow>
                  (let fresh = \<lparr>cr_status = of_nat status, cr_headers = hs, cr_body = body\<rparr>
                   in case stored_ttl fresh of
                        Some ttl \<Rightarrow> rbind (store_entry W S cache key ttl fresh)
                          (\<lambda>S. Inr (S, ctx, serve_cache_hit W fresh None))
                      | None \<Rightarrow> Inr (S, ctx, serve_cache_hit W fresh None))
              | Failed \<Rightarrow> miss)
         | _ \<Rightarrow> miss)"

definition cache_phase :: "'n proxy \<Rightarrow> world \<Rightarrow> shared \<Rightarrow> request \<Rightarrow> request_ctx
    \<Rightarrow> (shared \<times> request_ctx \<times> verdict) res" where
  "cache_phase P W S req ctx =
     (case sh_cache S of
        None \<Rightarrow> Inr (S, ctx, Proceed)
      | Some cache \<Rightarrow>
          (case cache_request_key req of
             None \<Rightarrow> Inr (S, ctx, Proceed)
           | Some (key, if_none_match, host, path_and_query) \<Rightarrow>
               rbind (cache_lookup (w_env W) (sh_dir S) cache key (w_now W)) (\<lambda>(cache, found).
                 let S = S\<lparr>sh_cache := Some cache\<rparr>
                 in case found of
                      Fresh hit \<Rightarrow> Inr (S, ctx, serve_cache_hit W hit if_none_match)
                    | Stale hit \<Rightarrow> revalidate_stale P W S cache hit key if_none_match host path_and_query ctx
                    | Miss \<Rightarrow> Inr (S, ctx\<lparr>cx_cache_key := Some key\<rparr>, Proceed))))"

subsection \<open>\<open>request_filter\<close>\<close>

definition denied :: "'n proxy \<Rightarrow> request \<Rightarrow> bool" where
  "denied P req =
     (\<not> access_is_empty (px_access P) \<and>
      (case rq_client req of None \<Rightarrow> False | Some (ip, _) \<Rightarrow> \<not> allows (px_net P) (px_access P) ip))"

definition limit_phase :: "world \<Rightarrow> shared \<Rightarrow> request \<Rightarrow> shared \<times> bool" where
  "limit_phase W S req =
     (case sh_limiter S of
        None \<Rightarrow> (S, True)
      | Some limiter \<Rightarrow>
          (let (limiter, ok) = check limiter (client_text req) (w_now_ms W)
           in (S\<lparr>sh_limiter := Some limiter\<rparr>, ok)))"

definition declared_too_large :: "'n proxy \<Rightarrow> request \<Rightarrow> bool" where
  "declared_too_large P req =
     (case (px_max_body P, content_length req) of (Some mx, Some len) \<Rightarrow> mx < len | _ \<Rightarrow> False)"

definition request_filter :: "'n proxy \<Rightarrow> world \<Rightarrow> shared \<Rightarrow> request \<Rightarrow> request_ctx
    \<Rightarrow> (shared \<times> request_ctx \<times> verdict) res" where
  "request_filter P W S req ctx =
     (if denied P req then Inr (S, ctx, Handled [RespError 403])
      else let (S, ok) = limit_phase W S req
           in if \<not> ok then Inr (S, ctx, Handled [RespError 429])
              else if declared_too_large P req then Inr (S, ctx, Handled [RespError 413])
              else case try_serve_static W (sh_router S) req of
                     Proceed \<Rightarrow>
                       (let (rt, v) = try_run_plugins P W (sh_router S) req;
                            S = S\<lparr>sh_router := rt\<rparr>
                        in case v of Proceed \<Rightarrow> cache_phase P W S req ctx | _ \<Rightarrow> Inr (S, ctx, v))
                   | v \<Rightarrow> Inr (S, ctx, v))"

subsection \<open>The other callbacks\<close>

text \<open>\<open>None\<close> is the error that aborts the request.\<close>

definition request_body_filter :: "'n proxy \<Rightarrow> bytes option \<Rightarrow> request_ctx \<Rightarrow> request_ctx option" where
  "request_body_filter P body ctx =
     (case (px_max_body P, body) of
        (Some mx, Some chunk) \<Rightarrow>
          (let ctx = ctx\<lparr>cx_body_seen := cx_body_seen ctx + length chunk\<rparr>
           in if mx < cx_body_seen ctx then None else Some ctx)
      | _ \<Rightarrow> Some ctx)"

record peer =
  pe_address :: string
  pe_tls :: bool
  pe_sni :: string
  pe_connection_timeout :: "nat option"
  pe_read_timeout :: "nat option"
  pe_h2 :: bool

definition upstream_peer :: "'n proxy \<Rightarrow> world \<Rightarrow> shared \<Rightarrow> request \<Rightarrow> request_ctx
    \<Rightarrow> shared \<times> request_ctx \<times> peer option" where
  "upstream_peer P W S req ctx =
     (let route = match_route (sh_router S) (host_name req) (rq_path req);
          (rt, target) = next_target_for (w_health W) (sh_router S) (host_name req) (rq_path req);
          S = S\<lparr>sh_router := rt\<rparr>
      in case target of
           Some target \<Rightarrow>
             (let ctx = (case route of
                           None \<Rightarrow> ctx
                         | Some route \<Rightarrow>
                             ctx\<lparr>cx_rewrite_path := rewrite_path route (rq_path req),
                                 cx_req_headers := r_request_headers route,
                                 cx_resp_headers := r_response_headers route\<rparr>)
              in (S, ctx, Some \<lparr>pe_address = t_address target, pe_tls = t_tls target, pe_sni = t_sni target,
                    pe_connection_timeout = px_connect_timeout P, pe_read_timeout = px_read_timeout P,
                    pe_h2 = t_h2 target\<rparr>))
         | None \<Rightarrow> (S, ctx, None))"

text \<open>The request as it is sent on: its target and headers.  \<open>uri_ok\<close> is whether the text parses.\<close>

definition upstream_request_filter :: "'n proxy \<Rightarrow> world \<Rightarrow> (string \<Rightarrow> bool) \<Rightarrow> request \<Rightarrow> request_ctx
    \<Rightarrow> string \<times> headers \<Rightarrow> string \<times> headers" where
  "upstream_request_filter P W uri_ok req ctx up =
     (let (uri, hs) = up;
          uri = (case cx_rewrite_path ctx of
                   None \<Rightarrow> uri
                 | Some new_path \<Rightarrow>
                     (let target = (case rq_query req of Some q \<Rightarrow> new_path @ ''?'' @ q | None \<Rightarrow> new_path)
                      in if uri_ok target then target else uri));
          hs = insert_all (w_valid W) (cx_req_headers ctx) hs;
          hs = (case rq_client req of
                  None \<Rightarrow> hs
                | Some (_, ip) \<Rightarrow> append_header (w_valid W) ''x-forwarded-for'' ip hs);
          hs = insert_header (w_valid W) ''x-forwarded-proto''
                 (if px_tls_enabled P then ''https'' else ''http'') hs
      in (uri, hs))"

definition response_filter :: "'n proxy \<Rightarrow> header_check \<Rightarrow> request_ctx \<Rightarrow> headers \<Rightarrow> headers" where
  "response_filter P valid ctx hs =
     (let hs = insert_all valid (px_response_headers P) hs;
          hs = insert_all valid (cx_resp_headers ctx) hs
      in case px_alt_svc P of None \<Rightarrow> hs | Some v \<Rightarrow> insert_header valid ''alt-svc'' v hs)"

definition upstream_response_filter :: "shared \<Rightarrow> nat \<Rightarrow> (string \<times> string option) list \<Rightarrow> request_ctx \<Rightarrow> request_ctx" where
  "upstream_response_filter S status hs ctx =
     (if sh_cache S \<noteq> None \<and> cx_cache_key ctx \<noteq> None
      then case response_ttl status (hget hs ''cache-control'') (hhas hs ''set-cookie'') (hget hs ''vary'') of
             Some ttl \<Rightarrow>
               ctx\<lparr>cx_cache_ttl := Some ttl, cx_cache_status := status,
                   cx_cache_headers := visible (filter (\<lambda>(name, _). \<not> is_uncacheable_header name) hs)\<rparr>
           | None \<Rightarrow> ctx\<lparr>cx_cache_key := None\<rparr>
      else ctx)"

definition upstream_response_body_filter :: "'n proxy \<Rightarrow> world \<Rightarrow> shared \<Rightarrow> bytes option \<Rightarrow> bool \<Rightarrow> request_ctx
    \<Rightarrow> (shared \<times> request_ctx) res" where
  "upstream_response_body_filter P W S body end_of_stream ctx =
     (case (sh_cache S, cx_cache_ttl ctx) of
        (Some cache, Some ttl) \<Rightarrow>
          if cx_cache_overflow ctx then Inr (S, ctx)
          else
            (let ctx = (case body of
                          None \<Rightarrow> ctx
                        | Some chunk \<Rightarrow>
                            if px_cache_max_body P < length (cx_cache_body ctx) + length chunk
                            then ctx\<lparr>cx_cache_overflow := True, cx_cache_body := []\<rparr>
                            else ctx\<lparr>cx_cache_body := cx_cache_body ctx @ chunk\<rparr>)
             in if end_of_stream \<and> \<not> cx_cache_overflow ctx
                then (case cx_cache_key ctx of
                        None \<Rightarrow> Inr (S, ctx)
                      | Some key \<Rightarrow>
                          rbind (store_entry W S cache key ttl
                              \<lparr>cr_status = of_nat (cx_cache_status ctx), cr_headers = cx_cache_headers ctx,
                               cr_body = cx_cache_body ctx\<rparr>)
                            (\<lambda>S. Inr (S, ctx\<lparr>cx_cache_key := None, cx_cache_headers := [],
                                            cx_cache_body := []\<rparr>)))
                else Inr (S, ctx))
      | _ \<Rightarrow> Inr (S, ctx))"

text \<open>\<open>fail_to_proxy\<close>: the status for an error's type and source; 0 writes nothing.\<close>

datatype error_type = HTTPStatus nat | ConnectTimedout | ReadTimedout | WriteTimedout | TLSHandshakeTimedout
  | WriteError | ReadError | ConnectionClosed | OtherError

datatype error_source = Upstream | Downstream | Internal | Unset

definition fail_code :: "error_type \<Rightarrow> error_source \<Rightarrow> nat" where
  "fail_code etype esource =
     (case etype of
        HTTPStatus code \<Rightarrow> code
      | ConnectTimedout \<Rightarrow> 504 | ReadTimedout \<Rightarrow> 504 | WriteTimedout \<Rightarrow> 504 | TLSHandshakeTimedout \<Rightarrow> 504
      | _ \<Rightarrow>
          (case esource of
             Upstream \<Rightarrow> 502
           | Downstream \<Rightarrow>
               (case etype of WriteError \<Rightarrow> 0 | ReadError \<Rightarrow> 0 | ConnectionClosed \<Rightarrow> 0 | _ \<Rightarrow> 400)
           | Internal \<Rightarrow> 500
           | Unset \<Rightarrow> 500))"

definition fail_to_proxy :: "error_type \<Rightarrow> error_source \<Rightarrow> wire list \<times> nat" where
  "fail_to_proxy etype esource =
     (let code = fail_code etype esource in (if 0 < code then [RespError code] else [], code))"

text \<open>The health prober's round: \<open>reachable\<close> is whether a connection to the address succeeds.\<close>

definition probe_round :: "(string \<Rightarrow> bool) \<Rightarrow> (string \<times> nat) list \<Rightarrow> health \<Rightarrow> health" where
  "probe_round reachable probes h = fold (\<lambda>(address, cell) h. store_health h cell (reachable address)) probes h"

end
