(* ===== verification/Encoding.thy ===== *)
theory Encoding
  imports Http
begin

section \<open>Content-coding negotiation: \<^verbatim>\<open>negotiate_encoding\<close> of \<^verbatim>\<open>crates/zaphyl/src/http3.rs\<close>\<close>

text \<open>
  The choice of the response coding on the HTTP/3 path, over the text of \<open>Accept-Encoding\<close>, and what it
  means for the structure of that header.  \<open>str::parse::<f32>\<close> is modelled as far as the code uses it: whether the
  text is a number that rounds to zero.
\<close>

subsection \<open>Does the text parse as an \<open>f32\<close> equal to zero?\<close>

definition is_digit :: "char \<Rightarrow> bool" where
  "is_digit c = (digit_val c \<noteq> None)"

definition digits_value :: "string \<Rightarrow> nat" where
  "digits_value ds = (case parse_digits 0 ds of None \<Rightarrow> 0 | Some n \<Rightarrow> n)"

definition unsign :: "string \<Rightarrow> bool \<times> string" where
  "unsign s = (case s of
     c # cs \<Rightarrow> if c = CHR ''-'' then (True, cs) else if c = CHR ''+'' then (False, cs) else (False, s)
   | [] \<Rightarrow> (False, []))"

definition exponent :: "string \<Rightarrow> int option" where
  "exponent s =
     (let (neg, ds) = unsign s
      in if ds = [] \<or> \<not> list_all is_digit ds then None
         else Some (if neg then - int (digits_value ds) else int (digits_value ds)))"

text \<open>\<open>m\<close> times ten to the \<open>e\<close> rounds to zero: at most half of the least positive \<open>f32\<close>, which is \<open>2 powr -149\<close>.\<close>

definition rounds_to_zero :: "nat \<Rightarrow> int \<Rightarrow> bool" where
  "rounds_to_zero m e = (if 0 \<le> e then m = 0 else m * 2 ^ 150 \<le> 10 ^ nat (- e))"

definition f32_is_zero :: "string \<Rightarrow> bool" where
  "f32_is_zero s =
     (let body = snd (unsign s);
          ip = takeWhile is_digit body;
          r = dropWhile is_digit body;
          (fp, r) = (case r of
              c # cs \<Rightarrow> if c = CHR ''.'' then (takeWhile is_digit cs, dropWhile is_digit cs) else ([], r)
            | [] \<Rightarrow> ([], []))
      in if ip = [] \<and> fp = [] then False
         else case (case r of
                      [] \<Rightarrow> Some 0
                    | c # cs \<Rightarrow> if c = CHR ''e'' \<or> c = CHR ''E'' then exponent cs else None) of
                None \<Rightarrow> False
              | Some x \<Rightarrow> rounds_to_zero (digits_value (ip @ fp)) (x - int (length fp)))"

subsection \<open>Negotiation\<close>

datatype encoding = Brotli | Zstd | Gzip

fun header_value :: "encoding \<Rightarrow> string" where
  "header_value Brotli = ''br''"
| "header_value Zstd = ''zstd''"
| "header_value Gzip = ''gzip''"

definition refuses :: "string \<Rightarrow> bool" where
  "refuses field =
     (let q = trim field
      in case (case strip_prefix ''q='' q of Some v \<Rightarrow> Some v | None \<Rightarrow> strip_prefix ''Q='' q) of
           None \<Rightarrow> False
         | Some v \<Rightarrow> f32_is_zero v)"

definition part_accepts :: "string \<Rightarrow> string \<Rightarrow> bool" where
  "part_accepts coding part =
     (case split_on CHR '';'' (trim part) of
        [] \<Rightarrow> False
      | name # params \<Rightarrow>
          if \<not> eq_ignore_ascii_case (trim name) coding then False else \<not> list_ex refuses params)"

definition accepts_coding :: "string \<Rightarrow> string \<Rightarrow> bool" where
  "accepts_coding header coding = list_ex (part_accepts coding) (split_on CHR '','' header)"

definition negotiate_encoding :: "(string \<times> string option) list \<Rightarrow> encoding option" where
  "negotiate_encoding hs =
     (case hget hs ''accept-encoding'' of
        None \<Rightarrow> None
      | Some header \<Rightarrow>
          map_option snd (List.find (\<lambda>(token, _). accepts_coding header token)
            [(''br'', Brotli), (''zstd'', Zstd), (''gzip'', Gzip)]))"

subsection \<open>The header as a list of weighted codings\<close>

text \<open>A weight as RFC 9110 writes it: \<open>0\<close> or \<open>1\<close>, with up to three decimals.\<close>

datatype weight = Unweighted | Zero string | One string

fun weight_text :: "weight \<Rightarrow> string" where
  "weight_text Unweighted = []"
| "weight_text (Zero ds) = '';q=0'' @ (if ds = [] then [] else CHR ''.'' # ds)"
| "weight_text (One ds) = '';q=1'' @ (if ds = [] then [] else CHR ''.'' # ds)"

fun weight_ok :: "weight \<Rightarrow> bool" where
  "weight_ok Unweighted = True"
| "weight_ok (Zero ds) = (length ds \<le> 3 \<and> list_all is_digit ds)"
| "weight_ok (One ds) = (length ds \<le> 3 \<and> list_all (\<lambda>c. c = CHR ''0'') ds)"

fun positive :: "weight \<Rightarrow> bool" where
  "positive Unweighted = True"
| "positive (Zero ds) = (\<not> list_all (\<lambda>c. c = CHR ''0'') ds)"
| "positive (One ds) = True"

type_synonym coding = "string \<times> weight"

definition coding_ok :: "coding \<Rightarrow> bool" where
  "coding_ok i = (element (fst i) \<and> CHR '';'' \<notin> set (fst i) \<and> weight_ok (snd i))"

definition coding_text :: "coding \<Rightarrow> string" where
  "coding_text i = fst i @ weight_text (snd i)"

lemma is_digit_range: "is_digit c \<longleftrightarrow> 48 \<le> byte_val c \<and> byte_val c \<le> 57"
  by (simp add: is_digit_def digit_val_def)

lemma is_digit_graphic: "is_digit c \<Longrightarrow> graphic c"
  by (simp add: is_digit_range graphic_def)

lemma parse_digits_zero:
  assumes "list_all is_digit ds"
  shows "\<exists>n. parse_digits a ds = Some n \<and> (n = 0 \<longleftrightarrow> a = 0 \<and> list_all (\<lambda>c. c = CHR ''0'') ds)"
  using assms
proof (induction ds arbitrary: a)
  case (Cons c ds)
  then obtain d where d: "digit_val c = Some d" by (auto simp: is_digit_def)
  have "byte_val (CHR ''0'') = (48 :: nat)" by simp
  then have "d = 0 \<longleftrightarrow> c = CHR ''0''"
    using d byte_val_inject [of c "CHR ''0''"] by (auto simp: digit_val_def split: if_splits)
  with d Cons.IH [of "10 * a + d"] Cons.prems show ?case by auto
qed simp

lemma rounds_to_zero_small:
  assumes "k \<le> 3"
  shows "rounds_to_zero m (- int k) \<longleftrightarrow> m = 0"
proof -
  have "(10 :: nat) ^ k \<le> 10 ^ 3" using assms by (intro power_increasing) simp_all
  then have "m = 0" if "m * 2 ^ 150 \<le> 10 ^ k" using that by (cases m) simp_all
  then show ?thesis by (auto simp: rounds_to_zero_def)
qed

lemma f32_is_zero_decimal:
  assumes "is_digit c" and "list_all is_digit ds" and "length ds \<le> 3"
  shows "f32_is_zero (c # (if ds = [] then [] else CHR ''.'' # ds))
     \<longleftrightarrow> c = CHR ''0'' \<and> list_all (\<lambda>c. c = CHR ''0'') ds"
proof -
  let ?s = "c # (if ds = [] then [] else CHR ''.'' # ds)"
  have "c \<noteq> CHR ''-''" "c \<noteq> CHR ''+''" using assms(1) by (auto simp: is_digit_range)
  then have u: "snd (unsign ?s) = ?s" by (simp add: unsign_def)
  have dot: "\<not> is_digit CHR ''.''" by (simp add: is_digit_range)
  have tw: "takeWhile is_digit ds = ds" "dropWhile is_digit ds = []"
    using assms(2) by (simp_all add: list_all_iff)
  have "f32_is_zero ?s \<longleftrightarrow> rounds_to_zero (digits_value (c # ds)) (- int (length ds))"
    unfolding f32_is_zero_def Let_def u using assms(1) dot by (cases "ds = []") (simp_all add: tw)
  also have "\<dots> \<longleftrightarrow> digits_value (c # ds) = 0" using assms(3) by (rule rounds_to_zero_small)
  also have "\<dots> \<longleftrightarrow> c = CHR ''0'' \<and> list_all (\<lambda>c. c = CHR ''0'') ds"
    using parse_digits_zero [of "c # ds" 0] assms(1,2) by (auto simp: digits_value_def)
  finally show ?thesis .
qed

lemma zeros_digits: "list_all (\<lambda>c. c = CHR ''0'') ds \<Longrightarrow> list_all is_digit ds"
  by (induction ds) (simp_all add: is_digit_range)

lemma digits_no: "list_all is_digit ds \<Longrightarrow> \<not> is_digit c \<Longrightarrow> c \<notin> set ds"
  by (auto simp: list_all_iff)

lemma weight_text_no_comma: "weight_ok w \<Longrightarrow> CHR '','' \<notin> set (weight_text w)"
proof -
  have d: "CHR '','' \<notin> set ds" if "list_all is_digit ds" for ds
    by (rule digits_no [OF that]) (simp add: is_digit_range)
  assume "weight_ok w"
  then show ?thesis
    by (cases w) (simp_all add: d zeros_digits)
qed

lemma digits_last: "list_all is_digit ds \<Longrightarrow> ds \<noteq> [] \<Longrightarrow> graphic (last ds)"
  by (simp add: list_all_iff is_digit_graphic)

lemma weight_text_last: "weight_ok w \<Longrightarrow> weight_text w = [] \<or> graphic (last (weight_text w))"
  by (cases w) (simp_all add: digits_last zeros_digits graphic_def [of "CHR ''0''"] graphic_def [of "CHR ''1''"])

lemmas weight_text_split = weight_text_no_comma weight_text_last

lemma element_coding: "coding_ok i \<Longrightarrow> element (coding_text i)"
  using weight_text_split [of "snd i"]
  by (cases "weight_text (snd i) = []") (simp_all add: coding_ok_def coding_text_def element_def)

lemma refuses_q:
  assumes "is_digit c" and "list_all is_digit ds" and "length ds \<le> 3"
  shows "refuses (''q='' @ c # (if ds = [] then [] else CHR ''.'' # ds))
     \<longleftrightarrow> c = CHR ''0'' \<and> list_all (\<lambda>c. c = CHR ''0'') ds"
proof -
  let ?v = "c # (if ds = [] then [] else CHR ''.'' # ds)"
  have "graphic (last ?v)"
    using assms(1,2) is_digit_graphic by (auto simp: list_all_iff)
  then have "trim (''q='' @ ?v) = ''q='' @ ?v" by (intro trim_id) (simp add: graphic_def)
  then have "refuses (''q='' @ ?v) \<longleftrightarrow> f32_is_zero ?v"
    unfolding refuses_def Let_def by (simp only: strip_prefix_append option.case)
  with f32_is_zero_decimal [OF assms] show ?thesis by simp
qed

lemma part_accepts_coding:
  assumes "coding_ok i"
  shows "part_accepts coding (coding_text i) \<longleftrightarrow> eq_ignore_ascii_case (fst i) coding \<and> positive (snd i)"
proof -
  have t: "trim (coding_text i) = coding_text i" "trim (fst i) = fst i"
    using element_coding [OF assms] assms by (simp_all add: coding_ok_def)
  have semi: "CHR '';'' \<notin> set (fst i)" and ok: "weight_ok (snd i)"
    using assms by (simp_all add: coding_ok_def)
  have nd: "\<not> is_digit CHR '';''" "is_digit CHR ''0''" "is_digit CHR ''1''" by (simp_all add: is_digit_range)
  have split: "split_on CHR '';'' (fst i @ CHR '';'' # q) = [fst i, q]" if "CHR '';'' \<notin> set q" for q
    using split_on_append_sep [OF semi] split_on_no_sep [OF that] by simp
  show ?thesis
  proof (cases "snd i")
    case Unweighted
    with semi t show ?thesis by (simp add: part_accepts_def coding_text_def split_on_no_sep)
  next
    case (Zero ds)
    let ?q = "''q='' @ CHR ''0'' # (if ds = [] then [] else CHR ''.'' # ds)"
    have "CHR '';'' \<notin> set ds" using Zero ok nd(1) by (intro digits_no) simp_all
    then have "CHR '';'' \<notin> set ?q" by simp
    from split [OF this] Zero have s: "split_on CHR '';'' (coding_text i) = [fst i, ?q]"
      by (simp add: coding_text_def)
    have "refuses ?q \<longleftrightarrow> list_all (\<lambda>c. c = CHR ''0'') ds"
      using refuses_q [of "CHR ''0''" ds] Zero ok nd by simp
    then show ?thesis unfolding part_accepts_def t s list.case Zero by (simp del: append.simps)
  next
    case (One ds)
    let ?q = "''q='' @ CHR ''1'' # (if ds = [] then [] else CHR ''.'' # ds)"
    have ds: "list_all is_digit ds" using One ok by (intro zeros_digits) simp
    then have "CHR '';'' \<notin> set ds" using nd(1) by (intro digits_no)
    then have "CHR '';'' \<notin> set ?q" by simp
    from split [OF this] One have s: "split_on CHR '';'' (coding_text i) = [fst i, ?q]"
      by (simp add: coding_text_def)
    have "\<not> refuses ?q" using refuses_q [of "CHR ''1''" ds] One ok nd ds by simp
    then show ?thesis unfolding part_accepts_def t s list.case One by (simp del: append.simps)
  qed
qed

text \<open>The client gives the coding a weight other than zero.\<close>

definition acceptable :: "coding list \<Rightarrow> encoding \<Rightarrow> bool" where
  "acceptable cs e = list_ex (\<lambda>i. eq_ignore_ascii_case (fst i) (header_value e) \<and> positive (snd i)) cs"

lemma accepts_coding_list:
  assumes "cs \<noteq> []" and "list_all coding_ok cs"
  shows "accepts_coding (comma_list (map coding_text cs)) (header_value e) = acceptable cs e"
proof -
  have es: "map coding_text cs \<noteq> []" "list_all element (map coding_text cs)"
    using assms element_coding by (auto simp: list_all_iff)
  have "accepts_coding (comma_list (map coding_text cs)) (header_value e)
      = list_ex (part_accepts (header_value e)) (map coding_text cs)"
    unfolding accepts_coding_def by (rule comma_list_ex [OF es]) (simp add: part_accepts_def)
  with assms(2) part_accepts_coding show ?thesis
    by (auto simp: acceptable_def list_ex_iff list_all_iff)
qed

text \<open>
  C0. Negotiation over the structure of \<open>Accept-Encoding\<close>: the response coding is the first of Brotli, Zstandard and
  gzip that the client lists, in any case of letters, with a weight other than zero; there is
  none when it lists none of them so.
\<close>

theorem negotiate_encoding_best:
  assumes "cs \<noteq> []" and "list_all coding_ok cs"
    and "hget hs ''accept-encoding'' = Some (comma_list (map coding_text cs))"
  shows "negotiate_encoding hs = List.find (acceptable cs) [Brotli, Zstd, Gzip]"
  using accepts_coding_list [OF assms(1,2), of Brotli] accepts_coding_list [OF assms(1,2), of Zstd]
    accepts_coding_list [OF assms(1,2), of Gzip] assms(3)
  by (simp add: negotiate_encoding_def)

theorem negotiate_encoding_best_witness:
  "negotiate_encoding [(''accept-encoding'', Some ''GZIP, br;q=0.00, zstd;q=0.5'')] = Some Zstd"
proof -
  let ?cs = "[(''GZIP'', Unweighted), (''br'', Zero ''00''), (''zstd'', Zero ''5'')]"
  have "list_all coding_ok ?cs" by code_simp
  moreover have "comma_list (map coding_text ?cs) = ''GZIP, br;q=0.00, zstd;q=0.5''" by code_simp
  moreover have "List.find (acceptable ?cs) [Brotli, Zstd, Gzip] = Some Zstd" by code_simp
  ultimately show ?thesis
    using negotiate_encoding_best [of ?cs "[(''accept-encoding'', Some ''GZIP, br;q=0.00, zstd;q=0.5'')]"]
    by (simp add: hget_def)
qed

text \<open>The wildcard is not read: a client that accepts anything gets the identity coding.\<close>

lemma wildcard_not_read: "negotiate_encoding [(''accept-encoding'', Some ''*'')] = None"
  by code_simp

end
