(* ===== verification/Http3.thy ===== *)
theory Http3
  imports Proxy Encoding
begin

section \<open>The HTTP/3 proxy: \<^verbatim>\<open>crates/zaphyl/src/http3.rs\<close>\<close>

text \<open>
  \<open>proxy_request\<close>, the handler of one HTTP/3 request, in the stages of the code, over the router, the cache and
  the plugins that the HTTP/1 and HTTP/2 listener uses too.  What it sends to the client is a list
  of events, and the request it forwards is part of its outcome.  The origin, the compressors and the crates
  are arguments.  Sending to the client succeeds; a failing send only ends the request early.
\<close>

subsection \<open>Data\<close>

record h3_limits =
  hl_max_body :: "nat option"
  hl_max_header :: "nat option"
  hl_connect_timeout :: "nat option"
  hl_read_timeout :: "nat option"
  hl_compression :: "nat option"

record 'n h3_listener =
  hs_net :: "'n net_api"
  hs_access :: "'n access_control"
  hs_limits :: h3_limits
  hs_cache_max_body :: nat
  hs_revalidates :: bool
  hs_plugins :: "plugins option"

definition default_max_header_bytes :: nat where
  "default_max_header_bytes = 64 * 1024"

definition max_header_bytes :: "h3_limits \<Rightarrow> nat" where
  "max_header_bytes l = (case hl_max_header l of None \<Rightarrow> default_max_header_bytes | Some n \<Rightarrow> n)"

text \<open>Early data: the connection resumed with 0-RTT and its handshake is not complete yet.\<close>

datatype connection = FullHandshake | ZeroRtt bool

fun handshake_done :: "connection \<Rightarrow> bool" where
  "handshake_done FullHandshake = True"
| "handshake_done (ZeroRtt completed) = completed"

text \<open>The request, its host from the URI, the peer's address and whether it is early data.\<close>

record h3_request =
  hq_req :: request
  hq_host :: "string option"
  hq_ip :: ip_addr
  hq_ip_text :: string
  hq_connection :: connection

definition is_early :: "h3_request \<Rightarrow> bool" where
  "is_early hq = (\<not> handshake_done (hq_connection hq))"

datatype h3_event = H3Head nat "(string \<times> string option) list" | H3Data bytes | H3Finish

record h3_forward =
  hf_method :: string
  hf_uri :: string
  hf_headers :: "(string \<times> string option) list"
  hf_body :: "bytes list"

text \<open>
  The origin's answer to a forwarded request, with the time until its head: frames of data (\<open>Some\<close>) or
  others, and whether reading fails after them.
\<close>

datatype answer = NoAnswer | Answer nat "(string \<times> string option) list" "bytes option list" bool

type_synonym origin = "h3_forward \<Rightarrow> nat \<times> answer"

record h3_outcome =
  ho_events :: "h3_event list"
  ho_forward :: "h3_forward option"
  ho_ok :: bool

text \<open>A compressor of the crates: its state, the bytes ready after a chunk, and the rest.\<close>

record 's coder =
  co_new :: "encoding \<Rightarrow> nat \<Rightarrow> 's"
  co_push :: "'s \<Rightarrow> bytes \<Rightarrow> 's \<times> bytes"
  co_finish :: "'s \<Rightarrow> bytes"

fun coder_level :: "encoding \<Rightarrow> nat \<Rightarrow> nat" where
  "coder_level Gzip level = min level 9"
| "coder_level Brotli level = min level 11"
| "coder_level Zstd level = max 1 (min level 21)"

definition body_encoder_new :: "'s coder \<Rightarrow> encoding \<Rightarrow> nat \<Rightarrow> 's" where
  "body_encoder_new C e level = co_new C e (coder_level e level)"

subsection \<open>Headers\<close>

definition opaque_all :: "headers \<Rightarrow> (string \<times> string option) list" where
  "opaque_all hs = map (\<lambda>(name, v). (name, Some v)) hs"

text \<open>\<open>HeaderMap::insert\<close> with names in lower case; \<open>to_str\<close> reads visible ASCII and tabs only.\<close>

definition header_text :: "string \<Rightarrow> string option" where
  "header_text v =
     (if list_all (\<lambda>c. c = char_of (9 :: nat) \<or> (32 \<le> byte_val c \<and> byte_val c < (127 :: nat))) v then Some v else None)"

definition map_remove :: "string \<Rightarrow> (string \<times> string option) list \<Rightarrow> (string \<times> string option) list" where
  "map_remove name hs = filter (\<lambda>h. fst h \<noteq> name) hs"

definition map_insert :: "string \<Rightarrow> string \<Rightarrow> (string \<times> string option) list \<Rightarrow> (string \<times> string option) list" where
  "map_insert name v hs =
     map_remove (to_ascii_lowercase name) hs @ [(to_ascii_lowercase name, header_text v)]"

definition response_head :: "world \<Rightarrow> nat \<Rightarrow> headers \<Rightarrow> nat option \<Rightarrow> h3_event" where
  "response_head W status hs len =
     (let hs = append_all (w_valid W) hs [];
          hs = (case len of
                  None \<Rightarrow> hs
                | Some n \<Rightarrow> insert_header (w_valid W) ''content-length'' (show_nat n) hs)
      in H3Head (if w_status_ok W status then status else 502) (opaque_all hs))"

subsection \<open>The first stages: access, replay safety, files\<close>

definition is_safe_method :: "string \<Rightarrow> bool" where
  "is_safe_method meth = (meth \<in> set [''GET'', ''HEAD'', ''OPTIONS'', ''TRACE''])"

definition status_only :: "nat \<Rightarrow> h3_outcome" where
  "status_only code = \<lparr>ho_events = [H3Head code [], H3Finish], ho_forward = None, ho_ok = True\<rparr>"

definition sent :: "h3_event list \<Rightarrow> h3_outcome" where
  "sent evs = \<lparr>ho_events = evs @ [H3Finish], ho_forward = None, ho_ok = True\<rparr>"

definition h3_denied :: "'n h3_listener \<Rightarrow> h3_request \<Rightarrow> bool" where
  "h3_denied L hq = (\<not> access_is_empty (hs_access L) \<and> \<not> allows (hs_net L) (hs_access L) (hq_ip hq))"

definition h3_static :: "world \<Rightarrow> route option \<Rightarrow> string \<Rightarrow> h3_outcome option" where
  "h3_static W route path =
     (case route of
        None \<Rightarrow> None
      | Some matched \<Rightarrow>
          (case r_static_dir matched of
             None \<Rightarrow> None
           | Some static_dir \<Rightarrow>
               (let relative = (case rewrite_path matched path of Some p \<Rightarrow> p | None \<Rightarrow> path);
                    file = (case resolve (w_decode W) (w_fs W) static_dir relative of
                              None \<Rightarrow> None
                            | Some f \<Rightarrow> map_option (Pair f) (w_read_file W f))
                in Some (case file of
                     Some (f, body) \<Rightarrow>
                       sent [H3Head 200 [(''content-type'', Some (w_mime W f)),
                                         (''content-length'', Some (show_nat (length body)))],
                             H3Data body]
                   | None \<Rightarrow> status_only 404))))"

subsection \<open>The plugin stage\<close>

text \<open>Reading the body stops at an error as at the end; \<open>None\<close> is a body over the bound.\<close>

fun h3_buffer :: "nat \<Rightarrow> bytes \<Rightarrow> bytes list \<Rightarrow> bytes option" where
  "h3_buffer max_body body [] = Some body"
| "h3_buffer max_body body (chunk # chunks) =
     (if max_body < length body + length chunk then None
      else h3_buffer max_body (body @ chunk) chunks)"

definition h3_plugin_request :: "h3_request \<Rightarrow> route \<Rightarrow> bytes \<Rightarrow> plugin_request" where
  "h3_plugin_request hq matched body =
     \<lparr>pq_method = rq_method (hq_req hq), pq_path = target_text (hq_req hq),
      pq_headers = visible (rq_headers (hq_req hq)) @ r_request_headers matched
        @ (if is_early hq then [(''early-data'', ''1'')] else []),
      pq_body = body, pq_client_ip = hq_ip_text hq\<rparr>"

definition h3_plugins :: "'n h3_listener \<Rightarrow> world \<Rightarrow> router \<Rightarrow> h3_request \<Rightarrow> router \<times> h3_outcome option" where
  "h3_plugins L W rt hq =
     (let req = hq_req hq; host = hq_host hq
      in case (hs_plugins L, match_route rt host (rq_path req)) of
           (Some ps, Some matched) \<Rightarrow>
             (case plugin_chain ps (r_id matched) of
                None \<Rightarrow> (rt, None)
              | Some chain \<Rightarrow>
                  if (case content_length req of None \<Rightarrow> True | Some len \<Rightarrow> len \<le> ps_max_body ps)
                  then
                    (case next_target_for (w_health W) rt host (rq_path req) of
                       (rt, None) \<Rightarrow> (rt, Some (status_only 404))
                     | (rt, Some target) \<Rightarrow>
                         (rt, Some
                           (case h3_buffer (ps_max_body ps) [] (rq_body req) of
                              None \<Rightarrow> status_only 413
                            | Some body \<Rightarrow>
                                (case plugins_run ps (w_client W) chain (h3_plugin_request hq matched body)
                                        (case host of None \<Rightarrow> [] | Some h \<Rightarrow> h) target of
                                   None \<Rightarrow> status_only 502
                                 | Some response \<Rightarrow>
                                     sent (response_head W (pr_status response)
                                             (pr_headers response @ r_response_headers matched)
                                             (Some (length (pr_body response)))
                                           # (if pr_body response = [] then []
                                              else [H3Data (pr_body response)]))))))
                  else (rt, None))
         | _ \<Rightarrow> (rt, None))"

subsection \<open>The cache stage\<close>

text \<open>
  What is served from the cache, and otherwise the key to store the response under.  \<open>w_now W\<close> is the
  time read once at the start of the stage.
\<close>

definition h3_store :: "world \<Rightarrow> systime \<Rightarrow> shared \<Rightarrow> response_cache \<Rightarrow> string \<Rightarrow> nat \<Rightarrow> cached_response \<Rightarrow> shared res" where
  "h3_store W t S cache key ttl response =
     rbind (time_add_secs t ttl) (\<lambda>expiry. Inr
       (let (d, cache) = cache_put (w_env W) (w_io W) (sh_dir S) cache key expiry response
        in S\<lparr>sh_dir := d, sh_cache := Some cache\<rparr>))"

definition h3_stale :: "'n h3_listener \<Rightarrow> world \<Rightarrow> shared \<Rightarrow> response_cache \<Rightarrow> h3_request \<Rightarrow> cached_response
    \<Rightarrow> string \<Rightarrow> string \<Rightarrow> string \<Rightarrow> (shared \<times> cached_response option \<times> string option) res" where
  "h3_stale L W S cache hq hit key host_key pq =
     (let (rt, target) = next_target_for (w_health W) (sh_router S) (hq_host hq) (rq_path (hq_req hq));
          S = S\<lparr>sh_router := rt\<rparr>;
          miss = Inr (S, None, Some key)
      in case (etag hit, target) of
           (Some et, Some target) \<Rightarrow>
             if \<not> hs_revalidates L then miss
             else (case revalidate (w_client W) target pq host_key et (hs_cache_max_body L) of
                NotModified \<Rightarrow>
                  rbind (h3_store W (w_now W) S cache key
                      (case stored_ttl_h3 hit of Some t \<Rightarrow> t | None \<Rightarrow> 60) hit)
                    (\<lambda>S. Inr (S, Some hit, None))
              | Modified status hs body \<Rightarrow>
                  (let fresh = \<lparr>cr_status = of_nat status, cr_headers = hs, cr_body = body\<rparr>
                   in case stored_ttl_h3 fresh of
                        Some ttl \<Rightarrow> rbind (h3_store W (w_now W) S cache key ttl fresh)
                          (\<lambda>S. Inr (S, Some fresh, None))
                      | None \<Rightarrow> Inr (S, Some fresh, None))
              | Failed \<Rightarrow> miss)
         | _ \<Rightarrow> miss)"

definition h3_cache_phase :: "'n h3_listener \<Rightarrow> world \<Rightarrow> shared \<Rightarrow> h3_request
    \<Rightarrow> (shared \<times> cached_response option \<times> string option) res" where
  "h3_cache_phase L W S hq =
     (let req = hq_req hq
      in case sh_cache S of
           None \<Rightarrow> Inr (S, None, None)
         | Some cache \<Rightarrow>
             if request_cacheable (rq_method req) (hget (rq_headers req) ''cache-control'')
                  (hhas (rq_headers req) ''authorization'')
             then (let host_key = (case hq_host hq of None \<Rightarrow> [] | Some h \<Rightarrow> h);
                       pq = target_text req;
                       key = cache_key host_key pq (hget (rq_headers req) ''accept-encoding'')
                   in rbind (cache_lookup (w_env W) (sh_dir S) cache key (w_now W)) (\<lambda>(cache, found).
                        let S = S\<lparr>sh_cache := Some cache\<rparr>
                        in case found of
                             Fresh hit \<Rightarrow> Inr (S, Some hit, None)
                           | Stale hit \<Rightarrow> h3_stale L W S cache hq hit key host_key pq
                           | Miss \<Rightarrow> Inr (S, None, Some key)))
             else Inr (S, None, None))"

definition h3_serve_hit :: "world \<Rightarrow> h3_request \<Rightarrow> cached_response \<Rightarrow> h3_outcome" where
  "h3_serve_hit W hq hit =
     (let whole_response =
            sent [response_head W (unat (cr_status hit)) (cr_headers hit @ [(''x-cache'', ''HIT'')])
                    (Some (length (cr_body hit))),
                  H3Data (cr_body hit)]
      in case (hget (rq_headers (hq_req hq)) ''if-none-match'', etag hit) of
           (Some inm, Some et) \<Rightarrow>
             if if_none_match_satisfied inm et
             then sent [response_head W 304 [(''etag'', et), (''x-cache'', ''HIT'')] None]
             else whole_response
         | _ \<Rightarrow> whole_response)"

subsection \<open>Forwarding\<close>

text \<open>
  The forwarded body: the chunks that arrive, up to the limit; a read error ends it like its end.
  The running total is 64 bits wide in the code; a chunk list that wraps it does not fit in memory.
\<close>

fun forward_body :: "nat option \<Rightarrow> nat \<Rightarrow> bytes list \<Rightarrow> bytes list" where
  "forward_body max_body seen [] = []"
| "forward_body max_body seen (chunk # chunks) =
     (case max_body of
        Some mx \<Rightarrow>
          if mx < seen + length chunk then []
          else chunk # forward_body max_body (seen + length chunk) chunks
      | None \<Rightarrow> chunk # forward_body max_body seen chunks)"

definition forward_path :: "route option \<Rightarrow> request \<Rightarrow> string" where
  "forward_path route req =
     (let p = (case route of
                 None \<Rightarrow> rq_path req
               | Some r \<Rightarrow> (case rewrite_path r (rq_path req) of Some p \<Rightarrow> p | None \<Rightarrow> rq_path req))
      in case rq_query req of Some q \<Rightarrow> p @ ''?'' @ q | None \<Rightarrow> p)"

text \<open>\<open>None\<close> is the error of the request builder.\<close>

definition h3_forward_request :: "world \<Rightarrow> (string \<Rightarrow> bool) \<Rightarrow> h3_limits \<Rightarrow> route option \<Rightarrow> target \<Rightarrow> h3_request
    \<Rightarrow> h3_forward option" where
  "h3_forward_request W uri_ok l route target hq =
     (let req = hq_req hq;
          own = (case route of None \<Rightarrow> [] | Some r \<Rightarrow> r_request_headers r);
          uri = upstream_uri target (forward_path route req)
      in if uri_ok uri \<and> list_all (\<lambda>(name, v). w_valid W name v) own
         then Some \<lparr>hf_method = rq_method req, hf_uri = uri,
                hf_headers = filter (\<lambda>h. fst h \<noteq> ''host'') (rq_headers req) @ opaque_all own
                  @ (if is_early hq then [(''early-data'', Some ''1'')] else []),
                hf_body = forward_body (hl_max_body l) 0 (rq_body req)\<rparr>
         else None)"

definition timed_out :: "h3_limits \<Rightarrow> nat \<Rightarrow> bool" where
  "timed_out l elapsed = (case hl_read_timeout l of None \<Rightarrow> False | Some t \<Rightarrow> t < elapsed)"

subsection \<open>Relaying the response\<close>

definition relay_headers :: "world \<Rightarrow> route option \<Rightarrow> (string \<times> string option) list \<Rightarrow> (string \<times> string option) list" where
  "relay_headers W route hs =
     (let hs = fold map_remove [''connection'', ''transfer-encoding'', ''upgrade''] hs
      in case route of
           None \<Rightarrow> hs
         | Some r \<Rightarrow> fold (\<lambda>(name, v) hs. if w_valid W name v then map_insert name v hs else hs)
             (r_response_headers r) hs)"

definition h3_cacheable :: "string option \<Rightarrow> nat \<Rightarrow> (string \<times> string option) list
    \<Rightarrow> (string \<times> nat \<times> nat \<times> headers) option" where
  "h3_cacheable store_key status hs =
     (case store_key of
        None \<Rightarrow> None
      | Some key \<Rightarrow>
          map_option (\<lambda>ttl. (key, ttl, status,
              visible (filter (\<lambda>(name, _). \<not> is_uncacheable_header_h3 name) hs)))
            (response_ttl status (hget hs ''cache-control'') (hhas hs ''set-cookie'') (hget hs ''vary'')))"

definition h3_encoding :: "h3_limits \<Rightarrow> request \<Rightarrow> (string \<times> string option) list \<Rightarrow> encoding option" where
  "h3_encoding l req hs =
     (if hl_compression l \<noteq> None \<and> \<not> hhas hs ''content-encoding'' then negotiate_encoding (rq_headers req)
      else None)"

definition encoded_headers :: "encoding option \<Rightarrow> (string \<times> string option) list \<Rightarrow> (string \<times> string option) list" where
  "encoded_headers enc hs =
     (case enc of
        None \<Rightarrow> hs
      | Some e \<Rightarrow> map_remove ''content-length'' (map_insert ''content-encoding'' (header_value e) hs))"

text \<open>The captured body and whether it overflowed.\<close>

type_synonym capture = "bytes \<times> bool"

definition accumulate_cache_body :: "bool \<Rightarrow> nat \<Rightarrow> bytes \<Rightarrow> capture \<Rightarrow> capture" where
  "accumulate_cache_body active max_body data c =
     (let (buf, overflow) = c
      in if active \<and> \<not> overflow
         then (if max_body < length buf + length data then ([], True) else (buf @ data, overflow))
         else c)"

fun relay_plain :: "bool \<Rightarrow> nat \<Rightarrow> bytes option list \<Rightarrow> capture \<Rightarrow> h3_event list \<times> capture" where
  "relay_plain active max_body [] c = ([], c)"
| "relay_plain active max_body (None # frames) c = relay_plain active max_body frames c"
| "relay_plain active max_body (Some data # frames) c =
     (let (evs, c) = relay_plain active max_body frames (accumulate_cache_body active max_body data c)
      in (H3Data data # evs, c))"

fun relay_encoded :: "'s coder \<Rightarrow> bool \<Rightarrow> nat \<Rightarrow> bytes option list \<Rightarrow> 's \<Rightarrow> capture
    \<Rightarrow> h3_event list \<times> 's \<times> capture" where
  "relay_encoded C active max_body [] st c = ([], st, c)"
| "relay_encoded C active max_body (None # frames) st c = relay_encoded C active max_body frames st c"
| "relay_encoded C active max_body (Some data # frames) st c =
     (let (st, chunk) = co_push C st data;
          (evs, st, c) = relay_encoded C active max_body frames st (accumulate_cache_body active max_body data c)
      in ((if chunk = [] then evs else H3Data chunk # evs), st, c))"

text \<open>The body's events, and the captured body; \<open>fails\<close> is an error of the origin's stream after the frames.\<close>

definition relay_body :: "'s coder \<Rightarrow> h3_limits \<Rightarrow> encoding option \<Rightarrow> bool \<Rightarrow> nat \<Rightarrow> bytes option list \<Rightarrow> bool
    \<Rightarrow> h3_event list \<times> capture" where
  "relay_body C l enc active max_body frames fails =
     (case enc of
        None \<Rightarrow> relay_plain active max_body frames ([], False)
      | Some e \<Rightarrow>
          (let level = (case hl_compression l of None \<Rightarrow> 6 | Some n \<Rightarrow> n);
               (evs, st, c) = relay_encoded C active max_body frames (body_encoder_new C e level) ([], False);
               rest = co_finish C st
           in (if fails \<or> rest = [] then evs else evs @ [H3Data rest], c)))"

text \<open>
  A client may go: after \<open>w_accepts\<close> sends the next one fails, and the handler returns its error.  (A failed send of
  the answers above has no other effect, so there it is left out.)
\<close>

definition cut_off :: "world \<Rightarrow> h3_event list \<Rightarrow> h3_event list option" where
  "cut_off W sends =
     (case w_accepts W of
        None \<Rightarrow> None
      | Some n \<Rightarrow> if n < length sends then Some (take n sends) else None)"

definition h3_relay :: "'n h3_listener \<Rightarrow> world \<Rightarrow> 's coder \<Rightarrow> shared \<Rightarrow> h3_request \<Rightarrow> route option
    \<Rightarrow> string option \<Rightarrow> h3_forward \<Rightarrow> nat \<Rightarrow> (string \<times> string option) list \<Rightarrow> bytes option list \<Rightarrow> bool
    \<Rightarrow> (shared \<times> h3_outcome) res" where
  "h3_relay L W C S hq route store_key fwd status hs frames fails =
     (let hs = relay_headers W route hs;
          cache_store = h3_cacheable store_key status hs;
          enc = h3_encoding (hs_limits L) (hq_req hq) hs;
          (evs, buf, overflow) = relay_body C (hs_limits L) enc (cache_store \<noteq> None) (hs_cache_max_body L)
                                   frames fails;
          evs = H3Head status (encoded_headers enc hs) # evs;
          received = cut_off W (if fails then evs else evs @ [H3Finish])
      in if received \<noteq> None
         then Inr (S, \<lparr>ho_events = the received, ho_forward = Some fwd, ho_ok = False\<rparr>)
         else if fails then Inr (S, \<lparr>ho_events = evs, ho_forward = Some fwd, ho_ok = False\<rparr>)
         else (let done = \<lparr>ho_events = evs @ [H3Finish], ho_forward = Some fwd, ho_ok = True\<rparr>
               in case (sh_cache S, cache_store) of
                    (Some cache, Some (key, ttl, st, headers)) \<Rightarrow>
                      if overflow then Inr (S, done)
                      else rbind (h3_store W (w_later W) S cache key ttl
                               \<lparr>cr_status = of_nat st, cr_headers = headers, cr_body = buf\<rparr>)
                             (\<lambda>S. Inr (S, done))
                  | _ \<Rightarrow> Inr (S, done)))"

subsection \<open>The handler\<close>

definition h3_too_large :: "'n h3_listener \<Rightarrow> request \<Rightarrow> bool" where
  "h3_too_large L req =
     (case (hl_max_body (hs_limits L), content_length req) of (Some mx, Some len) \<Rightarrow> mx < len | _ \<Rightarrow> False)"

definition h3_upstream :: "'n h3_listener \<Rightarrow> world \<Rightarrow> 's coder \<Rightarrow> (string \<Rightarrow> bool) \<Rightarrow> origin \<Rightarrow> shared \<Rightarrow> h3_request
    \<Rightarrow> string option \<Rightarrow> (shared \<times> h3_outcome) res" where
  "h3_upstream L W C uri_ok up S hq store_key =
     (let req = hq_req hq;
          route = match_route (sh_router S) (hq_host hq) (rq_path req);
          (rt, target) = next_target_for (w_health W) (sh_router S) (hq_host hq) (rq_path req);
          S = S\<lparr>sh_router := rt\<rparr>
      in case target of
           None \<Rightarrow> Inr (S, status_only 404)
         | Some target \<Rightarrow>
             if h3_too_large L req then Inr (S, status_only 413)
             else
               (case h3_forward_request W uri_ok (hs_limits L) route target hq of
                  None \<Rightarrow> Inr (S, \<lparr>ho_events = [], ho_forward = None, ho_ok = False\<rparr>)
                | Some fwd \<Rightarrow>
                    (let (elapsed, ans) = up fwd
                     in if timed_out (hs_limits L) elapsed
                        then Inr (S, (status_only 504)\<lparr>ho_forward := Some fwd\<rparr>)
                        else case ans of
                          NoAnswer \<Rightarrow> Inr (S, \<lparr>ho_events = [], ho_forward = Some fwd, ho_ok = False\<rparr>)
                        | Answer status hs frames fails \<Rightarrow>
                            h3_relay L W C S hq route store_key fwd status hs frames fails)))"

definition proxy_request :: "'n h3_listener \<Rightarrow> world \<Rightarrow> 's coder \<Rightarrow> (string \<Rightarrow> bool) \<Rightarrow> origin \<Rightarrow> shared \<Rightarrow> h3_request
    \<Rightarrow> (shared \<times> h3_outcome) res" where
  "proxy_request L W C uri_ok up S hq =
     (if h3_denied L hq then Inr (S, status_only 403)
      else if is_early hq \<and> \<not> is_safe_method (rq_method (hq_req hq)) then Inr (S, status_only 425)
      else
        let path = rq_path (hq_req hq);
            route = match_route (sh_router S) (hq_host hq) path
        in case h3_static W route path of
             Some out \<Rightarrow> Inr (S, out)
           | None \<Rightarrow>
               (let (rt, handled) = h3_plugins L W (sh_router S) hq;
                    S = S\<lparr>sh_router := rt\<rparr>
                in case handled of
                     Some out \<Rightarrow> Inr (S, out)
                   | None \<Rightarrow>
                       rbind (h3_cache_phase L W S hq) (\<lambda>(S, to_serve, store_key).
                         case to_serve of
                           Some hit \<Rightarrow> Inr (S, h3_serve_hit W hq hit)
                         | None \<Rightarrow> h3_upstream L W C uri_ok up S hq store_key)))"

end
