(* ===== verification/ProxyProps.thy ===== *)
theory ProxyProps
  imports Proxy
begin

section \<open>Properties of the HTTP/1 and HTTP/2 proxy\<close>

text \<open>
  The order of the request filter's gates, the request-body limit, what ends up in the cache on the
  response path, and the precedence of the response headers.
\<close>

subsection \<open>Admission\<close>

definition admitted :: "'n proxy \<Rightarrow> world \<Rightarrow> shared \<Rightarrow> request \<Rightarrow> bool" where
  "admitted P W S req =
     (\<not> denied P req \<and> snd (limit_phase W S req) \<and> \<not> declared_too_large P req)"

text \<open>An answer that carries content, from a file, a plugin or the cache, or the way to the upstream.\<close>

definition serves :: "verdict \<Rightarrow> bool" where
  "serves v = (case v of
     Handled ws \<Rightarrow> list_ex (\<lambda>e. case e of RespError _ \<Rightarrow> False | _ \<Rightarrow> True) ws
   | Proceed \<Rightarrow> True
   | Aborted \<Rightarrow> False)"

lemma limit_phase_frame:
  "sh_router (fst (limit_phase W S req)) = sh_router S"
  "sh_cache (fst (limit_phase W S req)) = sh_cache S"
  "sh_dir (fst (limit_phase W S req)) = sh_dir S"
  by (simp_all add: limit_phase_def split: option.split prod.split)

text \<open>
  C2. Nothing is served to a client that is denied, over its rate limit, or declares too large a
  body: such a request is answered by an error page alone (403, else 429, else 413), it reaches
  neither files nor plugins nor cache nor upstream, and it leaves the routes, the cache and its
  directory as they are; a denied client does not even count against the limiter.
\<close>

theorem only_admitted_requests_served:
  assumes "request_filter P W S req ctx = Inr (S', ctx', v)" and "\<not> admitted P W S req"
  shows "\<not> serves v \<and> ctx' = ctx \<and>
    v = Handled [RespError (if denied P req then 403 else if \<not> snd (limit_phase W S req) then 429 else 413)] \<and>
    sh_router S' = sh_router S \<and> sh_cache S' = sh_cache S \<and> sh_dir S' = sh_dir S \<and>
    (denied P req \<longrightarrow> S' = S)"
proof -
  obtain S1 ok where l: "limit_phase W S req = (S1, ok)" by fastforce
  have "sh_router S1 = sh_router S" "sh_cache S1 = sh_cache S" "sh_dir S1 = sh_dir S"
    using limit_phase_frame [of W S req] l by simp_all
  with assms l show ?thesis
    by (auto simp: request_filter_def admitted_def serves_def split: if_splits)
qed

definition demo_request :: request where
  "demo_request = \<lparr>rq_method = ''GET'', rq_path = ''/a'', rq_query = None, rq_path_and_query = Some ''/a'',
     rq_headers = [(''host'', Some ''x.io'')], rq_client = Some (V4 [10, 0, 0, 5], ''10.0.0.5''),
     rq_body = [], rq_body_fails = False\<rparr>"

definition demo_proxy :: "(ip_addr \<times> nat) proxy" where
  "demo_proxy = \<lparr>px_net = cidr, px_access = demo_ac, px_response_headers = [], px_tls_enabled = False,
     px_alt_svc = None, px_max_body = Some 10, px_connect_timeout = None, px_read_timeout = None,
     px_compression = None, px_cache_max_body = 100, px_plugins = None\<rparr>"

definition demo_world :: world where
  "demo_world = \<lparr>w_health = \<lparr>cells = (\<lambda>_. True), fresh = 0\<rparr>, w_decode = Some,
     w_fs = \<lparr>fs_is_dir = (\<lambda>_. False), fs_is_file = (\<lambda>_. False), fs_canonicalize = Some\<rparr>,
     w_read_file = (\<lambda>_. None), w_mime = (\<lambda>_. ''text/plain''), w_valid = (\<lambda>_ _. True),
     w_status_ok = (\<lambda>_. True), w_client = (\<lambda>_. None), w_env = demo_env, w_io = demo_io,
     w_now_ms = 0, w_now = SysTime 0, w_later = SysTime 0, w_accepts = None\<rparr>"

definition demo_shared :: shared where
  "demo_shared = \<lparr>sh_router = [], sh_limiter = None, sh_cache = Some (cache_new 4), sh_dir = []\<rparr>"

lemma demo_denied: "denied demo_proxy demo_request"
proof -
  have "\<not> allows cidr demo_ac (V4 [10, 0, 0, 5])" by code_simp
  then show ?thesis
    by (simp add: denied_def demo_proxy_def demo_request_def access_is_empty_def demo_ac_def)
qed

theorem only_admitted_requests_served_witness:
  "\<exists>S' ctx' v. request_filter demo_proxy demo_world demo_shared demo_request new_ctx = Inr (S', ctx', v)
     \<and> \<not> serves v \<and> S' = demo_shared"
proof -
  obtain S' ctx' v where r: "request_filter demo_proxy demo_world demo_shared demo_request new_ctx
      = Inr (S', ctx', v)"
    by (simp add: request_filter_def demo_denied)
  have "\<not> admitted demo_proxy demo_world demo_shared demo_request"
    by (simp add: admitted_def demo_denied)
  from only_admitted_requests_served [OF r this] r demo_denied show ?thesis by blast
qed

subsection \<open>The request body\<close>

fun run_request_body :: "'n proxy \<Rightarrow> bytes list \<Rightarrow> request_ctx \<Rightarrow> request_ctx option" where
  "run_request_body P [] ctx = Some ctx"
| "run_request_body P (chunk # chunks) ctx =
     (case request_body_filter P (Some chunk) ctx of
        None \<Rightarrow> None
      | Some ctx \<Rightarrow> run_request_body P chunks ctx)"

lemma run_request_body_None:
  "px_max_body P = Some mx \<Longrightarrow> cx_body_seen ctx \<le> mx \<Longrightarrow>
     run_request_body P chunks ctx = None \<longleftrightarrow> mx < cx_body_seen ctx + length (concat chunks)"
proof (induction chunks arbitrary: ctx)
  case (Cons c cs)
  then show ?case by (auto simp: request_body_filter_def Let_def add.assoc)
qed simp

lemma run_request_body_unlimited: "px_max_body P = None \<Longrightarrow> run_request_body P chunks ctx = Some ctx"
  by (induction chunks) (simp_all add: request_body_filter_def)

text \<open>
  However a request body is split into chunks, the filter aborts the request exactly when the
  bytes received exceed the configured limit; without a limit it never does.
\<close>

theorem request_body_limit_exact:
  "run_request_body P chunks new_ctx = None \<longleftrightarrow>
     (case px_max_body P of None \<Rightarrow> False | Some mx \<Rightarrow> mx < length (concat chunks))"
  using run_request_body_None [of P _ new_ctx chunks] run_request_body_unlimited [of P chunks new_ctx]
  by (auto simp: new_ctx_def split: option.split)

subsection \<open>The response headers\<close>

text \<open>
  C0. Precedence of the response headers, for every name in any case: \<open>Alt-Svc\<close> is the proxy's when
  HTTP/3 is on; otherwise the route's configured value wins over the global one, and the upstream's
  values stay where neither is configured.
\<close>

theorem response_header_precedence:
  "values_of (response_filter P valid ctx hs) name =
     (case px_alt_svc P of
        Some a \<Rightarrow> if valid ''alt-svc'' a \<and> eq_ignore_ascii_case ''alt-svc'' name then [a]
                  else (case decisive valid (cx_resp_headers ctx) name of
                          Some v \<Rightarrow> [v]
                        | None \<Rightarrow> (case decisive valid (px_response_headers P) name of
                                     Some v \<Rightarrow> [v] | None \<Rightarrow> values_of hs name))
      | None \<Rightarrow> (case decisive valid (cx_resp_headers ctx) name of
                   Some v \<Rightarrow> [v]
                 | None \<Rightarrow> (case decisive valid (px_response_headers P) name of
                              Some v \<Rightarrow> [v] | None \<Rightarrow> values_of hs name)))"
  by (simp add: response_filter_def hdr_simps split: option.split)

subsection \<open>The response path into the cache\<close>

fun run_body :: "'n proxy \<Rightarrow> world \<Rightarrow> shared \<Rightarrow> (bytes option \<times> bool) list \<Rightarrow> request_ctx
    \<Rightarrow> (shared \<times> request_ctx) res" where
  "run_body P W S [] ctx = Inr (S, ctx)"
| "run_body P W S ((body, eos) # evs) ctx =
     rbind (upstream_response_body_filter P W S body eos ctx) (\<lambda>(S, ctx). run_body P W S evs ctx)"

definition stream :: "bytes list \<Rightarrow> bytes option \<Rightarrow> (bytes option \<times> bool) list" where
  "stream chunks final = map (\<lambda>c. (Some c, False)) chunks @ [(final, True)]"

definition whole :: "bytes list \<Rightarrow> bytes option \<Rightarrow> bytes" where
  "whole chunks final = concat chunks @ (case final of None \<Rightarrow> [] | Some c \<Rightarrow> c)"

definition capturing :: "shared \<Rightarrow> request_ctx \<Rightarrow> response_cache \<Rightarrow> string \<Rightarrow> nat \<Rightarrow> bool" where
  "capturing S ctx cache key ttl =
     (sh_cache S = Some cache \<and> cx_cache_key ctx = Some key \<and> cx_cache_ttl ctx = Some ttl
      \<and> \<not> cx_cache_overflow ctx)"

lemma run_body_overflow:
  "cx_cache_overflow ctx \<Longrightarrow> run_body P W S evs ctx = Inr (S, ctx)"
proof (induction evs)
  case (Cons ev evs)
  obtain b eos where "ev = (b, eos)" by fastforce
  with Cons show ?case
    by (simp add: upstream_response_body_filter_def split: option.split)
qed simp

lemma run_body_capture:
  assumes "capturing S ctx cache key ttl"
    and "length (cx_cache_body ctx) \<le> px_cache_max_body P"
  shows "map_sum id fst (run_body P W S (stream chunks final) ctx) =
     (if px_cache_max_body P < length (cx_cache_body ctx @ whole chunks final) then Inr S
      else store_entry W S cache key ttl
        \<lparr>cr_status = of_nat (cx_cache_status ctx), cr_headers = cx_cache_headers ctx,
         cr_body = cx_cache_body ctx @ whole chunks final\<rparr>)"
  using assms
proof (induction chunks arbitrary: ctx)
  case Nil
  then show ?case
    by (cases final)
      (auto simp: stream_def whole_def capturing_def upstream_response_body_filter_def rbind_def
        split: sum.split)
next
  case (Cons c cs)
  show ?case
  proof (cases "px_cache_max_body P < length (cx_cache_body ctx) + length c")
    case True
    then have "run_body P W S (stream (c # cs) final) ctx
        = Inr (S, ctx\<lparr>cx_cache_overflow := True, cx_cache_body := []\<rparr>)"
      using Cons.prems
      by (simp add: stream_def capturing_def upstream_response_body_filter_def run_body_overflow)
    with True show ?thesis by (simp add: whole_def)
  next
    case False
    let ?ctx = "ctx\<lparr>cx_cache_body := cx_cache_body ctx @ c\<rparr>"
    have "run_body P W S (stream (c # cs) final) ctx = run_body P W S (stream cs final) ?ctx"
      using Cons.prems False
      by (simp add: stream_def capturing_def upstream_response_body_filter_def)
    with False Cons.IH [of ?ctx] Cons.prems show ?thesis by (simp add: whole_def capturing_def)
  qed
qed

text \<open>
  What the response path puts into the cache: after a cacheable miss, and however the upstream's
  body is split into chunks, the entry stored is the response's status, its visible headers less
  the connection-specific ones, and its whole body; nothing is stored, and nothing else
  changes, when the response is not cacheable or the body exceeds the limit.
\<close>

theorem cached_is_origin_response:
  assumes "sh_cache S = Some cache" and "cx_cache_key ctx = Some key" and "\<not> cx_cache_overflow ctx"
    and "cx_cache_body ctx = []" and "cx_cache_ttl ctx = None"
  shows "map_sum id fst (run_body P W S (stream chunks final) (upstream_response_filter S status hs ctx)) =
     (case response_ttl status (hget hs ''cache-control'') (hhas hs ''set-cookie'') (hget hs ''vary'') of
        None \<Rightarrow> Inr S
      | Some ttl \<Rightarrow>
          if px_cache_max_body P < length (whole chunks final) then Inr S
          else store_entry W S cache key ttl
            \<lparr>cr_status = of_nat status,
             cr_headers = visible (filter (\<lambda>(name, _). \<not> is_uncacheable_header name) hs),
             cr_body = whole chunks final\<rparr>)"
proof (cases "response_ttl status (hget hs ''cache-control'') (hhas hs ''set-cookie'') (hget hs ''vary'')")
  case None
  have "run_body P W S evs c = Inr (S, c)" if "cx_cache_ttl c = None" for evs c
    by (induction evs)
      (auto simp: upstream_response_body_filter_def that split: option.split)
  with None assms show ?thesis by (simp add: upstream_response_filter_def)
next
  case (Some ttl)
  let ?ctx = "upstream_response_filter S status hs ctx"
  from Some assms have "capturing S ?ctx cache key ttl" "cx_cache_body ?ctx = []"
    by (simp_all add: upstream_response_filter_def capturing_def)
  from run_body_capture [OF this(1), of P W chunks final] this(2) Some assms
  show ?thesis by (simp add: upstream_response_filter_def)
qed

theorem cached_is_origin_response_witness:
  "map_sum id fst (run_body demo_proxy demo_world demo_shared (stream [''ab'', ''c''] (Some ''d''))
      (upstream_response_filter demo_shared 200 [(''cache-control'', Some ''max-age=5'')]
        (new_ctx\<lparr>cx_cache_key := Some ''k''\<rparr>)))
   = store_entry demo_world demo_shared (cache_new 4) ''k'' 5
       \<lparr>cr_status = 200, cr_headers = [(''cache-control'', ''max-age=5'')], cr_body = ''abcd''\<rparr>"
proof -
  have ttl: "response_ttl 200 (hget [(''cache-control'', Some ''max-age=5'')] ''cache-control'')
      (hhas [(''cache-control'', Some ''max-age=5'')] ''set-cookie'')
      (hget [(''cache-control'', Some ''max-age=5'')] ''vary'') = Some 5" by code_simp
  have vis: "visible (filter (\<lambda>(name, _). \<not> is_uncacheable_header name) [(''cache-control'', Some ''max-age=5'')])
      = [(''cache-control'', ''max-age=5'')]" by code_simp
  have whole: "whole [''ab'', ''c''] (Some ''d'') = ''abcd''" by (simp add: whole_def)
  have "px_cache_max_body demo_proxy = 100" by (simp add: demo_proxy_def)
  with cached_is_origin_response [of demo_shared "cache_new 4" "new_ctx\<lparr>cx_cache_key := Some ''k''\<rparr>" "''k''"
      demo_proxy demo_world "[''ab'', ''c'']" "Some ''d''" 200 "[(''cache-control'', Some ''max-age=5'')]"]
  show ?thesis by (simp only: ttl vis whole option.case) (simp add: demo_shared_def new_ctx_def)
qed

text \<open>
  A lifetime of 2 to the 63 seconds or more, which \<open>max-age\<close> may name, overflows the clock: the expiry's
  addition panics.
\<close>

lemma huge_max_age_panics:
  assumes "0 \<le> nanos (w_later W)" and "2 ^ 63 \<le> ttl"
  shows "store_entry W S cache key ttl r = Inl TimeOverflow"
proof -
  from assms have "\<not> systime_secs (w_later W) + int ttl < 2 ^ 63"
    by (simp add: systime_secs_def pos_imp_zdiv_nonneg_iff not_less)
  then show ?thesis by (simp add: store_entry_def time_add_secs_def)
qed

subsection \<open>Answers from the cache\<close>

text \<open>What is written for a stored response: the response itself, or 304 to a client that has it.\<close>

definition answers_with :: "wire list \<Rightarrow> string option \<Rightarrow> cached_response \<Rightarrow> bool" where
  "answers_with ws inm r =
     ((\<exists>hs. ws = [RespHead (unat (cr_status r)) hs False, RespBody (cr_body r) True]) \<or>
      (\<exists>hs t et. inm = Some t \<and> etag r = Some et \<and> if_none_match_satisfied t et
         \<and> ws = [RespHead 304 hs True]))"

lemma serve_cache_hit_answers: "serve_cache_hit W r inm = Handled ws \<Longrightarrow> answers_with ws inm r"
  by (auto simp: serve_cache_hit_def answers_with_def split: option.splits if_splits)

lemma answers_with_None: "answers_with ws None r \<Longrightarrow> answers_with ws inm r"
  by (auto simp: answers_with_def)

lemma store_entry_frame: "store_entry W S cache key ttl r = Inr S' \<Longrightarrow> sh_router S' = sh_router S"
  by (auto simp: store_entry_def rbind_def split: sum.splits prod.splits)

text \<open>The origin confirms a stored response, or gives a new one.\<close>

definition confirmed :: "nat \<Rightarrow> world \<Rightarrow> string \<Rightarrow> string \<Rightarrow> cached_response \<Rightarrow> bool" where
  "confirmed max_body W host pq r =
     (\<exists>target et. etag r = Some et \<and>
        revalidate (w_client W) target pq host et max_body = NotModified)"

definition replaced :: "nat \<Rightarrow> world \<Rightarrow> string \<Rightarrow> string \<Rightarrow> cached_response \<Rightarrow> bool" where
  "replaced max_body W host pq r =
     (\<exists>target et status. revalidate (w_client W) target pq host et max_body
        = Modified status (cr_headers r) (cr_body r) \<and> cr_status r = of_nat status)"

lemma revalidate_stale_answers:
  assumes "revalidate_stale P W S cache hit key inm host pq ctx = Inr (S', ctx', Handled ws)"
  shows "answers_with ws inm hit \<and> confirmed (px_cache_max_body P) W host pq hit \<or>
     (\<exists>r. answers_with ws inm r \<and> replaced (px_cache_max_body P) W host pq r)"
proof -
  let ?path = "first_piece CHR ''?'' pq pq"
  obtain rt target where t: "next_target_for (w_health W) (sh_router S) (Some host) ?path = (rt, target)"
    by fastforce
  note run = assms [unfolded revalidate_stale_def t Let_def prod.case]
  have "etag hit \<noteq> None \<and> target \<noteq> None"
    using run by (cases "etag hit"; cases target) simp_all
  then obtain et tg where et: "etag hit = Some et" "target = Some tg" by blast
  show ?thesis
  proof (cases "revalidate (w_client W) tg pq host et (px_cache_max_body P)")
    case NotModified
    with run et have "serve_cache_hit W hit inm = Handled ws"
      by (simp add: rbind_def split: sum.splits)
    with NotModified et show ?thesis
      using serve_cache_hit_answers unfolding confirmed_def by blast
  next
    case (Modified status hs body)
    let ?r = "\<lparr>cr_status = of_nat status, cr_headers = hs, cr_body = body\<rparr>"
    from Modified run et have "serve_cache_hit W ?r None = Handled ws"
      by (simp add: rbind_def split: sum.splits option.splits)
    then have "answers_with ws inm ?r" by (rule answers_with_None [OF serve_cache_hit_answers])
    moreover have "replaced (px_cache_max_body P) W host pq ?r" using Modified unfolding replaced_def by fastforce
    ultimately show ?thesis by blast
  next
    case Failed
    with run et show ?thesis by simp
  qed
qed

text \<open>
  C0. What the cache answers: only a GET without \<open>Authorization\<close> is answered from it, and with a response
  that was stored under the request's own key (host, target and accepted codings) and either
  has not expired or was just confirmed by the origin, or with the origin's new response; 304 is
  sent only for a matching \<open>If-None-Match\<close>.  This holds after any puts, lookups and restarts.
\<close>

theorem cache_answers_right:
  assumes "cache_run E H (sh_dir S) cache" and "sh_cache S = Some cache" and "w_env W = E"
    and "cache_phase P W S req ctx = Inr (S', ctx', Handled ws)"
  shows "\<exists>key inm host pq r. cache_request_key req = Some (key, inm, host, pq) \<and>
     rq_method req = ''GET'' \<and> \<not> hhas (rq_headers req) ''authorization'' \<and>
     key = cache_key host pq (hget (rq_headers req) ''accept-encoding'') \<and> answers_with ws inm r \<and>
     ((\<exists>e. (key, e, r) \<in> H \<and> (w_now W < e \<or> confirmed (px_cache_max_body P) W host pq r)) \<or> replaced (px_cache_max_body P) W host pq r)"
proof -
  from assms(2,4) obtain key inm host pq where k: "cache_request_key req = Some (key, inm, host, pq)"
    by (auto simp: cache_phase_def split: option.splits)
  then have get: "rq_method req = ''GET''" "\<not> hhas (rq_headers req) ''authorization''"
    "key = cache_key host pq (hget (rq_headers req) ''accept-encoding'')"
    by (auto simp: cache_request_key_def request_cacheable_def Let_def split: if_splits)
  obtain cache' l where l: "cache_lookup E (sh_dir S) cache key (w_now W) = Inr (cache', l)"
    and sound: "lookup_sound H key (w_now W) l"
    using cache_lookup_sound [OF cache_run_sound [OF assms(1)]] by meson
  have "\<exists>r. answers_with ws inm r \<and>
     ((\<exists>e. (key, e, r) \<in> H \<and> (w_now W < e \<or> confirmed (px_cache_max_body P) W host pq r)) \<or> replaced (px_cache_max_body P) W host pq r)"
  proof (cases l)
    case Miss
    with assms(2-) k l show ?thesis by (simp add: cache_phase_def)
  next
    case (Fresh hit)
    with assms(2-) k l have "serve_cache_hit W hit inm = Handled ws" by (simp add: cache_phase_def)
    moreover from Fresh sound obtain e where "(key, e, hit) \<in> H" "w_now W < e"
      by (auto simp: lookup_sound_def)
    ultimately show ?thesis using serve_cache_hit_answers by blast
  next
    case (Stale hit)
    with assms(2-) k l have "revalidate_stale P W (S\<lparr>sh_cache := Some cache'\<rparr>) cache' hit key inm host pq ctx
        = Inr (S', ctx', Handled ws)" by (simp add: cache_phase_def)
    moreover from Stale sound obtain e where "(key, e, hit) \<in> H" by (auto simp: lookup_sound_def)
    ultimately show ?thesis using revalidate_stale_answers by blast
  qed
  with k get show ?thesis by blast
qed

definition demo_text :: string where
  "demo_text = ''x.io/a'' @ [CHR 0x1F]"

definition warm_shared :: shared where
  "warm_shared = demo_shared\<lparr>sh_cache := Some (snd (cache_put demo_env demo_io [] (cache_new 4)
     demo_text (SysTime 5000000000) (demo_response ''hi'')))\<rparr>"

lemma demo_key: "cache_request_key demo_request = Some (demo_text, None, ''x.io'', ''/a'')"
  by code_simp

lemma warm_run:
  "cache_run demo_env {(demo_text, SysTime 5000000000, demo_response ''hi'')} (sh_dir warm_shared)
     (snd (cache_put demo_env demo_io [] (cache_new 4) demo_text (SysTime 5000000000) (demo_response ''hi'')))"
proof -
  have "valid_utf8 demo_text" by code_simp
  moreover have "length demo_text < 4294967296" by (simp add: demo_text_def)
  ultimately have fine: "entry_fine demo_text (SysTime 5000000000) (demo_response ''hi'')"
    by (simp add: entry_fine_def string_fine_def response_fine_def demo_response_def systime_secs_def)
  have len: "length (encode demo_text (SysTime 5000000000) (demo_response ''hi'')) < 2 ^ 64"
    by (simp add: encode_def write_bytes_def demo_response_def demo_text_def)
  have "fst (cache_put demo_env demo_io [] (cache_new 4) demo_text (SysTime 5000000000) (demo_response ''hi'')) = []"
    by (simp add: cache_put_def cache_new_def)
  then show ?thesis
    using cache_run.put [OF cache_run.start_memory [of demo_env 4] fine len]
    by (simp add: warm_shared_def demo_shared_def) (metis prod.collapse)
qed

theorem cache_answers_right_witness:
  "\<exists>S' ctx' ws r. cache_phase demo_proxy demo_world warm_shared demo_request new_ctx = Inr (S', ctx', Handled ws)
     \<and> answers_with ws None r \<and> rq_method demo_request = ''GET''"
proof -
  have "\<exists>S' ctx' ws. cache_phase demo_proxy demo_world warm_shared demo_request new_ctx
      = Inr (S', ctx', Handled ws)"
    by (simp add: cache_phase_def warm_shared_def demo_key cache_put_def insert_memory_def cache_new_def
        Let_def al_insert_def al_remove_def cache_lookup_def demo_shared_def demo_world_def classify_def
        less_systime_def serve_cache_hit_def demo_response_def)
  then obtain S' ctx' ws where "cache_phase demo_proxy demo_world warm_shared demo_request new_ctx
      = Inr (S', ctx', Handled ws)" by blast
  from this cache_answers_right [OF warm_run _ _ this] demo_key show ?thesis
    by (fastforce simp: warm_shared_def demo_world_def)
qed

subsection \<open>Where the components do not fit together\<close>

text \<open>
  Every enabled site becomes a route with a directory, also a site of type \<open>app\<close>; such a route is always
  answered from files, so no request to an app site ever reaches the app.
\<close>

lemma build_route_static:
  "r_static_dir (snd (build_route h i rc)) = map_option static_dir_new (rcf_root rc)"
  by (simp add: build_route_def Let_def with_static_def with_headers_def with_strip_prefix_def with_id_def
      route_new_def split: prod.split option.split)

lemma static_route_not_proxied:
  assumes "match_route (sh_router S) (host_name req) (rq_path req) = Some route"
    and "r_static_dir route \<noteq> None"
  shows "request_filter P W S req ctx \<noteq> Inr (S', ctx', Proceed)"
proof -
  from assms have "try_serve_static W (sh_router S) req \<noteq> Proceed"
    by (auto simp: try_serve_static_def Let_def split: option.splits)
  moreover have "sh_router (fst (limit_phase W S req)) = sh_router S" by (rule limit_phase_frame)
  ultimately show ?thesis
    by (auto simp: request_filter_def Let_def split: prod.splits verdict.splits)
qed

lemma app_site_never_proxied:
  assumes "to_route site = Some rc" and "st_kind site = App" and "st_app site = Some app"
    and "match_route (sh_router S) (host_name req) (rq_path req)
           = Some ((snd (build_route h i rc))\<lparr>r_next := n\<rparr>)"
  shows "request_filter P W S req ctx \<noteq> Inr (S', ctx', Proceed)"
proof (rule static_route_not_proxied [OF assms(4)])
  from assms(1) have "rcf_root rc = Some (st_root site)" by (auto simp: to_route_def split: if_splits)
  then show "r_static_dir ((snd (build_route h i rc))\<lparr>r_next := n\<rparr>) \<noteq> None"
    by (simp add: build_route_static)
qed

text \<open>The php-fpm address of a site has no effect.\<close>

lemma php_fpm_ignored: "to_route (site\<lparr>st_php_fpm := a\<rparr>) = to_route site"
  by (simp add: to_route_def)

text \<open>
  A stale entry of a prefix-stripping route is revalidated under the client's path, while a request of the
  same route is forwarded under the stripped one: the answer of another resource is served.
\<close>

definition strip_router :: router where
  "strip_router = [with_strip_prefix (route_new None (Some ''/api'')
     [\<lparr>t_address = ''u:80'', t_tls = False, t_sni = [], t_h2 = False, t_healthy = 0\<rparr>]) True]"

definition strip_world :: world where
  "strip_world = demo_world\<lparr>w_client := (\<lambda>r. Some
     (if cq_uri r = ''http://u:80/a'' then \<lparr>ur_status = 304, ur_headers = [], ur_body = None\<rparr>
      else \<lparr>ur_status = 200, ur_headers = [], ur_body = Some ''other''\<rparr>))\<rparr>"

definition strip_request :: request where
  "strip_request = demo_request\<lparr>rq_path := ''/api/a'', rq_path_and_query := Some ''/api/a''\<rparr>"

definition strip_hit :: cached_response where
  "strip_hit = \<lparr>cr_status = 200, cr_headers = [(''etag'', ''v1'')], cr_body = ''mine''\<rparr>"

definition written :: "(shared \<times> request_ctx \<times> verdict) res \<Rightarrow> bytes option" where
  "written r = (case r of Inr (_, _, Handled [RespHead _ _ _, RespBody b _]) \<Rightarrow> Some b | _ \<Rightarrow> None)"

definition forwarded_path :: "'n proxy \<Rightarrow> world \<Rightarrow> shared \<Rightarrow> request \<Rightarrow> string" where
  "forwarded_path P W S req =
     (case upstream_peer P W S req new_ctx of (_, ctx, _) \<Rightarrow>
        fst (upstream_request_filter P W (\<lambda>_. True) req ctx (target_text req, [])))"

lemma revalidation_ignores_stripping:
  "written (revalidate_stale demo_proxy strip_world (demo_shared\<lparr>sh_router := strip_router\<rparr>) (cache_new 4)
      strip_hit ''k'' None ''x.io'' ''/api/a'' new_ctx) = Some ''other''"
  "forwarded_path demo_proxy strip_world (demo_shared\<lparr>sh_router := strip_router\<rparr>) strip_request = ''/a''"
  by code_simp+

text \<open>A cached answer keeps one value of a repeated header, where the origin's answer had them all.\<close>

lemma cache_hit_collapses_repeated:
  "values_of (cache_hit_headers (\<lambda>_ _. True) (demo_response [] \<lparr>cr_headers := [(''link'', ''a''), (''link'', ''b'')]\<rparr>))
     ''link'' = [''b'']"
  by code_simp

text \<open>
  The stored lifetime after a revalidation does not look at \<open>Set-Cookie\<close>: a response that would not be stored
  on the ordinary path is stored when it replaces a stale entry.
\<close>

lemma revalidated_cookie_stored:
  "stored_ttl \<lparr>cr_status = 200, cr_headers = [(''cache-control'', ''max-age=9''), (''set-cookie'', ''id=1'')], cr_body = []\<rparr>
     = Some 9"
  "response_ttl 200 (Some ''max-age=9'') True None = None"
  by code_simp+

end
