(* ===== verification/Http3Props.thy ===== *)
theory Http3Props
  imports Http3 ProxyProps
begin

section \<open>Properties of the HTTP/3 proxy\<close>

text \<open>
  Replay safety of early data, the bound on forwarded bodies, the body the client gets through a
  compressor, and how the HTTP/3 path relates to the HTTP/1 and HTTP/2 path.
\<close>

lemmas outcome_defs = status_only_def sent_def

lemma h3_static_forward: "h3_static W route path = Some out \<Longrightarrow> ho_forward out = None"
  by (auto simp: h3_static_def outcome_defs Let_def split: option.splits)

lemma h3_plugins_forward: "h3_plugins L W rt hq = (rt', Some out) \<Longrightarrow> ho_forward out = None"
  by (auto simp: h3_plugins_def outcome_defs Let_def split: option.splits if_splits prod.splits)

lemma h3_serve_hit_forward: "ho_forward (h3_serve_hit W hq hit) = None"
  by (simp add: h3_serve_hit_def outcome_defs Let_def split: option.split)

lemma h3_relay_forward:
  "h3_relay L W C S hq route k fwd status hs frames fails = Inr (S', out) \<Longrightarrow> ho_forward out = Some fwd"
  by (auto simp: h3_relay_def Let_def rbind_def split: prod.splits if_splits option.splits sum.splits)

text \<open>Whatever is forwarded was built from the request, past all guards.\<close>

lemma h3_upstream_forward:
  assumes "h3_upstream L W C uri_ok up S hq k = Inr (S', out)" and "ho_forward out = Some fwd"
  shows "\<not> h3_too_large L (hq_req hq) \<and>
    (\<exists>rt target. next_target_for (w_health W) (sh_router S) (hq_host hq) (rq_path (hq_req hq)) = (rt, Some target) \<and>
       h3_forward_request W uri_ok (hs_limits L) (match_route (sh_router S) (hq_host hq) (rq_path (hq_req hq))) target hq
         = Some fwd)"
proof -
  let ?route = "match_route (sh_router S) (hq_host hq) (rq_path (hq_req hq))"
  obtain rt target where t:
    "next_target_for (w_health W) (sh_router S) (hq_host hq) (rq_path (hq_req hq)) = (rt, target)"
    by fastforce
  note run = assms(1) [unfolded h3_upstream_def t Let_def prod.case]
  obtain tg where tg: "target = Some tg"
    using run assms(2) by (cases target) (auto simp: status_only_def)
  have nl: "\<not> h3_too_large L (hq_req hq)"
    using run assms(2) tg by (auto simp: status_only_def)
  obtain f where f: "h3_forward_request W uri_ok (hs_limits L) ?route tg hq = Some f"
    using run assms(2) tg nl
    by (cases "h3_forward_request W uri_ok (hs_limits L) ?route tg hq") auto
  obtain elapsed ans where "up f = (elapsed, ans)" by fastforce
  with run tg nl f assms(2) have "f = fwd"
    by (auto dest: h3_relay_forward split: if_splits answer.splits)
  with nl f t tg show ?thesis by simp
qed

text \<open>The stages that a forwarded request went through.\<close>

lemma proxy_request_stages:
  assumes "proxy_request L W C uri_ok up S hq = Inr (S', out)" and "ho_forward out = Some fwd"
  shows "\<not> h3_denied L hq \<and> (is_early hq \<longrightarrow> is_safe_method (rq_method (hq_req hq))) \<and>
    (\<exists>rt S1 k. h3_plugins L W (sh_router S) hq = (rt, None) \<and>
       h3_cache_phase L W (S\<lparr>sh_router := rt\<rparr>) hq = Inr (S1, None, k) \<and>
       h3_upstream L W C uri_ok up S1 hq k = Inr (S', out))"
proof -
  let ?route = "match_route (sh_router S) (hq_host hq) (rq_path (hq_req hq))"
  have guards: "\<not> h3_denied L hq" "\<not> (is_early hq \<and> \<not> is_safe_method (rq_method (hq_req hq)))"
    using assms by (auto simp: proxy_request_def status_only_def Let_def split: if_splits)
  note run = assms(1) [unfolded proxy_request_def Let_def, simplified guards if_False]
  have st: "h3_static W ?route (rq_path (hq_req hq)) = None"
    using run assms(2)
    by (cases "h3_static W ?route (rq_path (hq_req hq))") (auto dest: h3_static_forward)
  obtain rt handled where p: "h3_plugins L W (sh_router S) hq = (rt, handled)" by fastforce
  have h: "handled = None"
    using run st p assms(2) by (cases handled) (auto dest: h3_plugins_forward)
  with run st p obtain S1 serve k where c: "h3_cache_phase L W (S\<lparr>sh_router := rt\<rparr>) hq = Inr (S1, serve, k)"
    by (auto simp: rbind_def split: sum.splits)
  with run st p h assms(2) have "serve = None"
    by (cases serve) (auto simp: h3_serve_hit_forward)
  with run st p h c guards show ?thesis by simp
qed

lemma proxy_request_forward:
  assumes "proxy_request L W C uri_ok up S hq = Inr (S', out)" and "ho_forward out = Some fwd"
  shows "\<not> h3_denied L hq \<and> (is_early hq \<longrightarrow> is_safe_method (rq_method (hq_req hq))) \<and>
    \<not> h3_too_large L (hq_req hq) \<and>
    (\<exists>route target. h3_forward_request W uri_ok (hs_limits L) route target hq = Some fwd)"
  using proxy_request_stages [OF assms] h3_upstream_forward assms(2) by blast

subsection \<open>Early data\<close>

text \<open>The safe methods of RFC 9110.\<close>

definition rfc_safe :: "string set" where
  "rfc_safe = {''GET'', ''HEAD'', ''OPTIONS'', ''TRACE''}"

text \<open>
  C0. Replay safety of 0-RTT: while the handshake is not complete, a request whose method is not safe
  is answered 425 (or 403 to a denied client) and changes nothing: no file, plugin, cache or origin is
  touched; a safe one that is forwarded keeps its method and carries \<open>Early-Data: 1\<close>.
\<close>

theorem early_requests_replay_safe:
  assumes "proxy_request L W C uri_ok up S hq = Inr (S', out)" and "is_early hq"
  shows "if rq_method (hq_req hq) \<in> rfc_safe
     then (case ho_forward out of
             None \<Rightarrow> True
           | Some fwd \<Rightarrow> hf_method fwd \<in> rfc_safe \<and> (''early-data'', Some ''1'') \<in> set (hf_headers fwd))
     else S' = S \<and> out = status_only (if h3_denied L hq then 403 else 425)"
proof (cases "rq_method (hq_req hq) \<in> rfc_safe")
  case True
  show ?thesis
  proof (cases "ho_forward out")
    case (Some fwd)
    from proxy_request_forward [OF assms(1) Some]
    obtain route target where "h3_forward_request W uri_ok (hs_limits L) route target hq = Some fwd"
      by blast
    with True assms(2) Some show ?thesis
      by (auto simp: h3_forward_request_def Let_def split: if_splits)
  qed (use True in simp)
next
  case False
  then have "\<not> is_safe_method (rq_method (hq_req hq))" by (simp add: is_safe_method_def rfc_safe_def)
  with False assms show ?thesis by (auto simp: proxy_request_def split: if_splits)
qed

definition demo_h3 :: "(ip_addr \<times> nat) h3_listener" where
  "demo_h3 = \<lparr>hs_net = cidr, hs_access = demo_ac,
     hs_limits = \<lparr>hl_max_body = Some 3, hl_max_header = None, hl_connect_timeout = None,
       hl_read_timeout = None, hl_compression = Some 6\<rparr>,
     hs_cache_max_body = 100, hs_revalidates = True, hs_plugins = None\<rparr>"

text \<open>A compressor that holds one byte back.\<close>

definition late_coder :: "bytes coder" where
  "late_coder = \<lparr>co_new = (\<lambda>_ _. []),
     co_push = (\<lambda>st d. let all = st @ d in (drop (length all - 1) all, take (length all - 1) all)),
     co_finish = (\<lambda>st. st)\<rparr>"

definition demo_origin :: origin where
  "demo_origin = (\<lambda>_. (5, Answer 200 [(''cache-control'', Some ''max-age=5'')] [Some ''ab'', None, Some ''c''] False))"

definition demo_h3_shared :: shared where
  "demo_h3_shared = demo_shared\<lparr>sh_router := [route_new None None
     [\<lparr>t_address = ''u:80'', t_tls = False, t_sni = [], t_h2 = False, t_healthy = 0\<rparr>]]\<rparr>"

definition demo_h3_request :: "string \<Rightarrow> bytes list \<Rightarrow> connection \<Rightarrow> h3_request" where
  "demo_h3_request meth body conn = \<lparr>hq_req = demo_request\<lparr>rq_method := meth, rq_body := body\<rparr>,
     hq_host = Some ''x.io'', hq_ip = V4 [10, 0, 0, 6], hq_ip_text = ''10.0.0.6'', hq_connection = conn\<rparr>"

definition demo_run :: "string \<Rightarrow> bytes list \<Rightarrow> connection \<Rightarrow> (shared \<times> h3_outcome) res" where
  "demo_run meth body conn = proxy_request demo_h3 demo_world late_coder (\<lambda>_. True) demo_origin demo_h3_shared
     (demo_h3_request meth body conn)"

theorem early_requests_replay_safe_witness:
  "\<exists>S' out. demo_run ''POST'' [''x''] (ZeroRtt False) = Inr (S', out) \<and> S' = demo_h3_shared \<and> out = status_only 425"
proof -
  have "\<not> h3_denied demo_h3 (demo_h3_request ''POST'' [''x''] (ZeroRtt False))" by code_simp
  moreover have "is_early (demo_h3_request ''POST'' [''x''] (ZeroRtt False))"
    "rq_method (hq_req (demo_h3_request ''POST'' [''x''] (ZeroRtt False))) \<notin> rfc_safe"
    "\<not> is_safe_method ''POST''"
    by (code_simp, simp add: demo_h3_request_def rfc_safe_def, code_simp)
  moreover obtain S' out where "demo_run ''POST'' [''x''] (ZeroRtt False) = Inr (S', out)"
    using calculation by (simp add: demo_run_def proxy_request_def demo_h3_request_def)
  ultimately show ?thesis
    using early_requests_replay_safe [of demo_h3 demo_world late_coder "\<lambda>_. True" demo_origin demo_h3_shared
        "demo_h3_request ''POST'' [''x''] (ZeroRtt False)" S' out]
    by (simp add: demo_run_def)
qed

subsection \<open>The forwarded body\<close>

lemma forward_body_None [simp]: "forward_body None seen chunks = chunks"
  by (induction chunks) simp_all

lemma forward_body_prefix:
  "\<exists>rest. chunks = forward_body (Some mx) seen chunks @ rest \<and>
     (seen \<le> mx \<longrightarrow> seen + length (concat (forward_body (Some mx) seen chunks)) \<le> mx) \<and>
     (rest = [] \<or> mx < seen + length (concat (forward_body (Some mx) seen chunks @ take 1 rest)))"
proof (induction chunks arbitrary: seen)
  case (Cons c cs)
  show ?case
  proof (cases "mx < seen + length c")
    case False
    with Cons.IH [of "seen + length c"] show ?thesis by (auto simp: add.assoc)
  qed simp
qed simp


definition forwarded :: "(shared \<times> h3_outcome) res \<Rightarrow> h3_forward option" where
  "forwarded r = (case r of Inl _ \<Rightarrow> None | Inr (_, out) \<Rightarrow> ho_forward out)"

definition answered :: "(shared \<times> h3_outcome) res \<Rightarrow> nat option" where
  "answered r = (case r of Inr (_, out) \<Rightarrow> (case ho_events out of H3Head n _ # _ \<Rightarrow> Some n | _ \<Rightarrow> None) | Inl _ \<Rightarrow> None)"

lemma demo_forward:
  "map_option hf_body (forwarded (demo_run ''POST'' [''ab'', ''c''] FullHandshake)) = Some [''ab'', ''c'']"
  by code_simp


text \<open>
  An upload that declares no length and exceeds the limit is cut and forwarded as if it were complete, and the
  client gets the origin's answer; the same body over HTTP/1 or HTTP/2 aborts the request.
\<close>

lemma h3_oversized_upload_truncated:
  "map_option hf_body (forwarded (demo_run ''POST'' [''ab'', ''cd''] FullHandshake)) = Some [''ab'']"
  "answered (demo_run ''POST'' [''ab'', ''cd''] FullHandshake) = Some 200"
  "run_request_body (demo_proxy\<lparr>px_max_body := Some 3\<rparr>) [''ab'', ''cd''] new_ctx = None"
  by code_simp+

text \<open>A body whose reading fails is forwarded as if it were complete.\<close>

lemma h3_read_error_unnoticed:
  "h3_forward_request W uri_ok l route target (hq\<lparr>hq_req := (hq_req hq)\<lparr>rq_body_fails := True\<rparr>\<rparr>)
     = h3_forward_request W uri_ok l route target hq"
  "h3_buffer mx [] (rq_body ((hq_req hq)\<lparr>rq_body_fails := True\<rparr>)) = h3_buffer mx [] (rq_body (hq_req hq))"
  by (cases route; cases "rq_query (hq_req hq)"; simp add: h3_forward_request_def is_early_def forward_path_def Let_def cong: option.case_cong)+

subsection \<open>The relayed body\<close>

definition data_frames :: "bytes option list \<Rightarrow> bytes list" where
  "data_frames frames = List.map_filter id frames"

definition data_of :: "h3_event list \<Rightarrow> bytes" where
  "data_of evs = concat (List.map_filter (\<lambda>e. case e of H3Data d \<Rightarrow> Some d | _ \<Rightarrow> None) evs)"

lemma data_frames_simps [simp]:
  "data_frames [] = []" "data_frames (None # fs) = data_frames fs" "data_frames (Some d # fs) = d # data_frames fs"
  by (simp_all add: data_frames_def map_filter_simps)

lemma data_of_simps [simp]:
  "data_of [] = []" "data_of (H3Data d # evs) = d @ data_of evs" "data_of (H3Head n hs # evs) = data_of evs"
  "data_of (H3Finish # evs) = data_of evs" "data_of (evs @ evs') = data_of evs @ data_of evs'"
  by (simp_all add: data_of_def List.map_filter_def)

text \<open>All the bytes a compressor gives for the chunks, and what makes it lossless.\<close>

fun coded :: "'s coder \<Rightarrow> 's \<Rightarrow> bytes list \<Rightarrow> bytes" where
  "coded C st [] = co_finish C st"
| "coded C st (d # ds) = (let (st, chunk) = co_push C st d in chunk @ coded C st ds)"

definition lossless :: "'s coder \<Rightarrow> (encoding \<Rightarrow> bytes \<Rightarrow> bytes) \<Rightarrow> bool" where
  "lossless C dec = (\<forall>e level ds. dec e (coded C (co_new C e level) ds) = concat ds)"

text \<open>The captured body: everything, or nothing once the bound is passed.\<close>

definition captured :: "nat \<Rightarrow> bytes \<Rightarrow> capture" where
  "captured max_body body = (if max_body < length body then ([], True) else (body, False))"

lemma accumulate_captured:
  "accumulate_cache_body active max_body d (if active then captured max_body body else ([], False))
     = (if active then captured max_body (body @ d) else ([], False))"
  by (auto simp: accumulate_cache_body_def captured_def)

lemma relay_plain_spec:
  "relay_plain active max_body frames (if active then captured max_body body else ([], False)) = (evs, c) \<Longrightarrow>
     data_of evs = concat (data_frames frames) \<and>
     c = (if active then captured max_body (body @ concat (data_frames frames)) else ([], False))"
proof (induction frames arbitrary: body evs)
  case (Cons f fs)
  then show ?case
  proof (cases f)
    case (Some d)
    with Cons show ?thesis unfolding Some relay_plain.simps accumulate_captured
      by (fastforce split: prod.splits)
  next
    case None
    with Cons show ?thesis unfolding None relay_plain.simps data_frames_simps by blast
  qed
qed (auto simp: data_of_def)

lemma relay_encoded_spec:
  "relay_encoded C active max_body frames st (if active then captured max_body body else ([], False))
       = (evs, st', c) \<Longrightarrow>
     coded C st (data_frames frames) = data_of evs @ co_finish C st' \<and>
     c = (if active then captured max_body (body @ concat (data_frames frames)) else ([], False))"
proof (induction frames arbitrary: body st evs st' c)
  case (Cons f fs)
  then show ?case
  proof (cases f)
    case (Some d)
    obtain st1 chunk where p: "co_push C st d = (st1, chunk)" by fastforce
    obtain evs1 st2 c2 where r: "relay_encoded C active max_body fs st1
        (if active then captured max_body (body @ d) else ([], False)) = (evs1, st2, c2)"
      using prod_cases3 by blast
    from Cons.prems have "evs = (if chunk = [] then evs1 else H3Data chunk # evs1)" "st' = st2" "c = c2"
      unfolding Some relay_encoded.simps accumulate_captured p Let_def prod.case r by simp_all
    with Cons.IH [OF r] p show ?thesis by (simp add: Some)
  next
    case None
    with Cons show ?thesis unfolding None relay_encoded.simps data_frames_simps by blast
  qed
qed auto

lemma relay_body_spec:
  assumes "relay_body C l enc active max_body frames False = (evs, c)" and "lossless C dec"
  shows "(case enc of None \<Rightarrow> data_of evs | Some e \<Rightarrow> dec e (data_of evs)) = concat (data_frames frames) \<and>
     (active \<longrightarrow> c = captured max_body (concat (data_frames frames)))"
proof -
  have start: "([], False) = (if active then captured max_body [] else ([], False))"
    by (simp add: captured_def)
  show ?thesis
  proof (cases enc)
    case None
    with assms(1) start have "relay_plain active max_body frames
        (if active then captured max_body [] else ([], False)) = (evs, c)" by (simp add: relay_body_def)
    from relay_plain_spec [OF this] None show ?thesis by simp
  next
    case (Some e)
    let ?lv = "case hl_compression l of None \<Rightarrow> 6 | Some n \<Rightarrow> n"
    obtain evs1 st1 c1 where r: "relay_encoded C active max_body frames (body_encoder_new C e ?lv)
        (if active then captured max_body [] else ([], False)) = (evs1, st1, c1)"
      using prod_cases3 by blast
    with assms(1) Some start have ev: "evs = (if co_finish C st1 = [] then evs1 else evs1 @ [H3Data (co_finish C st1)])"
      "c = c1" by (auto simp: relay_body_def Let_def)
    from relay_encoded_spec [OF r]
    have "coded C (body_encoder_new C e ?lv) (data_frames frames) = data_of evs"
      and cap: "active \<longrightarrow> c = captured max_body (concat (data_frames frames))"
      unfolding ev by simp_all
    then have "dec e (data_of evs) = concat (data_frames frames)"
      using assms(2) unfolding lossless_def body_encoder_new_def by metis
    with Some cap show ?thesis by simp
  qed
qed

lemma encoded_headers_name:
  "hget (encoded_headers (Some e) hs) ''content-encoding'' = Some (header_value e)"
proof -
  have low: "to_ascii_lowercase ''content-encoding'' = ''content-encoding''" by code_simp
  have t: "header_text (header_value e) = Some (header_value e)" by (cases e) (simp_all add: header_text_def)
  have "List.find P (filter (\<lambda>h. fst h \<noteq> a) xs) = None" if "\<And>h. P h \<longleftrightarrow> fst h = a" for P a and xs :: "(string \<times> string option) list"
    using that by (simp add: find_None_iff)
  note none = this
  have app: "List.find P (xs @ ys) = (case List.find P xs of None \<Rightarrow> List.find P ys | Some y \<Rightarrow> Some y)"
    for P and xs ys :: "(string \<times> string option) list"
    by (induction xs) simp_all
  have f: "List.find (\<lambda>h. fst h = ''content-encoding'') (filter (\<lambda>h. fst h \<noteq> ''content-length'') xs)
      = List.find (\<lambda>h. fst h = ''content-encoding'') xs" for xs :: "(string \<times> string option) list"
    by (induction xs) auto
  show ?thesis
    by (simp add: encoded_headers_def hget_def map_remove_def map_insert_def low t app none f del: filter_append)
qed

text \<open>The two ways a relayed response ends.\<close>

lemma h3_relay_ends:
  assumes "h3_relay L W C S hq route k fwd status hs frames fails = Inr (S', out)"
    and "relay_body C (hs_limits L) (h3_encoding (hs_limits L) (hq_req hq) (relay_headers W route hs))
           (h3_cacheable k status (relay_headers W route hs) \<noteq> None) (hs_cache_max_body L) frames fails = (evs, buf, overflow)"
    and "sends = H3Head status (encoded_headers (h3_encoding (hs_limits L) (hq_req hq) (relay_headers W route hs))
           (relay_headers W route hs)) # evs @ (if fails then [] else [H3Finish])"
  shows "(if ho_ok out then
       \<not> fails \<and> cut_off W sends = None \<and> ho_events out = sends \<and>
       Inr S' = (case (sh_cache S, h3_cacheable k status (relay_headers W route hs)) of
          (Some cache, Some (key, ttl, st, headers)) \<Rightarrow>
            if overflow then Inr S
            else h3_store W (w_later W) S cache key ttl
                   \<lparr>cr_status = of_nat st, cr_headers = headers, cr_body = buf\<rparr>
        | _ \<Rightarrow> Inr S)
     else S' = S \<and> ho_events out = (case cut_off W sends of None \<Rightarrow> sends | Some received \<Rightarrow> received) \<and>
       (cut_off W sends = None \<longrightarrow> fails))"
proof (cases "cut_off W sends")
  case None
  then show ?thesis
    using assms(1) unfolding h3_relay_def Let_def assms(2) prod.case assms(3)
    by (cases fails) (auto simp: rbind_def split: option.splits prod.splits sum.splits if_splits)
next
  case (Some received)
  then show ?thesis
    using assms(1) unfolding h3_relay_def Let_def assms(2) prod.case assms(3) by (cases fails) auto
qed

lemma cut_off_prefix:
  "cut_off W sends = Some received \<Longrightarrow> \<exists>n. w_accepts W = Some n \<and> n < length sends \<and> received = take n sends"
  by (auto simp: cut_off_def split: option.splits if_splits)

lemma relayed_no_finish:
  assumes "relay_body C l enc active max_body frames fails = (evs, c)"
  shows "H3Finish \<notin> set evs"
proof -
  have plain: "H3Finish \<notin> set (fst (relay_plain active max_body frames c))" for c
    by (induction active max_body frames c rule: relay_plain.induct) (simp_all add: case_prod_unfold Let_def)
  have coded: "H3Finish \<notin> set (fst (relay_encoded C active max_body frames st c))" for st c
  proof (induction frames arbitrary: st c)
    case (Cons f fs)
    then show ?case by (cases f) (simp_all add: case_prod_unfold Let_def)
  qed simp
  show ?thesis
    using assms plain [of "([], False)"] coded [of _ "([], False)"]
    by (auto simp: relay_body_def Let_def case_prod_unfold split: option.splits if_splits)
qed

text \<open>
  C18. What the client gets over HTTP/3 is the origin's response: when the origin's stream does not fail and the
  client stays, the head has its status, the announced coding is the one used, and the data, decoded by
  it, is the origin's body, for any compressor that loses nothing; and the cache gets the body as the origin
  sent it, unencoded, exactly when the response is cacheable and the body within the bound.  When the client goes,
  it has got a proper part of the sends, which never ends as a complete response does, uncoded data is a
  prefix of the origin's body, and nothing is stored.
\<close>

theorem h3_response_intact:
  assumes "h3_relay L W C S hq route k fwd status hs frames False = Inr (S', out)" and "lossless C dec"
    and "enc = h3_encoding (hs_limits L) (hq_req hq) (relay_headers W route hs)"
    and "body = concat (data_frames frames)"
  shows "if ho_ok out then
     (\<exists>h. hd (ho_events out) = H3Head status h \<and> last (ho_events out) = H3Finish \<and>
        (case enc of
           None \<Rightarrow> h = relay_headers W route hs \<and> data_of (ho_events out) = body
         | Some e \<Rightarrow> hget h ''content-encoding'' = Some (header_value e) \<and> dec e (data_of (ho_events out)) = body)) \<and>
     Inr S' = (case (sh_cache S, h3_cacheable k status (relay_headers W route hs)) of
        (Some cache, Some (key, ttl, st, headers)) \<Rightarrow>
          if hs_cache_max_body L < length body then Inr S
          else h3_store W (w_later W) S cache key ttl
                 \<lparr>cr_status = of_nat st, cr_headers = headers, cr_body = body\<rparr>
      | _ \<Rightarrow> Inr S)
   else S' = S \<and> w_accepts W = Some (length (ho_events out)) \<and> H3Finish \<notin> set (ho_events out) \<and>
     (enc = None \<longrightarrow> (\<exists>rest. data_of (ho_events out) @ rest = body))"
proof -
  let ?hs = "relay_headers W route hs"
  obtain evs buf overflow where b: "relay_body C (hs_limits L) enc (h3_cacheable k status ?hs \<noteq> None) (hs_cache_max_body L)
      frames False = (evs, buf, overflow)" by (metis prod.exhaust)
  note spec = relay_body_spec [OF b assms(2), folded assms(4)]
  define sends where "sends = H3Head status (encoded_headers enc ?hs) # evs @ [H3Finish]"
  note ends = h3_relay_ends [OF assms(1), folded assms(3), OF b, of sends, unfolded if_False, OF sends_def]
  show ?thesis
  proof (cases "ho_ok out")
    case True
    with ends have out: "ho_events out = sends" and S': "Inr S' = (case (sh_cache S, h3_cacheable k status ?hs) of
        (Some cache, Some (key, ttl, st, headers)) \<Rightarrow>
          if overflow then Inr S
          else h3_store W (w_later W) S cache key ttl \<lparr>cr_status = of_nat st, cr_headers = headers, cr_body = buf\<rparr>
      | _ \<Rightarrow> Inr S)" by simp_all
    have "Inr S' = (case (sh_cache S, h3_cacheable k status ?hs) of
        (Some cache, Some (key, ttl, st, headers)) \<Rightarrow>
          if hs_cache_max_body L < length body then Inr S
          else h3_store W (w_later W) S cache key ttl \<lparr>cr_status = of_nat st, cr_headers = headers, cr_body = body\<rparr>
      | _ \<Rightarrow> Inr S)"
      unfolding S' using spec
      by (cases "sh_cache S"; cases "h3_cacheable k status ?hs") (auto simp: captured_def split: if_splits)
    with True out spec encoded_headers_name show ?thesis
      by (cases enc) (simp_all add: sends_def encoded_headers_def)
  next
    case False
    with ends obtain received where "cut_off W sends = Some received" "ho_events out = received" "S' = S"
      by (cases "cut_off W sends") auto
    moreover from cut_off_prefix [OF this(1)] obtain n where n: "w_accepts W = Some n" "n < length sends"
      "received = take n sends" by blast
    moreover have "take n sends = take n (H3Head status (encoded_headers enc ?hs) # evs)"
      using n(2) by (cases n) (simp_all add: sends_def)
    moreover have "H3Finish \<notin> set (take n (H3Head status (encoded_headers enc ?hs) # evs))"
      using relayed_no_finish [OF b] by (auto dest: in_set_takeD)
    moreover have "data_of (take n sends) @ data_of (drop n sends) = data_of sends"
      by (simp flip: data_of_simps(5))
    ultimately show ?thesis
      using False spec by (cases enc) (auto simp: sends_def min_def)
  qed
qed

lemma lossless_late: "lossless late_coder (\<lambda>_ b. b)"
proof -
  have "coded late_coder st ds = st @ concat ds" for st ds
  proof (induction ds arbitrary: st)
    case (Cons d ds)
    let ?n = "length (st @ d) - 1"
    have "co_push late_coder st d = (drop ?n (st @ d), take ?n (st @ d))"
      by (simp only: late_coder_def coder.simps Let_def)
    then have "coded late_coder st (d # ds) = take ?n (st @ d) @ drop ?n (st @ d) @ concat ds"
      by (simp only: coded.simps Let_def prod.case Cons.IH)
    then show ?case by (simp only: append_assoc [symmetric] append_take_drop_id concat.simps)
  qed (simp add: late_coder_def)
  then show ?thesis by (simp add: lossless_def) (simp add: late_coder_def)
qed

definition demo_relay :: "(shared \<times> h3_outcome) res" where
  "demo_relay = h3_relay demo_h3 demo_world late_coder demo_h3_shared
     ((demo_h3_request ''GET'' [] FullHandshake)\<lparr>hq_req := demo_request\<lparr>rq_headers := [(''accept-encoding'', Some ''gzip'')]\<rparr>\<rparr>)
     None (Some ''k'') \<lparr>hf_method = ''GET'', hf_uri = [], hf_headers = [], hf_body = []\<rparr>
     200 [(''cache-control'', Some ''max-age=5'')] [Some ''ab'', None, Some ''c''] False"

theorem h3_response_intact_witness:
  "\<exists>S' out. demo_relay = Inr (S', out) \<and> data_of (ho_events out) = ''abc'' \<and> last (ho_events out) = H3Finish"
proof -
  have "case demo_relay of Inl _ \<Rightarrow> False | Inr (S', out) \<Rightarrow> ho_ok out" by code_simp
  then obtain S' out where r: "demo_relay = Inr (S', out)" and ok: "ho_ok out"
    by (auto split: sum.splits prod.splits)
  let ?req = "demo_request\<lparr>rq_headers := [(''accept-encoding'', Some ''gzip'')]\<rparr>"
  have enc: "h3_encoding (hs_limits demo_h3) ?req (relay_headers demo_world None [(''cache-control'', Some ''max-age=5'')])
      = Some Gzip" by code_simp
  from h3_response_intact [OF r [unfolded demo_relay_def] lossless_late refl refl] ok enc r show ?thesis
    by (simp add: Let_def) blast
qed

subsection \<open>One cache, two paths\<close>

lemma stored_ttl_agree: "stored_ttl_h3 r = stored_ttl r"
  by (simp add: stored_ttl_h3_def stored_ttl_def)

lemma store_agree: "w_later W = t \<Longrightarrow> h3_store W t S cache key ttl r = store_entry W S cache key ttl r"
  by (simp add: h3_store_def store_entry_def)

text \<open>
  The two cache stages agree: the same error, or the same state, the same key to store under, and the same
  response to serve, if any.
\<close>

definition same_answer :: "world \<Rightarrow> string option \<Rightarrow> (shared \<times> request_ctx \<times> verdict) res
    \<Rightarrow> (shared \<times> cached_response option \<times> string option) res \<Rightarrow> bool" where
  "same_answer W inm r1 r3 =
     (case (r1, r3) of
        (Inr (S1, ctx, v), Inr (S3, serve, key)) \<Rightarrow>
          S1 = S3 \<and> cx_cache_key ctx = key \<and>
          (case serve of
             None \<Rightarrow> v = Proceed
           | Some hit \<Rightarrow> v = serve_cache_hit W hit inm \<or> v = serve_cache_hit W hit None)
      | (Inl e1, Inl e3) \<Rightarrow> e1 = e3
      | _ \<Rightarrow> False)"

lemma same_answer_stored:
  "w_later W = t \<Longrightarrow> cx_cache_key ctx = None \<Longrightarrow> inm' = inm \<or> inm' = None \<Longrightarrow>
   same_answer W inm (rbind (store_entry W S cache key ttl r) (\<lambda>S. Inr (S, ctx, serve_cache_hit W hit inm')))
     (rbind (h3_store W t S cache key ttl r) (\<lambda>S. Inr (S, Some hit, None)))"
  by (auto simp: store_agree same_answer_def rbind_def split: sum.split)

lemma stale_agree:
  assumes "hq_host hq = Some host" and "rq_path (hq_req hq) = first_piece CHR ''?'' pq pq"
    and "hs_revalidates L" and "hs_cache_max_body L = px_cache_max_body P" and "w_later W = w_now W"
    and "cx_cache_key ctx = None"
  shows "same_answer W inm (revalidate_stale P W S cache hit key inm host pq ctx)
           (h3_stale L W S cache hq hit key host pq)"
proof -
  obtain rt target where t: "next_target_for (w_health W) (sh_router S) (Some host) (first_piece CHR ''?'' pq pq)
      = (rt, target)" by fastforce
  note eqs = revalidate_stale_def h3_stale_def assms(1,2) t Let_def prod.case
  show ?thesis
  proof (cases "etag hit")
    case None
    then show ?thesis unfolding eqs by (simp add: same_answer_def)
  next
    case et: (Some et)
    show ?thesis
    proof (cases target)
      case None
      with et show ?thesis unfolding eqs by (simp add: same_answer_def)
    next
      case (Some tg)
      note eqs' = eqs et Some option.case assms(4) stored_ttl_agree
      show ?thesis
      proof (cases "revalidate (w_client W) tg pq host et (px_cache_max_body P)")
        case NotModified
        then show ?thesis unfolding eqs' using assms(3,5,6) same_answer_stored by simp
      next
        case (Modified status hs body)
        show ?thesis
        proof (cases "stored_ttl \<lparr>cr_status = of_nat status, cr_headers = hs, cr_body = body\<rparr>")
          case None
          with Modified show ?thesis unfolding eqs' using assms(3,6) by (simp add: same_answer_def)
        next
          case (Some ttl)
          with Modified show ?thesis unfolding eqs'
            using assms(3) same_answer_stored [OF assms(5,6), of None inm] by simp
        qed
      next
        case Failed
        then show ?thesis unfolding eqs' using assms(3) by (simp add: same_answer_def)
      qed
    qed
  qed
qed



text \<open>
  What the paths store differs: the HTTP/3 path captures the headers after the route's response headers
  are set, the other one as the origin sent them, so an entry depends on the path that filled it.
\<close>

definition headed_route :: route where
  "headed_route = with_headers (route_new None None []) [] [(''X-Frame-Options'', ''DENY'')]"

lemma stored_headers_differ:
  "map_option (\<lambda>(_, _, _, hs). map fst hs)
     (h3_cacheable (Some ''k'') 200 (relay_headers demo_world (Some headed_route) [(''cache-control'', Some ''max-age=5'')]))
   = Some [''cache-control'', ''x-frame-options'']"
  "map fst (cx_cache_headers (upstream_response_filter demo_shared 200 [(''cache-control'', Some ''max-age=5'')]
     (new_ctx\<lparr>cx_cache_key := Some ''k'', cx_resp_headers := r_response_headers headed_route\<rparr>)))
   = [''cache-control'']"
  by code_simp+

end
