(* ===== verification/Startup.thy ===== *)
theory Startup
  imports Http3Props Certificates
begin

section \<open>Start-up and metrics: \<^verbatim>\<open>main\<close> of \<^verbatim>\<open>crates/zaphyl/src/main.rs\<close>, \<^verbatim>\<open>crates/zaphyl/src/metrics.rs\<close>\<close>

text \<open>
  How \<open>main\<close> turns a configuration into listeners that share one router, one cache, one access
  list and one set of plugin chains, and what is recorded of a finished request.  Binding sockets,
  threads and messages are outside; their outcomes and the crates are fields of \<open>start_env\<close>.
\<close>

subsection \<open>The command line\<close>

fun config_path_from_args :: "string list \<Rightarrow> string option" where
  "config_path_from_args [] = None"
| "config_path_from_args (arg # args) =
     (if arg = ''--config'' \<or> arg = ''-c'' then (case args of [] \<Rightarrow> None | p # _ \<Rightarrow> Some p)
      else config_path_from_args args)"

subsection \<open>The parts built from the configuration\<close>

record 'n start_env =
  se_net :: "'n net_api"
  se_port :: "string \<Rightarrow> u16"               \<comment> \<open>the port of a socket address\<close>
  se_acme_addr :: "string option"
  se_acme_started :: bool
  se_host_ok :: bool
  se_load_plugin :: "string \<Rightarrow> plugin option"
  se_cpus :: "nat option"
  se_server_ok :: bool

definition build_access :: "'n net_api \<Rightarrow> config \<Rightarrow> string + 'n access_control" where
  "build_access N c =
     (case cf_access c of
        None \<Rightarrow> Inr \<lparr>ac_allow = [], ac_deny = []\<rparr>
      | Some a \<Rightarrow> access_parse N (acl_allow a) (acl_deny a))"

definition build_cache :: "config \<Rightarrow> response_cache option" where
  "build_cache c =
     map_option (\<lambda>k. case cc_disk_path k of
                       Some dir \<Rightarrow> with_disk (cc_max_entries k)
                     | None \<Rightarrow> cache_new (cc_max_entries k)) (cf_cache c)"

definition h3_limits_of :: "config \<Rightarrow> h3_limits" where
  "h3_limits_of c =
     (let limit = (\<lambda>f. case cf_limits c of None \<Rightarrow> None | Some l \<Rightarrow> f l)
      in \<lparr>hl_max_body = limit lim_max_body, hl_max_header = limit lim_max_header,
          hl_connect_timeout = limit lim_connect_timeout, hl_read_timeout = limit lim_read_timeout,
          hl_compression = cf_compression c\<rparr>)"

definition h3_listener_of :: "'n net_api \<Rightarrow> config \<Rightarrow> 'n access_control \<Rightarrow> response_cache option \<Rightarrow> plugins option
    \<Rightarrow> 'n h3_listener" where
  "h3_listener_of N c access cache ps =
     \<lparr>hs_net = N, hs_access = access, hs_limits = h3_limits_of c,
      hs_cache_max_body = (case cf_cache c of None \<Rightarrow> 0 | Some k \<Rightarrow> cc_max_body k),
      hs_revalidates = (cache \<noteq> None), hs_plugins = ps\<rparr>"

text \<open>\<open>build_server\<close>: the proxy behind its listener, and the metrics listener.\<close>

record 'n server =
  sr_grace :: nat
  sr_timeout :: nat
  sr_threads :: nat
  sr_proxy :: "'n proxy"
  sr_listen :: string
  sr_tls :: "(string \<times> string) option"
  sr_metrics :: "string option"

definition build_server :: "'n start_env \<Rightarrow> config \<Rightarrow> (string \<times> string) option \<Rightarrow> 'n access_control \<Rightarrow> plugins option
    \<Rightarrow> 'n server option" where
  "build_server E c tls access ps =
     (if \<not> se_server_ok E then None
      else Some \<lparr>sr_grace = (case cf_shutdown_grace c of None \<Rightarrow> 5 | Some n \<Rightarrow> n), sr_timeout = 3,
             sr_threads = (case cf_worker_threads c of
                             Some n \<Rightarrow> n
                           | None \<Rightarrow> (case se_cpus E of None \<Rightarrow> 1 | Some n \<Rightarrow> n)),
             sr_proxy = proxy_new c (tls \<noteq> None)
               (case cf_http3 c of None \<Rightarrow> 0 | Some l \<Rightarrow> unat (se_port E l)) (se_net E) access ps,
             sr_listen = cf_listen c, sr_tls = tls, sr_metrics = cf_metrics c\<rparr>)"

subsection \<open>\<open>main\<close>\<close>

record 'n running =
  ru_front :: "(string \<times> non_challenge) option"
  ru_server :: "'n server"
  ru_shared :: shared
  ru_health :: health
  ru_prober :: "((string \<times> nat) list \<times> nat) option"
  ru_http3 :: "(string \<times> (string \<times> string) \<times> 'n h3_listener) option"

datatype 'n run_result = ExitCode nat | Running "'n running"

definition main_start :: "'n start_env \<Rightarrow> config \<Rightarrow> dir \<Rightarrow> 'n run_result" where
  "main_start E c disk =
     (let front = http_front_choice c (se_port E (cf_listen c)) (se_acme_addr E)
      in case resolve_tls c (se_acme_started E) of
           Exit \<Rightarrow> ExitCode 1
         | Go tls \<Rightarrow>
             (let (h, rt) = build_router c
              in case build_access (se_net E) c of
                   Inl bad \<Rightarrow> ExitCode 1
                 | Inr access \<Rightarrow>
                     (let cache = build_cache c
                      in case plugins_build (se_host_ok E) (se_load_plugin E) c of
                           None \<Rightarrow> ExitCode 1
                         | Some ps \<Rightarrow>
                             (let prober = map_option (Pair (health_probes rt)) (cf_health_check c);
                                  http3 = (case (cf_http3 c, tls) of
                                             (Some l, Some pair) \<Rightarrow>
                                               Some (l, pair, h3_listener_of (se_net E) c access cache ps)
                                           | _ \<Rightarrow> None)
                              in case build_server E c tls access ps of
                                   None \<Rightarrow> ExitCode 1
                                 | Some server \<Rightarrow>
                                     Running \<lparr>ru_front = front, ru_server = server,
                                       ru_shared = \<lparr>sh_router = rt, sh_limiter = limiter_new c,
                                         sh_cache = cache, sh_dir = disk\<rparr>,
                                       ru_health = h, ru_prober = prober, ru_http3 = http3\<rparr>))))"

definition main_run :: "'n start_env \<Rightarrow> string option \<Rightarrow> string list \<Rightarrow> (string \<Rightarrow> 'e load_env) \<Rightarrow> dir \<Rightarrow> 'n run_result" where
  "main_run E parsed args files disk =
     (case (case parsed of Some p \<Rightarrow> Some p | None \<Rightarrow> config_path_from_args args) of
        None \<Rightarrow> ExitCode 2
      | Some path \<Rightarrow> (case load (files path) of Inl e \<Rightarrow> ExitCode 1 | Inr c \<Rightarrow> main_start E c disk))"

subsection \<open>The record of a finished request\<close>

definition status_class :: "nat \<Rightarrow> string" where
  "status_class status =
     (if status = 0 then ''none''
      else if 100 \<le> status \<and> status \<le> 199 then ''1xx''
      else if 200 \<le> status \<and> status \<le> 299 then ''2xx''
      else if 300 \<le> status \<and> status \<le> 399 then ''3xx''
      else if 400 \<le> status \<and> status \<le> 499 then ''4xx''
      else if 500 \<le> status \<and> status \<le> 599 then ''5xx''
      else ''other'')"

text \<open>The counters by label: \<open>with_label_values(..).inc()\<close> starts one at its first use.\<close>

type_synonym counters = "(string \<times> nat) list"

definition record_status :: "nat \<Rightarrow> counters \<Rightarrow> counters" where
  "record_status status m =
     al_insert (status_class status) (Suc (case map_of m (status_class status) of None \<Rightarrow> 0 | Some n \<Rightarrow> n)) m"

definition logging :: "request \<Rightarrow> nat option \<Rightarrow> nat \<Rightarrow> counters \<Rightarrow> counters \<times> string" where
  "logging req response_status dur_ms m =
     (let status = (case response_status of None \<Rightarrow> 0 | Some n \<Rightarrow> n);
          host = (case hget (rq_headers req) ''host'' of None \<Rightarrow> ''-'' | Some h \<Rightarrow> h)
      in (record_status status m,
          ''method='' @ rq_method req @ '' host='' @ host @ '' path='' @ rq_path req
            @ '' status='' @ show_nat status @ '' dur_ms='' @ show_nat dur_ms))"

subsection \<open>The router that is built\<close>

lemma build_targets_cells:
  "build_targets h tls grpc as = (h', ts) \<Longrightarrow> fresh h' = fresh h + length as \<and> map t_address ts = as \<and>
     map t_healthy ts = [fresh h ..< fresh h']"
proof (induction as arbitrary: h h' ts)
  case (Cons a as)
  obtain h1 t where t: "target_new h a tls (case rsplit_once CHR '':'' a of Some (host, _) \<Rightarrow> host | None \<Rightarrow> []) = (h1, t)"
    by fastforce
  obtain h2 ts1 where r: "build_targets h1 tls grpc as = (h2, ts1)" by fastforce
  from t have f: "fresh h1 = Suc (fresh h)" "t_healthy t = fresh h" "t_address t = a"
    by (auto simp: target_new_def)
  from Cons.prems have "h' = h2" "ts = with_h2 t grpc # ts1"
    by (simp_all add: t r)
  moreover have "fresh h # [Suc (fresh h) ..< fresh h2] = [fresh h ..< fresh h2]"
    using Cons.IH [OF r] f by (intro upt_conv_Cons [symmetric]) simp
  ultimately show ?case using Cons.IH [OF r] f by (simp add: with_h2_def del: upt_Suc)
qed simp

lemma build_route_parts:
  assumes "build_route h i rc = (h', r)"
  shows "r_id r = i" "r_host r = rcf_host rc" "r_path_prefix r = rcf_path rc" "r_next r = 0"
    "map t_address (r_targets r) = rcf_upstream rc"
    "map t_healthy (r_targets r) = [fresh h ..< fresh h']" "fresh h \<le> fresh h'"
proof -
  obtain h1 ts where t: "build_targets h (rcf_tls rc) (rcf_grpc rc) (rcf_upstream rc) = (h1, ts)" by fastforce
  from assms have "h' = h1" "r_id r = i" "r_host r = rcf_host rc" "r_path_prefix r = rcf_path rc"
    "r_next r = 0" "r_targets r = ts"
    by (auto simp: build_route_def t with_static_def with_headers_def with_strip_prefix_def with_id_def
        route_new_def Let_def split: option.splits)
  with build_targets_cells [OF t]
  show "r_id r = i" "r_host r = rcf_host rc" "r_path_prefix r = rcf_path rc" "r_next r = 0"
    "map t_address (r_targets r) = rcf_upstream rc"
    "map t_healthy (r_targets r) = [fresh h ..< fresh h']" "fresh h \<le> fresh h'" by simp_all
qed

lemma build_routes_parts:
  "build_routes h i rcs = (h', rt) \<Longrightarrow> length rt = length rcs \<and> fresh h \<le> fresh h' \<and>
     map r_id rt = [i ..< i + length rcs] \<and> map r_host rt = map rcf_host rcs \<and>
     map (map t_address \<circ> r_targets) rt = map rcf_upstream rcs \<and>
     map t_healthy (concat (map r_targets rt)) = [fresh h ..< fresh h']"
proof (induction rcs arbitrary: h h' i rt)
  case (Cons rc rcs)
  obtain h1 r where r: "build_route h i rc = (h1, r)" by fastforce
  obtain h2 rt1 where rs: "build_routes h1 (Suc i) rcs = (h2, rt1)" by fastforce
  from Cons.prems have "h' = h2" "rt = r # rt1" by (simp_all add: r rs)
  moreover have "[fresh h ..< fresh h1] @ [fresh h1 ..< fresh h2] = [fresh h ..< fresh h2]"
    using build_route_parts(7) [OF r] Cons.IH [OF rs]
    by (metis le_Suc_ex upt_add_eq_append)
  moreover have "i # [Suc i ..< Suc i + length rcs] = [i ..< Suc i + length rcs]"
    by (intro upt_conv_Cons [symmetric]) simp
  ultimately show ?case
    using Cons.IH [OF rs] build_route_parts [OF r] by (simp del: upt_Suc)
qed simp

subsection \<open>Health probes\<close>

lemma probe_round_other:
  "c \<notin> set (map snd probes) \<Longrightarrow> cells (probe_round reach probes h) c = cells h c"
  by (induction probes arbitrary: h) (auto simp: probe_round_def store_health_def)

lemma probe_round_cell:
  "distinct (map snd probes) \<Longrightarrow> (a, c) \<in> set probes \<Longrightarrow> cells (probe_round reach probes h) c = reach a"
proof (induction probes arbitrary: h)
  case (Cons p ps)
  have step: "probe_round reach (p # ps) h = probe_round reach ps (store_health h (snd p) (reach (fst p)))"
    by (simp add: probe_round_def split: prod.split)
  show ?case
  proof (cases "(a, c) = p")
    case True
    then have "c = snd p" by (metis snd_conv)
    with Cons.prems(1) have "c \<notin> set (map snd ps)" by simp
    from probe_round_other [OF this] True show ?thesis unfolding step by (auto simp: store_health_def)
  next
    case False
    with Cons.prems Cons.IH show ?thesis unfolding step by auto
  qed
qed simp

text \<open>
  Health checking is exact: in the router built from any configuration every target has a health flag
  of its own, and after a round of the prober, from any state of the flags, a target is healthy
  exactly when its own address could be reached.
\<close>

theorem prober_exact:
  assumes "build_router c = (h0, rt)" and "r \<in> set rt" and "t \<in> set (r_targets r)"
  shows "distinct (map t_healthy (concat (map r_targets rt))) \<and>
     is_healthy (probe_round reach (health_probes rt) h) t = reach (t_address t)"
proof -
  have cells: "map t_healthy (concat (map r_targets rt)) = [0 ..< fresh h0]"
    using build_routes_parts [OF assms(1) [unfolded build_router_def]] by simp
  have snd: "map snd (health_probes rt) = map t_healthy (concat (map r_targets rt))"
    by (simp add: health_probes_def health_handle_def map_concat comp_def)
  have "(t_address t, t_healthy t) \<in> set (health_probes rt)"
    using assms(2,3) by (auto simp: health_probes_def health_handle_def)
  from probe_round_cell [OF _ this] cells snd show ?thesis
    by (simp add: is_healthy_def)
qed

theorem prober_exact_witness:
  "(case build_router app_config of (h0, rt) \<Rightarrow>
      list_all (\<lambda>r. list_all (\<lambda>t. is_healthy (probe_round (\<lambda>a. a = ''10.0.0.1:80'') (health_probes rt) h0) t
         = (t_address t = ''10.0.0.1:80'')) (r_targets r)) rt)"
proof -
  obtain h0 rt where b: "build_router app_config = (h0, rt)" by fastforce
  show ?thesis
    using prober_exact [OF b, of _ _ "\<lambda>a. a = ''10.0.0.1:80''" h0] by (simp add: b list_all_iff)
qed

lemma plugins_build_Some:
  assumes "plugins_build host_ok ld c = Some (Some ps)"
  obtains global chs where "load_all ld (case cf_plugins c of None \<Rightarrow> [] | Some p \<Rightarrow> pl_global p) = Some global"
    "build_chains ld global (cf_routes c) = Some chs" "ps_chains ps = chs"
proof -
  define paths where "paths = (case cf_plugins c of None \<Rightarrow> [] | Some p \<Rightarrow> pl_global p)"
  from assms obtain global where g: "load_all ld paths = Some global"
    by (cases "load_all ld paths") (auto simp: plugins_build_def Let_def paths_def split: if_splits)
  with assms obtain chs where "build_chains ld global (cf_routes c) = Some chs" "ps_chains ps = chs"
    by (cases "build_chains ld global (cf_routes c)")
      (auto simp: plugins_build_def Let_def paths_def split: if_splits)
  with g that show thesis unfolding paths_def by blast
qed

text \<open>
  The plugin chain found under a route's identifier is the chain built for that route of the
  configuration, the global plugins first and then its own; a route without any has none.
\<close>

theorem plugin_chains_follow_routes:
  assumes "build_router c = (h, rt)" and "plugins_build host_ok ld c = Some (Some ps)"
    and "i < length (cf_routes c)"
  shows "\<exists>global own. load_all ld (case cf_plugins c of None \<Rightarrow> [] | Some p \<Rightarrow> pl_global p) = Some global \<and>
     load_all ld (rcf_plugins (cf_routes c ! i)) = Some own \<and>
     plugin_chain ps (r_id (rt ! i)) = (if global @ own = [] then None else Some (global @ own))"
proof -
  from build_routes_parts [OF assms(1) [unfolded build_router_def]]
  have len: "length rt = length (cf_routes c)" and ids: "map r_id rt = [0 ..< length (cf_routes c)]" by simp_all
  have "r_id (rt ! i) = map r_id rt ! i" using len assms(3) by simp
  then have "r_id (rt ! i) = i" unfolding ids using assms(3) by simp
  moreover obtain global chs where g: "load_all ld (case cf_plugins c of None \<Rightarrow> [] | Some p \<Rightarrow> pl_global p) = Some global"
    and chs: "build_chains ld global (cf_routes c) = Some chs" "ps_chains ps = chs"
    by (rule plugins_build_Some [OF assms(2)])
  moreover obtain own where "i < length chs" "load_all ld (rcf_plugins (cf_routes c ! i)) = Some own"
    "chs ! i = global @ own"
    using build_chains_nth [OF chs(1) assms(3)] by blast
  ultimately show ?thesis
    by (intro exI [of _ global] exI [of _ own]) (simp add: plugin_chain_def Let_def)
qed

definition tag_plugin :: "string \<Rightarrow> plugin" where
  "tag_plugin n = \<lparr>pg_name = n, pg_handle_request = (\<lambda>r. Some (ContinueWith r)), pg_handle_response = Some\<rparr>"

definition plugin_config :: config where
  "plugin_config = http_only\<lparr>cf_plugins := Some \<lparr>pl_global = [''g.wasm''], pl_max_body = 10\<rparr>,
     cf_routes := map (\<lambda>r. r\<lparr>rcf_plugins := [''r.wasm'']\<rparr>) (cf_routes http_only)\<rparr>"

theorem plugin_chains_follow_routes_witness:
  "\<exists>ps. plugins_build True (\<lambda>p. Some (tag_plugin p)) plugin_config = Some (Some ps) \<and>
     map_option (map pg_name) (plugin_chain ps (r_id (snd (build_router plugin_config) ! 0))) = Some [''g.wasm'', ''r.wasm'']"
proof -
  obtain ps where ps: "plugins_build True (\<lambda>p. Some (tag_plugin p)) plugin_config = Some (Some ps)"
    by (simp add: plugins_build_def plugin_config_def http_only_def Let_def)
  obtain h rt where b: "build_router plugin_config = (h, rt)" by fastforce
  from plugin_chains_follow_routes [OF b ps, of 0] ps b show ?thesis
    by (auto simp: plugin_config_def http_only_def tag_plugin_def)
qed

subsection \<open>The listeners that are started\<close>

lemma load_keeps_listeners:
  "load env = Inr c \<Longrightarrow> \<exists>main body. from_toml (le_parse_config env) body = Inr main \<and> cf_http3 c = cf_http3 main \<and>
     cf_tls c = cf_tls main \<and> (cf_acme c = None) = (cf_acme main = None)"
  by (auto simp: load_def Let_def split: sum.splits prod.splits option.splits)

lemma main_start_parts:
  assumes "main_start E c disk = Running ru"
  shows "\<exists>tls access ps. resolve_tls c (se_acme_started E) = Go tls \<and>
     build_server E c tls access ps = Some (ru_server ru) \<and> sh_cache (ru_shared ru) = build_cache c \<and>
     ru_http3 ru = (case (cf_http3 c, tls) of
        (Some l, Some pair) \<Rightarrow> Some (l, pair, h3_listener_of (se_net E) c access (build_cache c) ps) | _ \<Rightarrow> None)"
  using assms
  by (auto simp: main_start_def Let_def split: startup.splits prod.splits sum.splits option.splits) blast+


definition h3_config :: config where
  "h3_config = http_only\<lparr>cf_tls := Some \<lparr>tls_cert = ''c.pem'', tls_key = ''k.pem''\<rparr>, cf_http3 := Some ''0.0.0.0:443''\<rparr>"

definition h3_files :: "string \<Rightarrow> unit load_env" where
  "h3_files _ = \<lparr>le_main = Inr ''main'', le_sites = None, le_read_site = (\<lambda>_. Inl []),
     le_parse_config = (\<lambda>_. Inr h3_config), le_parse_site = (\<lambda>_. Inl ())\<rparr>"

definition demo_start :: "(ip_addr \<times> nat) start_env" where
  "demo_start = \<lparr>se_net = cidr, se_port = (\<lambda>_. 443), se_acme_addr = None, se_acme_started = False, se_host_ok = True,
     se_load_plugin = (\<lambda>_. None), se_cpus = Some 4, se_server_ok = True\<rparr>"

lemma h3_config_loads: "load (h3_files path) = Inr h3_config"
proof -
  have "trim ''c.pem'' \<noteq> []" "trim ''k.pem'' \<noteq> []" by code_simp+
  then have "validate h3_config = (Inr () :: unit config_error + unit)"
    using http_only_valid by (simp add: validate_def h3_config_def http_only_def on_some_def)
  then show ?thesis
    by (simp add: load_def h3_files_def from_toml_def site_files_def) (simp add: h3_config_def http_only_def)
qed


text \<open>
  The limit on requests per second and the headers for all responses are given to one listener only.
\<close>

lemma http3_listener_lacks:
  "h3_listener_of N (c\<lparr>cf_rate_limit := r, cf_response_headers := hs\<rparr>) access cache ps = h3_listener_of N c access cache ps"
  by (simp add: h3_listener_of_def h3_limits_of_def)

text \<open>
  Validation checks an upstream without the white space around it; the router connects to the text as
  it is written.
\<close>

lemma untrimmed_upstream_accepted:
  "valid_upstream '' 10.0.0.1:80''"
  "map t_address (r_targets (snd (build_route h i (hd (cf_routes http_only)\<lparr>rcf_upstream := ['' 10.0.0.1:80'']\<rparr>))))
     = ['' 10.0.0.1:80'']"
proof -
  show "valid_upstream '' 10.0.0.1:80''" by code_simp
  let ?rc = "hd (cf_routes http_only)\<lparr>rcf_upstream := ['' 10.0.0.1:80'']\<rparr>"
  obtain h' r where b: "build_route h i ?rc = (h', r)" by fastforce
  from build_route_parts(5) [OF b] b
  show "map t_address (r_targets (snd (build_route h i ?rc))) = ['' 10.0.0.1:80'']" by simp
qed

subsection \<open>Metrics\<close>

fun record_all :: "nat list \<Rightarrow> counters \<Rightarrow> counters" where
  "record_all [] m = m"
| "record_all (s # ss) m = record_all ss (record_status s m)"

definition count_of :: "counters \<Rightarrow> string \<Rightarrow> nat" where
  "count_of m class = (case map_of m class of None \<Rightarrow> 0 | Some n \<Rightarrow> n)"

lemma count_of_record: "count_of (record_status s m) class = count_of m class + (if status_class s = class then 1 else 0)"
  by (simp add: count_of_def record_status_def al_simps)

text \<open>Each counter is the number of finished requests of its class.\<close>

theorem metrics_count_requests:
  "count_of (record_all statuses []) class = length (filter (\<lambda>s. status_class s = class) statuses)"
proof -
  have "count_of (record_all statuses m) class = count_of m class + length (filter (\<lambda>s. status_class s = class) statuses)" for m
    by (induction statuses arbitrary: m) (simp_all add: count_of_record)
  then show ?thesis by (simp add: count_of_def)
qed

end
