(* ===== verification/SharedCache.thy ===== *)
theory SharedCache
  imports Startup
begin

section \<open>The shared cache under both listeners\<close>

text \<open>
  Requests of both listeners work on one cache in any order.  The interface: a call of a listener
  changes the cache only by lookups and by puts of entries that the call may put.  What a client of that
  interface gets is proved once for it; the callbacks and the HTTP/3 handler provide it.
\<close>

subsection \<open>Uses of the cache\<close>

type_synonym puts = "string \<Rightarrow> systime \<Rightarrow> cached_response \<Rightarrow> bool"

inductive uses :: "cache_env \<Rightarrow> puts \<Rightarrow> dir \<Rightarrow> response_cache \<Rightarrow> dir \<Rightarrow> response_cache \<Rightarrow> bool"
  for E :: cache_env and ok :: puts where
  none: "uses E ok d c d c"
| look: "uses E ok d c d' c' \<Longrightarrow> cache_lookup E d' c' k now = Inr (c'', l) \<Longrightarrow> uses E ok d c d' c''"
| put: "uses E ok d c d' c' \<Longrightarrow> ok k e r \<Longrightarrow> cache_put E io d' c' k e r = (d'', c'') \<Longrightarrow> uses E ok d c d'' c''"

text \<open>How the state changes: without a cache it stays without, and a cache is used.\<close>

definition uses_state :: "cache_env \<Rightarrow> puts \<Rightarrow> shared \<Rightarrow> shared \<Rightarrow> bool" where
  "uses_state E ok S S' =
     (case sh_cache S of
        None \<Rightarrow> sh_cache S' = None
      | Some c \<Rightarrow> (case sh_cache S' of None \<Rightarrow> False | Some c' \<Rightarrow> uses E ok (sh_dir S) c (sh_dir S') c'))"

named_theorems uses_intros \<open>steps that only use the cache\<close>

lemma uses_trans: "uses E ok d' c' d'' c'' \<Longrightarrow> uses E ok d c d' c' \<Longrightarrow> uses E ok d c d'' c''"
  by (induction rule: uses.induct) (auto intro: uses.intros)

lemma uses_state_frame [uses_intros]:
  "sh_cache S' = sh_cache S \<Longrightarrow> sh_dir S' = sh_dir S \<Longrightarrow> uses_state E ok S S'"
  by (auto simp: uses_state_def intro: uses.none split: option.split)

lemma uses_state_trans: "uses_state E ok S S' \<Longrightarrow> uses_state E ok S' S'' \<Longrightarrow> uses_state E ok S S''"
  by (auto simp: uses_state_def intro: uses_trans split: option.splits)

lemma uses_state_look:
  "sh_cache S = Some c \<Longrightarrow> cache_lookup E (sh_dir S) c k now = Inr (c', l) \<Longrightarrow>
     uses_state E ok S (S\<lparr>sh_cache := Some c'\<rparr>)"
  by (auto simp: uses_state_def intro: uses.look [OF uses.none])

lemma uses_state_put:
  "sh_cache S = Some c \<Longrightarrow> ok k e r \<Longrightarrow> cache_put E io (sh_dir S) c k e r = (sh_dir S', c') \<Longrightarrow>
     sh_cache S' = Some c' \<Longrightarrow> uses_state E ok S S'"
  by (auto simp: uses_state_def intro: uses.put [OF uses.none])

lemma uses_state_mono:
  assumes "uses_state E ok S S'" and "\<And>k e r. ok k e r \<Longrightarrow> ok' k e r"
  shows "uses_state E ok' S S'"
proof -
  have "uses E ok d c d' c' \<Longrightarrow> uses E ok' d c d' c'" for d c d' c'
    by (induction rule: uses.induct) (auto intro: uses.intros assms(2))
  with assms(1) show ?thesis by (auto simp: uses_state_def split: option.splits)
qed

text \<open>Entries that the file format can represent.\<close>

definition representable :: "puts \<Rightarrow> bool" where
  "representable ok = (\<forall>k e r. ok k e r \<longrightarrow> entry_fine k e r \<and> length (encode k e r) < 2 ^ 64)"

lemma uses_run:
  assumes "uses E ok d c d' c'" and "cache_run E H d c" and "representable ok"
  shows "\<exists>H'. cache_run E H' d' c' \<and> (\<forall>(k, e, r)\<in>H'. (k, e, r) \<in> H \<or> ok k e r)"
  using assms
proof (induction rule: uses.induct)
  case (look d c d' c' k now c'' l)
  then show ?case by (blast intro: cache_run.look)
next
  case (put d c d' c' k e r io d'' c'')
  then obtain H' where H': "cache_run E H' d' c'" "\<forall>(k, e, r)\<in>H'. (k, e, r) \<in> H \<or> ok k e r" by blast
  from put have "entry_fine k e r" "length (encode k e r) < 2 ^ 64" by (simp_all add: representable_def)
  from cache_run.put [OF H'(1) this put.hyps(3)] H'(2) put.hyps(2) show ?case by blast
qed blast

lemma uses_state_lookup:
  assumes "uses_state E ok S S'" and "sh_cache S = Some c" and "cache_run E {} (sh_dir S) c" and "representable ok"
  shows "\<exists>c' c'' l. sh_cache S' = Some c' \<and> cache_lookup E (sh_dir S') c' k now = Inr (c'', l) \<and>
     (case l of
        Miss \<Rightarrow> True
      | Fresh r \<Rightarrow> \<exists>e. ok k e r \<and> now < e
      | Stale r \<Rightarrow> \<exists>e. ok k e r)"
proof -
  from assms(1,2) obtain c' where c': "sh_cache S' = Some c'" "uses E ok (sh_dir S) c (sh_dir S') c'"
    by (auto simp: uses_state_def split: option.splits)
  from uses_run [OF c'(2) assms(3,4)] obtain H where H: "cache_run E H (sh_dir S') c'"
    "\<forall>(k, e, r)\<in>H. ok k e r" by auto
  then have put: "ok k e r" if "(k, e, r) \<in> H" for k e r using that by blast
  from cache_lookup_sound [OF cache_run_sound [OF H(1)]]
  obtain c'' l where l: "cache_lookup E (sh_dir S') c' k now = Inr (c'', l)" "lookup_sound H k now l" by meson
  from l(2) have "case l of Miss \<Rightarrow> True | Fresh r \<Rightarrow> \<exists>e. ok k e r \<and> now < e | Stale r \<Rightarrow> \<exists>e. ok k e r"
    by (cases l; simp add: lookup_sound_def; use put in blast)
  with c'(1) l(1) show ?thesis by blast
qed

subsection \<open>The interface\<close>

text \<open>Calls handled one after another; a call that panics leaves no next state.\<close>

inductive handled :: "('c \<Rightarrow> shared \<Rightarrow> shared \<Rightarrow> bool) \<Rightarrow> 'c list \<Rightarrow> shared \<Rightarrow> shared \<Rightarrow> bool"
  for handle :: "'c \<Rightarrow> shared \<Rightarrow> shared \<Rightarrow> bool" where
  start: "handled handle [] S S"
| step: "handled handle cs S S' \<Longrightarrow> handle c S' S'' \<Longrightarrow> handled handle (cs @ [c]) S S''"

locale cache_user =
  fixes E :: cache_env
    and handle :: "'c \<Rightarrow> shared \<Rightarrow> shared \<Rightarrow> bool"
    and may_put :: "'c \<Rightarrow> puts"
  assumes handle_uses: "handle c S S' \<Longrightarrow> uses_state E (may_put c) S S'"
begin

lemma handled_uses: "handled handle cs S S' \<Longrightarrow> uses_state E (\<lambda>k e r. \<exists>c\<in>set cs. may_put c k e r) S S'"
proof (induction rule: handled.induct)
  case (start S)
  then show ?case by (rule uses_state_frame) simp_all
next
  case (step cs S S' c S'')
  let ?ok = "\<lambda>k e r. \<exists>c\<in>set (cs @ [c]). may_put c k e r"
  have "uses_state E ?ok S S'" by (rule uses_state_mono [OF step.IH]) auto
  moreover have "uses_state E ?ok S' S''" by (rule uses_state_mono [OF handle_uses [OF step.hyps(2)]]) auto
  ultimately show ?case by (rule uses_state_trans)
qed

lemma handled_lookup:
  assumes "handled handle cs S S'" and "sh_cache S = Some c" and "cache_run E {} (sh_dir S) c"
    and "\<forall>call\<in>set cs. representable (may_put call)"
  shows "\<exists>c' c'' l. sh_cache S' = Some c' \<and> cache_lookup E (sh_dir S') c' k now = Inr (c'', l) \<and>
     (case l of
        Miss \<Rightarrow> True
      | Fresh r \<Rightarrow> \<exists>call\<in>set cs. \<exists>e. may_put call k e r \<and> now < e
      | Stale r \<Rightarrow> \<exists>call\<in>set cs. \<exists>e. may_put call k e r)"
proof -
  have "representable (\<lambda>k e r. \<exists>c\<in>set cs. may_put c k e r)" using assms(4) by (auto simp: representable_def)
  from uses_state_lookup [OF handled_uses [OF assms(1)] assms(2,3) this, of k now]
  obtain c' c'' l where "sh_cache S' = Some c'" "cache_lookup E (sh_dir S') c' k now = Inr (c'', l)"
    "case l of
        Miss \<Rightarrow> True
      | Fresh r \<Rightarrow> \<exists>e. (\<exists>c\<in>set cs. may_put c k e r) \<and> now < e
      | Stale r \<Rightarrow> \<exists>e. \<exists>c\<in>set cs. may_put c k e r" by blast
  then show ?thesis by (cases l) auto
qed

end

subsection \<open>The calls that work on the cache\<close>

text \<open>
  The callbacks of the HTTP/1 and HTTP/2 proxy that see the shared state, and the HTTP/3 handler, each with its
  arguments and the answers of the outside.
\<close>

datatype ('n, 's) call =
  RequestFilter "'n proxy" world request request_ctx
| UpstreamPeer "'n proxy" world request request_ctx
| ResponseBody "'n proxy" world "bytes option" bool request_ctx
| Http3Request "'n h3_listener" world "'s coder" "string \<Rightarrow> bool" origin h3_request

fun handle_call :: "cache_env \<Rightarrow> ('n, 's) call \<Rightarrow> shared \<Rightarrow> shared \<Rightarrow> bool" where
  "handle_call E (RequestFilter P W req ctx) S S' =
     (w_env W = E \<and> (\<exists>ctx' v. request_filter P W S req ctx = Inr (S', ctx', v)))"
| "handle_call E (UpstreamPeer P W req ctx) S S' = (\<exists>ctx' peer. upstream_peer P W S req ctx = (S', ctx', peer))"
| "handle_call E (ResponseBody P W body eos ctx) S S' =
     (w_env W = E \<and> (\<exists>ctx'. upstream_response_body_filter P W S body eos ctx = Inr (S', ctx')))"
| "handle_call E (Http3Request L W C uri_ok up hq) S S' =
     (w_env W = E \<and> (\<exists>out. proxy_request L W C uri_ok up S hq = Inr (S', out)))"

definition expires :: "world \<Rightarrow> systime \<Rightarrow> bool" where
  "expires W e = (\<exists>t ttl. (t = w_now W \<or> t = w_later W) \<and> time_add_secs t ttl = Inr e)"

text \<open>The origin's answer to a forwarded HTTP/3 request, as it is stored.\<close>

definition relayed :: "world \<Rightarrow> (string \<Rightarrow> bool) \<Rightarrow> h3_limits \<Rightarrow> origin \<Rightarrow> h3_request \<Rightarrow> cached_response \<Rightarrow> bool" where
  "relayed W uri_ok l up hq r =
     (\<exists>route target fwd elapsed status hs frames.
        h3_forward_request W uri_ok l route target hq = Some fwd \<and>
        up fwd = (elapsed, Answer status hs frames False) \<and>
        cr_status r = of_nat status \<and> cr_body r = concat (data_frames frames))"

definition h3_key :: "h3_request \<Rightarrow> string" where
  "h3_key hq = cache_key (case hq_host hq of None \<Rightarrow> [] | Some h \<Rightarrow> h) (target_text (hq_req hq))
     (hget (rq_headers (hq_req hq)) ''accept-encoding'')"

definition h3_host :: "h3_request \<Rightarrow> string" where
  "h3_host hq = (case hq_host hq of None \<Rightarrow> [] | Some h \<Rightarrow> h)"

text \<open>What a call may put: a response the origin confirmed or gave for the request whose key it is put under.\<close>

fun may_put :: "('n, 's) call \<Rightarrow> puts" where
  "may_put (RequestFilter P W req ctx) k e r =
     (\<exists>inm host pq. cache_request_key req = Some (k, inm, host, pq) \<and> expires W e \<and>
        (confirmed (px_cache_max_body P) W host pq r \<or> replaced (px_cache_max_body P) W host pq r))"
| "may_put (UpstreamPeer P W req ctx) k e r = False"
| "may_put (ResponseBody P W body eos ctx) k e r =
     (cx_cache_key ctx = Some k \<and> expires W e \<and> eos \<and>
      r = \<lparr>cr_status = of_nat (cx_cache_status ctx), cr_headers = cx_cache_headers ctx,
           cr_body = cx_cache_body ctx @ (case body of None \<Rightarrow> [] | Some b \<Rightarrow> b)\<rparr>)"
| "may_put (Http3Request L W C uri_ok up hq) k e r =
     (k = h3_key hq \<and> expires W e \<and>
      (confirmed (hs_cache_max_body L) W (h3_host hq) (target_text (hq_req hq)) r \<or>
       replaced (hs_cache_max_body L) W (h3_host hq) (target_text (hq_req hq)) r \<or>
       relayed W uri_ok (hs_limits L) up hq r))"

lemma h3_store_uses:
  assumes "h3_store W t S c k ttl r = Inr S'" and "sh_cache S = Some c"
    and "\<And>e. time_add_secs t ttl = Inr e \<Longrightarrow> ok k e r"
  shows "uses_state (w_env W) ok S S'"
proof -
  obtain e where e: "time_add_secs t ttl = Inr e"
    using assms(1) by (cases "time_add_secs t ttl") (auto simp: h3_store_def rbind_def)
  obtain d c' where p: "cache_put (w_env W) (w_io W) (sh_dir S) c k e r = (d, c')" by fastforce
  from assms(1) e p have "S' = S\<lparr>sh_dir := d, sh_cache := Some c'\<rparr>"
    by (auto simp: h3_store_def rbind_def)
  with p show ?thesis
    using uses_state_put [OF assms(2), of ok k e r "w_env W" "w_io W" S' c'] assms(3) [OF e] by simp
qed

lemma store_entry_uses:
  assumes "store_entry W S c k ttl r = Inr S'" and "sh_cache S = Some c"
    and "\<And>e. time_add_secs (w_later W) ttl = Inr e \<Longrightarrow> ok k e r"
  shows "uses_state (w_env W) ok S S'"
  using h3_store_uses [of W "w_later W" S c k ttl r S' ok] assms by (simp add: store_agree)

subsection \<open>The HTTP/1 and HTTP/2 callbacks use the cache\<close>

lemma revalidate_stale_uses:
  assumes "revalidate_stale P W S c hit key inm host pq ctx = Inr (S', ctx', v)" and "sh_cache S = Some c"
  shows "uses_state (w_env W) (\<lambda>k e r. k = key \<and> expires W e \<and>
     (confirmed (px_cache_max_body P) W host pq r \<or> replaced (px_cache_max_body P) W host pq r)) S S'"
proof -
  let ?ok = "\<lambda>k e r. k = key \<and> expires W e \<and>
     (confirmed (px_cache_max_body P) W host pq r \<or> replaced (px_cache_max_body P) W host pq r)"
  obtain rt target where t: "next_target_for (w_health W) (sh_router S) (Some host) (first_piece CHR ''?'' pq pq)
      = (rt, target)" by fastforce
  note run = assms(1) [unfolded revalidate_stale_def t Let_def prod.case]
  let ?S = "S\<lparr>sh_router := rt\<rparr>"
  have frame: "uses_state (w_env W) ?ok S ?S" by (rule uses_state_frame) simp_all
  have cache: "sh_cache ?S = Some c" using assms(2) by simp
  have "uses_state (w_env W) ?ok ?S S'"
  proof (cases "etag hit = None \<or> target = None")
    case True
    then have "S' = ?S" using run by (auto split: option.splits)
    then show ?thesis by (auto intro: uses_state_frame)
  next
    case False
    then obtain et tg where et: "etag hit = Some et" "target = Some tg" by auto
    show ?thesis
    proof (cases "revalidate (w_client W) tg pq host et (px_cache_max_body P)")
      case NotModified
      with run et have st: "store_entry W ?S c key (case stored_ttl hit of Some t \<Rightarrow> t | None \<Rightarrow> 60) hit = Inr S'"
        by (simp add: rbind_def split: sum.splits)
      have "confirmed (px_cache_max_body P) W host pq hit"
        using NotModified et(1) unfolding confirmed_def by blast
      then show ?thesis by (intro store_entry_uses [OF st cache]) (auto simp: expires_def)
    next
      case (Modified status hs body)
      let ?r = "\<lparr>cr_status = of_nat status, cr_headers = hs, cr_body = body\<rparr>"
      have rep: "replaced (px_cache_max_body P) W host pq ?r"
        using Modified unfolding replaced_def by fastforce
      show ?thesis
      proof (cases "stored_ttl ?r")
        case None
        with run et Modified have "S' = ?S" by simp
        then show ?thesis by (auto intro: uses_state_frame)
      next
        case (Some ttl)
        with run et Modified have st: "store_entry W ?S c key ttl ?r = Inr S'"
          by (simp add: rbind_def split: sum.splits)
        show ?thesis by (intro store_entry_uses [OF st cache]) (use rep in \<open>auto simp: expires_def\<close>)
      qed
    next
      case Failed
      with run et have "S' = ?S" by simp
      then show ?thesis by (auto intro: uses_state_frame)
    qed
  qed
  with frame show ?thesis by (rule uses_state_trans)
qed

lemma cache_phase_uses:
  assumes "cache_phase P W S req ctx = Inr (S', ctx', v)"
  shows "uses_state (w_env W) (may_put (RequestFilter P W req ctx0)) S S'"
proof (cases "sh_cache S")
  case None
  with assms show ?thesis by (auto simp: cache_phase_def intro: uses_state_frame)
next
  case (Some c)
  show ?thesis
  proof (cases "cache_request_key req")
    case None
    with Some assms show ?thesis by (auto simp: cache_phase_def intro: uses_state_frame)
  next
    case key: (Some q)
    obtain key inm host pq where q: "q = (key, inm, host, pq)" by (cases q)
    note run = assms [unfolded cache_phase_def Some key q option.case prod.case]
    obtain c' l where l: "cache_lookup (w_env W) (sh_dir S) c key (w_now W) = Inr (c', l)"
      using run by (cases "cache_lookup (w_env W) (sh_dir S) c key (w_now W)") (auto simp: rbind_def)
    let ?S = "S\<lparr>sh_cache := Some c'\<rparr>"
    have look: "uses_state (w_env W) (may_put (RequestFilter P W req ctx0)) S ?S"
      by (rule uses_state_look [OF Some l])
    have "uses_state (w_env W) (may_put (RequestFilter P W req ctx0)) ?S S'"
    proof (cases l)
      case (Stale hit)
      with run l have "revalidate_stale P W ?S c' hit key inm host pq ctx = Inr (S', ctx', v)"
        by (simp add: rbind_def Let_def)
      from revalidate_stale_uses [OF this] show ?thesis
        by (rule uses_state_mono) (use key q in auto)
    qed (use run l in \<open>auto simp: rbind_def Let_def intro: uses_state_frame\<close>)
    with look show ?thesis by (rule uses_state_trans)
  qed
qed

lemma request_filter_uses:
  assumes "request_filter P W S req ctx = Inr (S', ctx', v)"
  shows "uses_state (w_env W) (may_put (RequestFilter P W req ctx)) S S'"
proof -
  obtain S1 ok where l: "limit_phase W S req = (S1, ok)" by fastforce
  have f: "sh_router S1 = sh_router S" "sh_cache S1 = sh_cache S" "sh_dir S1 = sh_dir S"
    using limit_phase_frame [of W S req] l by simp_all
  obtain rt w where p: "try_run_plugins P W (sh_router S1) req = (rt, w)" by fastforce
  have frame: "uses_state (w_env W) (may_put (RequestFilter P W req ctx)) S (S1\<lparr>sh_router := rt\<rparr>)"
    by (rule uses_state_frame) (simp_all add: f)
  show ?thesis
  proof (cases "\<exists>ctx'' v'. cache_phase P W (S1\<lparr>sh_router := rt\<rparr>) req ctx = Inr (S', ctx'', v')")
    case True
    then show ?thesis using cache_phase_uses uses_state_trans [OF frame] by blast
  next
    case False
    with assms l p f have "sh_cache S' = sh_cache S \<and> sh_dir S' = sh_dir S"
      by (auto simp: request_filter_def Let_def split: if_splits verdict.splits)
    then show ?thesis by (intro uses_state_frame) simp_all
  qed
qed

lemma response_body_uses:
  assumes "upstream_response_body_filter P W S body eos ctx = Inr (S', ctx')"
  shows "uses_state (w_env W) (may_put (ResponseBody P W body eos ctx)) S S'"
proof (cases "S' = S")
  case True
  then show ?thesis by (auto intro: uses_state_frame)
next
  case False
  define ctx1 where "ctx1 = (case body of
                          None \<Rightarrow> ctx
                        | Some chunk \<Rightarrow>
                            if px_cache_max_body P < length (cx_cache_body ctx) + length chunk
                            then ctx\<lparr>cx_cache_overflow := True, cx_cache_body := []\<rparr>
                            else ctx\<lparr>cx_cache_body := cx_cache_body ctx @ chunk\<rparr>)"
  from assms False obtain c ttl where c: "sh_cache S = Some c" "cx_cache_ttl ctx = Some ttl"
    by (auto simp: upstream_response_body_filter_def split: option.splits)
  note run = assms [unfolded upstream_response_body_filter_def c prod.case option.case Let_def, folded ctx1_def]
  from run False have eos: "eos" "\<not> cx_cache_overflow ctx1" by (auto split: if_splits)
  from run False eos obtain key where key: "cx_cache_key ctx1 = Some key"
    by (cases "cx_cache_key ctx1") (auto split: if_splits)
  from run False eos key have st: "store_entry W S c key ttl \<lparr>cr_status = of_nat (cx_cache_status ctx1),
      cr_headers = cx_cache_headers ctx1, cr_body = cx_cache_body ctx1\<rparr> = Inr S'"
    by (auto simp: rbind_def split: if_splits sum.splits)
  from eos(2) have ctx1: "cx_cache_key ctx1 = cx_cache_key ctx" "cx_cache_status ctx1 = cx_cache_status ctx"
    "cx_cache_headers ctx1 = cx_cache_headers ctx"
    "cx_cache_body ctx1 = cx_cache_body ctx @ (case body of None \<Rightarrow> [] | Some b \<Rightarrow> b)"
    by (auto simp: ctx1_def split: option.splits if_splits)
  show ?thesis
    by (rule store_entry_uses [OF st c(1)]) (use key eos ctx1 in \<open>auto simp: expires_def\<close>)
qed

lemma upstream_peer_uses:
  assumes "upstream_peer P W S req ctx = (S', ctx', peer)"
  shows "uses_state E ok S S'"
  using assms by (auto simp: upstream_peer_def Let_def intro: uses_state_frame split: prod.splits option.splits)

subsection \<open>The HTTP/3 handler uses the cache\<close>

lemma h3_stale_uses:
  assumes "h3_stale L W S c hq hit key host pq = Inr (S', serve, k')" and "sh_cache S = Some c"
  shows "uses_state (w_env W) (\<lambda>k e r. k = key \<and> expires W e \<and>
     (confirmed (hs_cache_max_body L) W host pq r \<or> replaced (hs_cache_max_body L) W host pq r)) S S'"
proof -
  let ?ok = "\<lambda>k e r. k = key \<and> expires W e \<and>
     (confirmed (hs_cache_max_body L) W host pq r \<or> replaced (hs_cache_max_body L) W host pq r)"
  obtain rt target where t: "next_target_for (w_health W) (sh_router S) (hq_host hq) (rq_path (hq_req hq))
      = (rt, target)" by fastforce
  note run = assms(1) [unfolded h3_stale_def t Let_def prod.case]
  let ?S = "S\<lparr>sh_router := rt\<rparr>"
  have frame: "uses_state (w_env W) ?ok S ?S" by (rule uses_state_frame) simp_all
  have cache: "sh_cache ?S = Some c" using assms(2) by simp
  have "uses_state (w_env W) ?ok ?S S'"
  proof (cases "etag hit = None \<or> target = None \<or> \<not> hs_revalidates L")
    case True
    then have "S' = ?S" using run by (auto split: option.splits)
    then show ?thesis by (auto intro: uses_state_frame)
  next
    case False
    then obtain et tg where et: "etag hit = Some et" "target = Some tg" "hs_revalidates L" by auto
    show ?thesis
    proof (cases "revalidate (w_client W) tg pq host et (hs_cache_max_body L)")
      case NotModified
      with run et have st: "h3_store W (w_now W) ?S c key (case stored_ttl_h3 hit of Some t \<Rightarrow> t | None \<Rightarrow> 60) hit = Inr S'"
        by (simp add: rbind_def split: sum.splits)
      have "confirmed (hs_cache_max_body L) W host pq hit"
        using NotModified et(1) unfolding confirmed_def by blast
      then show ?thesis by (intro h3_store_uses [OF st cache]) (auto simp: expires_def)
    next
      case (Modified status hs body)
      let ?r = "\<lparr>cr_status = of_nat status, cr_headers = hs, cr_body = body\<rparr>"
      have rep: "replaced (hs_cache_max_body L) W host pq ?r"
        using Modified unfolding replaced_def by fastforce
      show ?thesis
      proof (cases "stored_ttl_h3 ?r")
        case None
        with run et Modified have "S' = ?S" by simp
        then show ?thesis by (auto intro: uses_state_frame)
      next
        case (Some ttl)
        with run et Modified have st: "h3_store W (w_now W) ?S c key ttl ?r = Inr S'"
          by (simp add: rbind_def split: sum.splits)
        show ?thesis by (intro h3_store_uses [OF st cache]) (use rep in \<open>auto simp: expires_def\<close>)
      qed
    next
      case Failed
      with run et have "S' = ?S" by simp
      then show ?thesis by (auto intro: uses_state_frame)
    qed
  qed
  with frame show ?thesis by (rule uses_state_trans)
qed

lemma h3_cache_phase_uses:
  assumes "h3_cache_phase L W S hq = Inr (S', serve, k')"
  shows "uses_state (w_env W) (may_put (Http3Request L W C uri_ok up hq)) S S' \<and> (k' = None \<or> k' = Some (h3_key hq))"
proof (cases "sh_cache S")
  case None
  with assms show ?thesis by (auto simp: h3_cache_phase_def intro: uses_state_frame)
next
  case (Some c)
  show ?thesis
  proof (cases "request_cacheable (rq_method (hq_req hq)) (hget (rq_headers (hq_req hq)) ''cache-control'')
      (hhas (rq_headers (hq_req hq)) ''authorization'')")
    case False
    with Some assms show ?thesis by (auto simp: h3_cache_phase_def Let_def intro: uses_state_frame)
  next
    case True
    note run = assms [unfolded h3_cache_phase_def Some option.case Let_def, folded h3_host_def,
        folded h3_key_def [folded h3_host_def]]
    obtain c' l where l: "cache_lookup (w_env W) (sh_dir S) c (h3_key hq) (w_now W) = Inr (c', l)"
      using run True by (cases "cache_lookup (w_env W) (sh_dir S) c (h3_key hq) (w_now W)") (auto simp: rbind_def)
    let ?S = "S\<lparr>sh_cache := Some c'\<rparr>"
    have look: "uses_state (w_env W) (may_put (Http3Request L W C uri_ok up hq)) S ?S"
      by (rule uses_state_look [OF Some l])
    have "uses_state (w_env W) (may_put (Http3Request L W C uri_ok up hq)) ?S S'"
    proof (cases l)
      case (Stale hit)
      with run l True have st: "h3_stale L W ?S c' hq hit (h3_key hq) (h3_host hq) (target_text (hq_req hq)) = Inr (S', serve, k')"
        by (simp add: rbind_def)
      from h3_stale_uses [OF st] show ?thesis
        by (rule uses_state_mono) auto
    qed (use run l True in \<open>auto simp: rbind_def intro: uses_state_frame\<close>)
    moreover have "k' = None \<or> k' = Some (h3_key hq)"
    proof (cases l)
      case (Stale hit)
      with run l True have st: "h3_stale L W ?S c' hq hit (h3_key hq) (h3_host hq) (target_text (hq_req hq)) = Inr (S', serve, k')"
        by (simp add: rbind_def)
      then show ?thesis
        by (auto simp: h3_stale_def Let_def rbind_def split: prod.splits option.splits if_splits revalidated.splits sum.splits)
    qed (use run l True in \<open>auto simp: rbind_def\<close>)
    ultimately show ?thesis using look uses_state_trans by blast
  qed
qed

lemma relay_body_captured:
  assumes "relay_body C l enc True max_body frames fails = (evs, c)"
  shows "c = captured max_body (concat (data_frames frames))"
proof (cases enc)
  case None
  with assms have "relay_plain True max_body frames (if True then captured max_body [] else ([], False)) = (evs, c)"
    by (simp add: relay_body_def captured_def)
  from relay_plain_spec [OF this] show ?thesis by simp
next
  case (Some e)
  let ?lv = "case hl_compression l of None \<Rightarrow> 6 | Some n \<Rightarrow> n"
  obtain evs1 st1 c1 where r: "relay_encoded C True max_body frames (body_encoder_new C e ?lv)
      (if True then captured max_body [] else ([], False)) = (evs1, st1, c1)"
    using prod_cases3 by blast
  with assms Some have "c = c1" by (auto simp: relay_body_def Let_def captured_def)
  with relay_encoded_spec [OF r] show ?thesis by simp
qed

lemma h3_relay_uses:
  assumes "h3_relay L W C S hq route k fwd status hs frames fails = Inr (S', out)"
    and "h3_forward_request W uri_ok (hs_limits L) rt target hq = Some fwd"
    and "up fwd = (elapsed, Answer status hs frames fails)" and "k = None \<or> k = Some (h3_key hq)"
  shows "uses_state (w_env W) (may_put (Http3Request L W C uri_ok up hq)) S S'"
proof (cases "S' = S")
  case True
  then show ?thesis by (auto intro: uses_state_frame)
next
  case False
  let ?hs = "relay_headers W route hs"
  let ?enc = "h3_encoding (hs_limits L) (hq_req hq) ?hs"
  obtain evs c where b: "relay_body C (hs_limits L) ?enc (h3_cacheable k status ?hs \<noteq> None) (hs_cache_max_body L)
      frames fails = (evs, c)" by (metis prod.exhaust)
  obtain buf overflow where c: "c = (buf, overflow)" by fastforce
  from h3_relay_ends [OF assms(1) b [unfolded c] refl] False have "\<not> fails"
    and run: "Inr S' = (case (sh_cache S, h3_cacheable k status ?hs) of
          (Some cache, Some (key, ttl, st, headers)) \<Rightarrow>
            if overflow then Inr S
            else h3_store W (w_later W) S cache key ttl
                   \<lparr>cr_status = of_nat st, cr_headers = headers, cr_body = buf\<rparr>
        | _ \<Rightarrow> Inr S)"
    by (simp_all split: if_splits)
  with run False obtain cache where cache: "sh_cache S = Some cache"
    by (cases "sh_cache S") (auto split: option.splits)
  obtain key ttl st headers where meta: "h3_cacheable k status ?hs = Some (key, ttl, st, headers)"
    using run False \<open>\<not> fails\<close> cache
    by (cases "h3_cacheable k status ?hs") auto
  from run False \<open>\<not> fails\<close> cache meta have no: "\<not> overflow" by (auto split: if_splits)
  from run no \<open>\<not> fails\<close> cache meta have store: "h3_store W (w_later W) S cache key ttl
      \<lparr>cr_status = of_nat st, cr_headers = headers, cr_body = buf\<rparr> = Inr S'"
    by (auto simp: rbind_def split: sum.splits)
  from meta assms(4) have "key = h3_key hq" "st = status"
    by (auto simp: h3_cacheable_def split: option.splits)
  moreover have "relay_body C (hs_limits L) ?enc True (hs_cache_max_body L) frames fails = (evs, c)"
    using b meta by simp
  from relay_body_captured [OF this] c no have "buf = concat (data_frames frames)"
    by (auto simp: captured_def split: if_splits)
  moreover have "relayed W uri_ok (hs_limits L) up hq
      \<lparr>cr_status = of_nat status, cr_headers = headers, cr_body = concat (data_frames frames)\<rparr>"
    unfolding relayed_def using assms(2,3) \<open>\<not> fails\<close> by fastforce
  ultimately show ?thesis
    by (intro h3_store_uses [OF store cache]) (auto simp: expires_def)
qed

lemma h3_upstream_uses:
  assumes "h3_upstream L W C uri_ok up S hq k = Inr (S', out)" and "k = None \<or> k = Some (h3_key hq)"
  shows "uses_state (w_env W) (may_put (Http3Request L W C uri_ok up hq)) S S'"
proof -
  let ?route = "match_route (sh_router S) (hq_host hq) (rq_path (hq_req hq))"
  let ?ok = "may_put (Http3Request L W C uri_ok up hq)"
  obtain rt target where t:
    "next_target_for (w_health W) (sh_router S) (hq_host hq) (rq_path (hq_req hq)) = (rt, target)"
    by fastforce
  note run = assms(1) [unfolded h3_upstream_def t Let_def prod.case]
  let ?S = "S\<lparr>sh_router := rt\<rparr>"
  have frame: "uses_state (w_env W) ?ok S ?S" by (rule uses_state_frame) simp_all
  have "uses_state (w_env W) ?ok ?S S'"
  proof (cases "S' = ?S")
    case True
    then show ?thesis by (auto intro: uses_state_frame)
  next
    case False
    obtain tg where tg: "target = Some tg" using run False by (cases target) auto
    have nl: "\<not> h3_too_large L (hq_req hq)" using run False tg by (auto split: if_splits)
    obtain f where f: "h3_forward_request W uri_ok (hs_limits L) ?route tg hq = Some f"
      using run False tg nl by (cases "h3_forward_request W uri_ok (hs_limits L) ?route tg hq") auto
    obtain elapsed ans where up: "up f = (elapsed, ans)" by fastforce
    from run False tg nl f up obtain status hs frames fails where "ans = Answer status hs frames fails"
      and r: "h3_relay L W C ?S hq ?route k f status hs frames fails = Inr (S', out)"
      by (cases ans) (auto split: if_splits)
    with h3_relay_uses [OF r f _ assms(2)] up show ?thesis by blast
  qed
  with frame show ?thesis by (rule uses_state_trans)
qed

lemma proxy_request_uses:
  assumes "proxy_request L W C uri_ok up S hq = Inr (S', out)"
  shows "uses_state (w_env W) (may_put (Http3Request L W C uri_ok up hq)) S S'"
proof -
  let ?route = "match_route (sh_router S) (hq_host hq) (rq_path (hq_req hq))"
  let ?ok = "may_put (Http3Request L W C uri_ok up hq)"
  obtain rt handled where p: "h3_plugins L W (sh_router S) hq = (rt, handled)" by fastforce
  let ?S = "S\<lparr>sh_router := rt\<rparr>"
  have frame: "uses_state (w_env W) ?ok S ?S" by (rule uses_state_frame) simp_all
  show ?thesis
  proof (cases "S' = S \<or> S' = ?S")
    case True
    then show ?thesis using frame by (auto intro: uses_state_frame)
  next
    case False
    from assms False have g: "\<not> h3_denied L hq" "\<not> (is_early hq \<and> \<not> is_safe_method (rq_method (hq_req hq)))"
      by (auto simp: proxy_request_def split: if_splits)
    note run = assms [unfolded proxy_request_def Let_def, simplified g if_False]
    have st: "h3_static W ?route (rq_path (hq_req hq)) = None"
      using run False by (cases "h3_static W ?route (rq_path (hq_req hq))") auto
    have h: "handled = None" using run st p False by (cases handled) auto
    obtain S1 serve k where c: "h3_cache_phase L W ?S hq = Inr (S1, serve, k)"
      using run st p h by (auto simp: rbind_def split: sum.splits)
    have phase: "uses_state (w_env W) ?ok ?S S1" and k: "k = None \<or> k = Some (h3_key hq)"
      using h3_cache_phase_uses [OF c] by blast+
    have "uses_state (w_env W) ?ok S1 S'"
    proof (cases serve)
      case None
      with run st p h c have "h3_upstream L W C uri_ok up S1 hq k = Inr (S', out)" by simp
      then show ?thesis by (rule h3_upstream_uses) (rule k)
    next
      case (Some hit)
      with run st p h c have "S' = S1" by simp
      then show ?thesis by (auto intro: uses_state_frame)
    qed
    with frame phase show ?thesis using uses_state_trans by blast
  qed
qed

subsection \<open>Both listeners, any order\<close>

interpretation listeners: cache_user E "handle_call E" may_put for E :: cache_env
proof unfold_locales
  fix c :: "('n, 's) call" and S S'
  assume "handle_call E c S S'"
  then show "uses_state E (may_put c) S S'"
    by (cases c) (auto dest: request_filter_uses response_body_uses proxy_request_uses upstream_peer_uses)
qed

text \<open>
  The shared cache under any sequence of requests of both listeners, from an empty start: a
  lookup never panics, and a response found under a key was put there by one of the calls, which had it
  from the origin: the body captured on the response path, or a response that the origin confirmed
  or gave for the request that has this very key; it is fresh only before the expiry it was put
  with.  The origin's responses are assumed to fit the entry format.
\<close>

theorem shared_cache_only_origin:
  assumes "handled (handle_call E) cs S S'" and "sh_cache S = Some c"
    and "c = cache_new n \<or> c = with_disk n" and "sh_dir S = []"
    and "\<forall>call\<in>set cs. representable (may_put call)"
  shows "\<exists>c' c'' l. sh_cache S' = Some c' \<and> cache_lookup E (sh_dir S') c' k now = Inr (c'', l) \<and>
     (case l of
        Miss \<Rightarrow> True
      | Fresh r \<Rightarrow> \<exists>call\<in>set cs. \<exists>e. may_put call k e r \<and> now < e
      | Stale r \<Rightarrow> \<exists>call\<in>set cs. \<exists>e. may_put call k e r)"
proof (rule listeners.handled_lookup [OF assms(1,2) _ assms(5)])
  show "cache_run E {} (sh_dir S) c"
    using assms(3,4) by (auto intro: cache_run.start cache_run.start_memory)
qed

definition demo_call :: "((ip_addr \<times> nat), bytes) call" where
  "demo_call = ResponseBody demo_proxy demo_world (Some ''hi'') True
     (new_ctx\<lparr>cx_cache_key := Some demo_text, cx_cache_ttl := Some 5, cx_cache_status := 200\<rparr>)"

definition demo_after :: shared where
  "demo_after = demo_shared\<lparr>sh_cache := Some (snd (cache_put demo_env demo_io [] (cache_new 4) demo_text
     (SysTime 5000000000) (demo_response ''hi'')))\<rparr>"

lemma demo_call_handled: "handle_call demo_env demo_call demo_shared demo_after"
  by (simp add: demo_call_def demo_world_def upstream_response_body_filter_def demo_shared_def new_ctx_def
      demo_proxy_def store_entry_def time_add_secs_def systime_secs_def rbind_def cache_put_def cache_new_def
      demo_response_def demo_after_def)

lemma demo_call_representable: "representable (may_put demo_call)"
proof -
  have key: "valid_utf8 demo_text" "length demo_text = 7" by code_simp+
  have "0 \<le> nanos e \<and> systime_secs e < 2 ^ 63" if "expires demo_world e" for e
    using that by (auto simp: expires_def demo_world_def time_add_secs_def systime_secs_def split: if_splits)
  with key show ?thesis
    by (auto simp: representable_def demo_call_def new_ctx_def entry_fine_def string_fine_def response_fine_def
        encode_def write_bytes_def)
qed

theorem shared_cache_only_origin_witness:
  "\<exists>c' c'' l. sh_cache demo_after = Some c' \<and>
     cache_lookup demo_env (sh_dir demo_after) c' demo_text (SysTime 0) = Inr (c'', l) \<and>
     (case l of Miss \<Rightarrow> True | Fresh r \<Rightarrow> cr_body r = ''hi'' | Stale r \<Rightarrow> cr_body r = ''hi'')"
proof -
  have run: "handled (handle_call demo_env) [demo_call] demo_shared demo_after"
    using handled.step [OF handled.start [of "handle_call demo_env" demo_shared] demo_call_handled] by simp
  have start: "sh_cache demo_shared = Some (cache_new 4)" "sh_dir demo_shared = []" by (simp_all add: demo_shared_def)
  have fine: "\<forall>call\<in>set [demo_call]. representable (may_put call)" using demo_call_representable by simp
  have body: "may_put demo_call k e r \<Longrightarrow> cr_body r = ''hi''" for k e r
    by (auto simp: demo_call_def new_ctx_def)
  from shared_cache_only_origin [OF run start(1) _ start(2) fine, of 4 demo_text "SysTime 0"]
  obtain c' c'' l where w: "sh_cache demo_after = Some c'"
    "cache_lookup demo_env (sh_dir demo_after) c' demo_text (SysTime 0) = Inr (c'', l)"
    "case l of
        Miss \<Rightarrow> True
      | Fresh r \<Rightarrow> \<exists>call\<in>set [demo_call]. \<exists>e. may_put call demo_text e r \<and> SysTime 0 < e
      | Stale r \<Rightarrow> \<exists>call\<in>set [demo_call]. \<exists>e. may_put call demo_text e r" by blast
  from w(3) body have "case l of Miss \<Rightarrow> True | Fresh r \<Rightarrow> cr_body r = ''hi'' | Stale r \<Rightarrow> cr_body r = ''hi''"
    by (cases l) auto
  with w(1,2) show ?thesis by blast
qed

end
