(* ===== verification/Serving.thy ===== *)
theory Serving
  imports SharedCache
begin

section \<open>The state of a running server\<close>

text \<open>
  What every request of both listeners keeps of the state that \<open>main\<close> built: the routes but for their
  round-robin counters, the limiter's settings, and a bounded cache with the configured tiers.  From it, where a
  running server connects to.
\<close>

subsection \<open>States of the same shape\<close>

definition routes_like :: "router \<Rightarrow> router \<Rightarrow> bool" where
  "routes_like = list_all2 (\<lambda>r r'. \<exists>n. r' = r\<lparr>r_next := n\<rparr>)"

fun limiter_like :: "rate_limiter option \<Rightarrow> rate_limiter option \<Rightarrow> bool" where
  "limiter_like None None = True"
| "limiter_like (Some l) (Some l') = (rl_window_ms l' = rl_window_ms l \<and> rl_max l' = rl_max l)"
| "limiter_like _ _ = False"

definition tiers_like :: "response_cache \<Rightarrow> response_cache \<Rightarrow> bool" where
  "tiers_like c c' = (rc_max_entries c' = rc_max_entries c \<and> rc_disk c' = rc_disk c \<and> (mem_ok c \<longrightarrow> mem_ok c'))"

fun cache_like :: "response_cache option \<Rightarrow> response_cache option \<Rightarrow> bool" where
  "cache_like None None = True"
| "cache_like (Some c) (Some c') = tiers_like c c'"
| "cache_like _ _ = False"

definition keeps :: "shared \<Rightarrow> shared \<Rightarrow> bool" where
  "keeps S S' = (routes_like (sh_router S) (sh_router S') \<and> limiter_like (sh_limiter S) (sh_limiter S'))"

definition state_like :: "cache_env \<Rightarrow> shared \<Rightarrow> shared \<Rightarrow> bool" where
  "state_like E S S' = (keeps S S' \<and> (env_ok E \<longrightarrow> cache_like (sh_cache S) (sh_cache S')))"

named_theorems keeps_intros \<open>steps that keep the routes and the limiter\<close>

lemma same_route: "\<exists>n. r = r\<lparr>r_next := n\<rparr>" for r :: route
  by (rule exI [of _ "r_next r"]) simp

lemma routes_like_refl [keeps_intros]: "routes_like rt rt"
  by (simp add: routes_like_def list_all2_same same_route)

lemma routes_like_trans: "routes_like rt rt' \<Longrightarrow> routes_like rt' rt'' \<Longrightarrow> routes_like rt rt''"
  unfolding routes_like_def by (rule list_all2_trans) auto

lemma routes_like_pick [keeps_intros]: "routes_like rt (fst (next_target_for h rt host path))"
  unfolding routes_like_def by (rule next_target_for_frame)

lemma limiter_like_refl [keeps_intros]: "limiter_like l l"
  by (cases l) simp_all

lemma limiter_like_trans: "limiter_like l l' \<Longrightarrow> limiter_like l' l'' \<Longrightarrow> limiter_like l l''"
  by (cases l; cases l'; cases l'') auto

lemma check_settings: "check l k t = (l', ok) \<Longrightarrow> rl_window_ms l' = rl_window_ms l \<and> rl_max l' = rl_max l"
  by (auto simp: check_def Let_def split: if_splits)

lemma keeps_refl [keeps_intros]: "keeps S S"
  by (simp add: keeps_def keeps_intros)

lemma keeps_trans: "keeps S S' \<Longrightarrow> keeps S' S'' \<Longrightarrow> keeps S S''"
  using routes_like_trans limiter_like_trans unfolding keeps_def by blast

lemma keeps_cache [simp]: "keeps S (S'\<lparr>sh_cache := c\<rparr>) = keeps S S'" "keeps (S\<lparr>sh_cache := c\<rparr>) S' = keeps S S'"
  "keeps S (S'\<lparr>sh_dir := d\<rparr>) = keeps S S'"
  by (simp_all add: keeps_def)

lemma keeps_router [keeps_intros]: "routes_like (sh_router S) rt \<Longrightarrow> keeps S (S\<lparr>sh_router := rt\<rparr>)"
  by (simp add: keeps_def keeps_intros)

lemma pick_keeps: "next_target_for h (sh_router S) host path = (rt, t) \<Longrightarrow> keeps S (S\<lparr>sh_router := rt\<rparr>)"
  by (rule keeps_router) (metis fst_conv routes_like_pick)

lemma cache_like_refl: "cache_like c c"
  by (cases c) (simp_all add: tiers_like_def)

lemma cache_like_trans: "cache_like c c' \<Longrightarrow> cache_like c' c'' \<Longrightarrow> cache_like c c''"
  by (cases c; cases c'; cases c'') (auto simp: tiers_like_def)

lemma cache_lookup_tiers: "env_ok E \<Longrightarrow> cache_lookup E d c k now = Inr (c', l) \<Longrightarrow> tiers_like c c'"
  by (auto simp: cache_lookup_def tiers_like_def rbind_def insert_memory_ok split: option.splits sum.splits)

lemma cache_put_tiers: "env_ok E \<Longrightarrow> cache_put E io d c k e r = (d', c') \<Longrightarrow> tiers_like c c'"
  by (auto simp: cache_put_def tiers_like_def insert_memory_ok Let_def)

text \<open>Whoever only uses the cache keeps its tiers and its bound.\<close>

lemma uses_tiers: "uses E ok d c d' c' \<Longrightarrow> env_ok E \<Longrightarrow> tiers_like c c'"
proof (induction rule: uses.induct)
  case (look d c d' c' k now c'' l)
  with cache_lookup_tiers [OF look.prems look.hyps(2)] show ?case by (auto simp: tiers_like_def)
next
  case (put d c d' c' k e r io d'' c'')
  with cache_put_tiers [OF put.prems put.hyps(3)] show ?case by (auto simp: tiers_like_def)
qed (simp add: tiers_like_def)

lemma uses_state_cache: "uses_state E ok S S' \<Longrightarrow> env_ok E \<Longrightarrow> cache_like (sh_cache S) (sh_cache S')"
  by (auto simp: uses_state_def uses_tiers split: option.splits)

subsection \<open>Every call keeps the shape\<close>

lemma limit_phase_keeps: "limit_phase W S req = (S', ok) \<Longrightarrow> keeps S S'"
  by (auto simp: limit_phase_def keeps_def Let_def keeps_intros split: option.splits prod.splits dest: check_settings)

lemma plugin_match_like: "routes_like rt (fst (plugin_match ps h rt req))"
  by (auto simp: plugin_match_def keeps_intros split: option.splits prod.splits) (metis fst_conv routes_like_pick)+

lemma try_run_plugins_like: "try_run_plugins P W rt req = (rt', v) \<Longrightarrow> routes_like rt rt'"
  using plugin_match_like [of rt "the (px_plugins P)" "w_health W" req]
  by (auto simp: try_run_plugins_def keeps_intros split: option.splits prod.splits if_splits)

lemma store_entry_keeps: "store_entry W S c key ttl r = Inr S' \<Longrightarrow> keeps S S'"
  by (auto simp: store_entry_def rbind_def keeps_intros split: sum.splits prod.splits)

lemma h3_store_keeps: "h3_store W t S c key ttl r = Inr S' \<Longrightarrow> keeps S S'"
  by (auto simp: h3_store_def rbind_def keeps_intros split: sum.splits prod.splits)

lemma revalidate_stale_keeps:
  assumes "revalidate_stale P W S c hit key inm host pq ctx = Inr (S', ctx', v)"
  shows "keeps S S'"
proof -
  obtain rt target where t: "next_target_for (w_health W) (sh_router S) (Some host) (first_piece CHR ''?'' pq pq)
      = (rt, target)" by fastforce
  note run = assms [unfolded revalidate_stale_def t Let_def prod.case]
  have "S' = S\<lparr>sh_router := rt\<rparr> \<or> (\<exists>ttl r. store_entry W (S\<lparr>sh_router := rt\<rparr>) c key ttl r = Inr S')"
    using run by (auto simp: rbind_def split: option.splits revalidated.splits sum.splits)
  with pick_keeps [OF t] show ?thesis using store_entry_keeps keeps_trans by blast
qed

lemma cache_phase_keeps:
  assumes "cache_phase P W S req ctx = Inr (S', ctx', v)"
  shows "keeps S S'"
  using assms revalidate_stale_keeps
  by (auto simp: cache_phase_def rbind_def keeps_intros Let_def split: option.splits sum.splits lookup.splits) fastforce+

lemma request_filter_keeps:
  assumes "request_filter P W S req ctx = Inr (S', ctx', v)"
  shows "keeps S S'"
proof -
  obtain S1 ok where l: "limit_phase W S req = (S1, ok)" by fastforce
  obtain rt w where p: "try_run_plugins P W (sh_router S1) req = (rt, w)" by fastforce
  have k1: "keeps S S1" using l by (rule limit_phase_keeps)
  have k2: "keeps S (S1\<lparr>sh_router := rt\<rparr>)"
    by (rule keeps_trans [OF k1 keeps_router [OF try_run_plugins_like [OF p]]])
  have "S' = S \<or> S' = S1 \<or> S' = S1\<lparr>sh_router := rt\<rparr> \<or> (\<exists>ctx'' v'. cache_phase P W (S1\<lparr>sh_router := rt\<rparr>) req ctx = Inr (S', ctx'', v'))"
    using assms l p by (auto simp: request_filter_def Let_def split: if_splits verdict.splits)
  then show ?thesis using k1 k2 cache_phase_keeps keeps_trans keeps_refl by blast
qed

lemma response_body_keeps:
  "upstream_response_body_filter P W S body eos ctx = Inr (S', ctx') \<Longrightarrow> keeps S S'"
  by (auto simp: upstream_response_body_filter_def Let_def rbind_def keeps_intros
      split: option.splits if_splits sum.splits intro: store_entry_keeps)

lemma upstream_peer_keeps: "upstream_peer P W S req ctx = (S', ctx', peer) \<Longrightarrow> keeps S S'"
  by (auto simp: upstream_peer_def Let_def split: prod.splits option.splits intro: pick_keeps)

lemma h3_stale_keeps:
  assumes "h3_stale L W S c hq hit key host pq = Inr (S', serve, k)"
  shows "keeps S S'"
proof -
  obtain rt target where t: "next_target_for (w_health W) (sh_router S) (hq_host hq) (rq_path (hq_req hq))
      = (rt, target)" by fastforce
  note run = assms [unfolded h3_stale_def t Let_def prod.case]
  have "S' = S\<lparr>sh_router := rt\<rparr> \<or> (\<exists>ttl r. h3_store W (w_now W) (S\<lparr>sh_router := rt\<rparr>) c key ttl r = Inr S')"
    using run by (auto simp: rbind_def split: option.splits revalidated.splits sum.splits if_splits)
  with pick_keeps [OF t] show ?thesis using h3_store_keeps keeps_trans by blast
qed

lemma h3_cache_phase_keeps: "h3_cache_phase L W S hq = Inr (S', serve, k) \<Longrightarrow> keeps S S'"
  using h3_stale_keeps
  by (auto simp: h3_cache_phase_def rbind_def keeps_intros Let_def split: option.splits sum.splits lookup.splits if_splits) fastforce+

lemma h3_plugins_like: "h3_plugins L W rt hq = (rt', out) \<Longrightarrow> routes_like rt rt'"
  by (auto simp: h3_plugins_def keeps_intros Let_def split: option.splits prod.splits if_splits) (metis fst_conv routes_like_pick)+

lemma h3_relay_keeps: "h3_relay L W C S hq route k fwd status hs frames fails = Inr (S', out) \<Longrightarrow> keeps S S'"
  by (auto simp: h3_relay_def Let_def rbind_def keeps_intros
      split: prod.splits if_splits option.splits sum.splits intro: h3_store_keeps)

lemma h3_upstream_keeps:
  assumes "h3_upstream L W C uri_ok up S hq k = Inr (S', out)"
  shows "keeps S S'"
proof -
  obtain rt target where t: "next_target_for (w_health W) (sh_router S) (hq_host hq) (rq_path (hq_req hq)) = (rt, target)"
    by fastforce
  note run = assms [unfolded h3_upstream_def t Let_def prod.case]
  have "S' = S\<lparr>sh_router := rt\<rparr> \<or> keeps (S\<lparr>sh_router := rt\<rparr>) S'"
    using run by (auto split: option.splits if_splits prod.splits answer.splits intro: h3_relay_keeps)
  with pick_keeps [OF t] show ?thesis using keeps_trans by blast
qed

lemma proxy_request_keeps:
  assumes "proxy_request L W C uri_ok up S hq = Inr (S', out)"
  shows "keeps S S'"
proof -
  obtain rt handled where p: "h3_plugins L W (sh_router S) hq = (rt, handled)" by fastforce
  have k: "keeps S (S\<lparr>sh_router := rt\<rparr>)" by (rule keeps_router [OF h3_plugins_like [OF p]])
  have "S' = S \<or> S' = S\<lparr>sh_router := rt\<rparr> \<or>
     (\<exists>S1 serve key. h3_cache_phase L W (S\<lparr>sh_router := rt\<rparr>) hq = Inr (S1, serve, key) \<and>
        (S' = S1 \<or> h3_upstream L W C uri_ok up S1 hq key = Inr (S', out)))"
    using assms p by (auto simp: proxy_request_def Let_def rbind_def split: if_splits option.splits sum.splits)
  then show ?thesis
  proof (elim disjE exE conjE)
    fix S1 serve key
    assume c: "h3_cache_phase L W (S\<lparr>sh_router := rt\<rparr>) hq = Inr (S1, serve, key)"
    have k1: "keeps S S1" by (rule keeps_trans [OF k h3_cache_phase_keeps [OF c]])
    then show "S' = S1 \<Longrightarrow> keeps S S'" by simp
    show "h3_upstream L W C uri_ok up S1 hq key = Inr (S', out) \<Longrightarrow> keeps S S'"
      using k1 h3_upstream_keeps keeps_trans by blast
  qed (use k keeps_refl in simp_all)
qed

lemma handle_call_keeps: "handle_call E c S S' \<Longrightarrow> keeps S S'"
  by (cases c) (auto dest: request_filter_keeps response_body_keeps proxy_request_keeps upstream_peer_keeps)

subsection \<open>The contract of a call, and sequences of calls\<close>

locale state_keeper =
  fixes handle :: "'c \<Rightarrow> shared \<Rightarrow> shared \<Rightarrow> bool"
    and like :: "shared \<Rightarrow> shared \<Rightarrow> bool"
  assumes like_refl: "like S S"
    and like_trans: "like S S' \<Longrightarrow> like S' S'' \<Longrightarrow> like S S''"
    and handle_like: "handle c S S' \<Longrightarrow> like S S'"
begin

lemma handled_like: "handled handle cs S S' \<Longrightarrow> like S S'"
  by (induction rule: handled.induct) (blast intro: like_refl like_trans handle_like)+

end

interpretation serving: state_keeper "handle_call E" "state_like E" for E :: cache_env
proof unfold_locales
  fix c :: "('n, 's) call" and S S'
  assume h: "handle_call E c S S'"
  then show "state_like E S S'"
    using handle_call_keeps [OF h] listeners.handle_uses [OF h] uses_state_cache by (auto simp: state_like_def)
qed (use keeps_refl keeps_trans cache_like_refl cache_like_trans in \<open>auto simp: state_like_def\<close>)

subsection \<open>The router of a configuration\<close>

definition configured_target :: "route_config \<Rightarrow> target \<Rightarrow> bool" where
  "configured_target rc t = (t_address t \<in> set (rcf_upstream rc) \<and> t_tls t = rcf_tls rc \<and> t_h2 t = rcf_grpc rc)"

definition built_from :: "route_config \<Rightarrow> route \<Rightarrow> bool" where
  "built_from rc r = (r_host r = rcf_host rc \<and> r_path_prefix r = rcf_path rc \<and> list_all (configured_target rc) (r_targets r))"

lemma build_targets_flags:
  "build_targets h tls grpc as = (h', ts) \<Longrightarrow> list_all (\<lambda>t. t_address t \<in> set as \<and> t_tls t = tls \<and> t_h2 t = grpc) ts"
proof (induction as arbitrary: h h' ts)
  case (Cons a as)
  obtain h1 t where t: "target_new h a tls (case rsplit_once CHR '':'' a of Some (host, _) \<Rightarrow> host | None \<Rightarrow> []) = (h1, t)"
    by fastforce
  obtain h2 ts1 where r: "build_targets h1 tls grpc as = (h2, ts1)" by fastforce
  from Cons.prems have "ts = with_h2 t grpc # ts1" by (simp add: t r)
  moreover have "t_address t = a" "t_tls t = tls" using t by (auto simp: target_new_def)
  moreover have "list_all (\<lambda>t. t_address t \<in> set (a # as) \<and> t_tls t = tls \<and> t_h2 t = grpc) ts1"
    using Cons.IH [OF r] by (auto simp: list_all_iff)
  ultimately show ?case by (simp add: with_h2_def)
qed simp

lemma build_route_from: "build_route h i rc = (h', r) \<Longrightarrow> built_from rc r"
proof -
  assume b: "build_route h i rc = (h', r)"
  obtain h1 ts where t: "build_targets h (rcf_tls rc) (rcf_grpc rc) (rcf_upstream rc) = (h1, ts)" by fastforce
  with b have "r_targets r = ts"
    by (auto simp: build_route_def with_static_def with_headers_def with_strip_prefix_def with_id_def route_new_def
        Let_def split: option.splits)
  with build_targets_flags [OF t] build_route_parts(2,3) [OF b] show ?thesis
    by (simp add: built_from_def configured_target_def list_all_iff)
qed

lemma build_routes_from: "build_routes h i rcs = (h', rt) \<Longrightarrow> list_all2 built_from rcs rt"
proof (induction rcs arbitrary: h h' i rt)
  case (Cons rc rcs)
  obtain h1 r where r: "build_route h i rc = (h1, r)" by fastforce
  obtain h2 rt1 where rs: "build_routes h1 (Suc i) rcs = (h2, rt1)" by fastforce
  from Cons.prems have "rt = r # rt1" by (simp add: r rs)
  with Cons.IH [OF rs] build_route_from [OF r] show ?case by simp
qed simp

lemma built_from_next: "built_from rc r \<Longrightarrow> built_from rc (r\<lparr>r_next := n\<rparr>)"
  by (simp add: built_from_def)

lemma routes_like_from: "list_all2 built_from rcs rt \<Longrightarrow> routes_like rt rt' \<Longrightarrow> list_all2 built_from rcs rt'"
  unfolding routes_like_def by (rule list_all2_trans [of _ _ built_from]) (auto intro: built_from_next)

lemma routes_like_maps:
  assumes "routes_like rt rt'"
  shows "map r_id rt' = map r_id rt" "map r_host rt' = map r_host rt" "map r_targets rt' = map r_targets rt"
  using assms unfolding routes_like_def by (induction rt rt' rule: list_all2_induct) auto

subsection \<open>A running server\<close>

lemma main_start_state:
  assumes "main_start E c disk = Running ru"
  shows "sh_router (ru_shared ru) = snd (build_router c)" "sh_limiter (ru_shared ru) = limiter_new c"
    "sh_cache (ru_shared ru) = build_cache c" "sh_dir (ru_shared ru) = disk" "ru_health ru = fst (build_router c)"
  using assms by (auto simp: main_start_def Let_def split: startup.splits prod.splits sum.splits option.splits)


text \<open>A server, and a request that has been through it.\<close>

definition demo_running :: "(ip_addr \<times> nat) run_result" where
  "demo_running = main_start demo_start h3_config []"

lemma demo_runs: "\<exists>ru. demo_running = Running ru"
proof -
  obtain h rt where b: "build_router h3_config = (h, rt)" by fastforce
  then show ?thesis
    unfolding h3_config_def http_only_def
    by (simp add: demo_running_def main_start_def resolve_tls_def h3_config_def http_only_def
        build_access_def plugins_build_def build_server_def demo_start_def Let_def split: prod.split)
qed

definition demo_served :: "shared \<Rightarrow> shared" where
  "demo_served S = fst (upstream_peer demo_proxy demo_world S demo_request new_ctx)"

lemma demo_served_handled:
  "handled (handle_call demo_env) [UpstreamPeer demo_proxy demo_world demo_request new_ctx] S (demo_served S)"
proof -
  have "handle_call demo_env (UpstreamPeer demo_proxy demo_world demo_request new_ctx) S (demo_served S)"
    by (simp add: demo_served_def) (metis prod.collapse)
  from handled.step [OF handled.start [of "handle_call demo_env" S] this] show ?thesis by simp
qed


subsection \<open>Where a running server connects to\<close>

text \<open>The configured route that a host and path are for.\<close>

definition configured_for :: "route_config \<Rightarrow> string option \<Rightarrow> string \<Rightarrow> bool" where
  "configured_for rc host path = accepts host path (route_new (rcf_host rc) (rcf_path rc) [])"

lemma accepts_built: "built_from rc r \<Longrightarrow> accepts host path r = configured_for rc host path"
  by (simp add: built_from_def configured_for_def accepts_def route_new_def)

lemma pick_configured:
  assumes "list_all2 built_from rcs rt" and "next_target_for h rt host path = (rt', Some t)"
  shows "list_ex (\<lambda>rc. configured_for rc host path \<and> configured_target rc t) rcs"
proof -
  have "snd (next_target_for h rt host path) = Some t" using assms(2) by simp
  then obtain r where r: "match_route rt host path = Some r" "snd (next_target h r) = Some t"
    by (auto simp: next_target_for_snd split: option.splits)
  then have m: "r \<in> set rt" "route_matches r host path"
    by (auto simp: match_route_def find_Some_iff)
  have t: "t \<in> set (r_targets r)" by (rule next_target_mem [OF r(2)])
  from m(1) assms(1) obtain rc where rc: "rc \<in> set rcs" "built_from rc r"
    by (metis in_set_conv_nth list_all2_conv_all_nth)
  with m(2) t have "configured_for rc host path" "configured_target rc t"
    using accepts_built [OF rc(2)] by (simp_all add: route_matches_iff_accepts built_from_def list_all_iff)
  with rc(1) show ?thesis by (auto simp: list_ex_iff)
qed

lemma running_routes:
  assumes "main_start E c disk = Running ru" and "handled (handle_call CE) cs (ru_shared ru) S"
  shows "list_all2 built_from (cf_routes c) (sh_router S)"
proof -
  obtain h rt where b: "build_router c = (h, rt)" by fastforce
  have "state_like CE (ru_shared ru) S" by (rule serving.handled_like [OF assms(2)])
  then have "routes_like rt (sh_router S)" using main_start_state(1) [OF assms(1)] b by (simp add: state_like_def keeps_def)
  with build_routes_from [OF b [unfolded build_router_def]] show ?thesis by (rule routes_like_from)
qed

text \<open>Where the path of a request starts with a slash, so does the forwarded one.\<close>

lemma forward_path_slash:
  assumes "match_route rt host (rq_path req) = Some r" and "rq_path req = slash # p"
  shows "\<exists>rest. forward_path (Some r) req = slash # rest"
proof (cases "r_strip_prefix r \<and> r_path_prefix r \<noteq> None")
  case True
  then obtain pfx where pfx: "r_path_prefix r = Some pfx" "r_strip_prefix r" by auto
  have "accepts host (slash # p) r"
    using assms by (auto simp: match_route_def find_Some_iff route_matches_iff_accepts)
  then obtain rest where "rewrite_path r (rq_path req) = Some (slash # rest)"
    using rewrite_path_slash pfx assms(2) by metis
  then show ?thesis by (cases "rq_query req") (simp_all add: forward_path_def)
next
  case False
  then have "rewrite_path r (rq_path req) = None" by (auto simp: rewrite_path_def split: option.split)
  with assms(2) show ?thesis by (cases "rq_query req") (simp_all add: forward_path_def)
qed

lemma proxy_request_target:
  assumes "proxy_request L W C uri_ok up S hq = Inr (S', out)" and "ho_forward out = Some fwd"
  shows "\<exists>S1 :: shared. \<exists>rt t. routes_like (sh_router S) (sh_router S1) \<and>
     next_target_for (w_health W) (sh_router S1) (hq_host hq) (rq_path (hq_req hq)) = (rt, Some t) \<and>
     hf_uri fwd = upstream_uri t (forward_path (match_route (sh_router S1) (hq_host hq) (rq_path (hq_req hq))) (hq_req hq))"
proof -
  obtain rt S1 k where p: "h3_plugins L W (sh_router S) hq = (rt, None)" and
    c: "h3_cache_phase L W (S\<lparr>sh_router := rt\<rparr>) hq = Inr (S1, None, k)" and
    u: "h3_upstream L W C uri_ok up S1 hq k = Inr (S', out)"
    using proxy_request_stages [OF assms] by blast
  have "keeps S S1"
    by (rule keeps_trans [OF keeps_router [OF h3_plugins_like [OF p]] h3_cache_phase_keeps [OF c]])
  with h3_upstream_forward [OF u assms(2)] show ?thesis
    by (auto simp: keeps_def h3_forward_request_def Let_def split: if_splits)
qed



end
