(* ===== verification/Probing.thy ===== *)
theory Probing
  imports Serving
begin

section \<open>Health probes and the picks they steer: \<^verbatim>\<open>spawn_health_prober\<close> in \<^verbatim>\<open>zaphyl/src/main.rs\<close>\<close>

text \<open>
  The prober's thread beside a running server.  Name resolution and TCP connections are arguments, which may
  answer differently in every round.
\<close>

text \<open>A probe connects to the first address the name resolves to.\<close>

definition tcp_reachable :: "(string \<Rightarrow> 'a list option) \<Rightarrow> ('a \<Rightarrow> bool) \<Rightarrow> string \<Rightarrow> bool" where
  "tcp_reachable dns connects address =
     (case dns address of
        None \<Rightarrow> False
      | Some addrs \<Rightarrow> (case addrs of [] \<Rightarrow> False | addr # _ \<Rightarrow> connects addr))"

text \<open>The loop does not end: what it has done after some rounds, each with the answers of its time.\<close>

fun prober_loop :: "((string \<Rightarrow> 'a list option) \<times> ('a \<Rightarrow> bool)) list \<Rightarrow> (string \<times> nat) list \<Rightarrow> health \<Rightarrow> health" where
  "prober_loop [] probes h = h"
| "prober_loop ((dns, connects) # rounds) probes h =
     prober_loop rounds probes (probe_round (tcp_reachable dns connects) probes h)"

lemma prober_loop_snoc:
  "prober_loop (rounds @ [(dns, connects)]) probes h
     = probe_round (tcp_reachable dns connects) probes (prober_loop rounds probes h)"
  by (induction rounds probes h rule: prober_loop.induct) simp_all

subsection \<open>What a running server's prober knows\<close>

lemma running_prober:
  assumes "main_start E c disk = Running ru" and "ru_prober ru = Some (probes, interval)"
  shows "probes = health_probes (snd (build_router c))"
  using assms by (auto simp: main_start_def Let_def split: startup.splits prod.splits sum.splits option.splits)

lemma match_route_mem: "match_route rt host path = Some r \<Longrightarrow> r \<in> set rt"
  by (auto simp: match_route_def find_Some_iff)

lemma running_targets:
  assumes "main_start E c disk = Running ru" and "handled (handle_call CE) cs (ru_shared ru) S"
  shows "map r_targets (sh_router S) = map r_targets (snd (build_router c))"
proof -
  have "state_like CE (ru_shared ru) S" by (rule serving.handled_like [OF assms(2)])
  then have "routes_like (snd (build_router c)) (sh_router S)"
    using main_start_state(1) [OF assms(1)] by (simp add: state_like_def keeps_def)
  then show ?thesis by (rule routes_like_maps(3))
qed

lemma matched_target_probed:
  assumes "main_start E c disk = Running ru" and "handled (handle_call CE) cs (ru_shared ru) S"
    and "ru_prober ru = Some (probes, interval)" and "t \<in> set (matched_targets host path (sh_router S))"
  shows "is_healthy (probe_round reach probes h) t = reach (t_address t)"
proof -
  from assms(4) obtain r where "match_route (sh_router S) host path = Some r" "t \<in> set (r_targets r)"
    by (cases "match_route (sh_router S) host path") (auto simp: matched_targets_def)
  then have "r_targets r \<in> set (map r_targets (sh_router S))" "t \<in> set (r_targets r)"
    using match_route_mem by auto
  then obtain r' where "r' \<in> set (snd (build_router c))" "t \<in> set (r_targets r')"
    unfolding running_targets [OF assms(1,2)] by auto
  moreover obtain h0 rt where b: "build_router c = (h0, rt)" by fastforce
  ultimately have t: "t \<in> set (concat (map r_targets rt))" by auto
  have "map t_healthy (concat (map r_targets rt)) = [0 ..< fresh h0]"
    using build_routes_parts [OF b [unfolded build_router_def]] by simp
  moreover have "map snd (health_probes rt) = map t_healthy (concat (map r_targets rt))"
    by (simp add: health_probes_def health_handle_def map_concat comp_def)
  moreover have "(t_address t, t_healthy t) \<in> set (health_probes rt)"
    using t by (auto simp: health_probes_def health_handle_def)
  ultimately show ?thesis
    using probe_round_cell [of probes "t_address t" "t_healthy t" reach h] running_prober [OF assms(1,3)] b
    by (simp add: is_healthy_def)
qed

text \<open>A pick on flags that say what \<open>reach\<close> says of the matched targets.\<close>

lemma pick_reachable:
  assumes "\<And>t. t \<in> set (matched_targets host path rt) \<Longrightarrow> is_healthy h t = reach (t_address t)"
    and "list_all (\<lambda>r. unat (r_next r) + length (r_targets r) < 2 ^ 64) rt"
    and "snd (next_target_for h rt host path) = Some t"
  shows "reach (t_address t) \<or> list_all (\<lambda>t. \<not> reach (t_address t)) (matched_targets host path rt)"
proof (rule disjCI)
  assume "\<not> list_all (\<lambda>t. \<not> reach (t_address t)) (matched_targets host path rt)"
  then obtain u where u: "u \<in> set (matched_targets host path rt)" "reach (t_address u)" by (auto simp: list_all_iff)
  from assms(3) obtain r where r: "match_route rt host path = Some r" "snd (next_target h r) = Some t"
    by (auto simp: next_target_for_snd split: option.splits)
  then have m: "matched_targets host path rt = r_targets r" by (simp add: matched_targets_def)
  have "unat (r_next r) + length (r_targets r) < 2 ^ 64"
    using assms(2) match_route_mem [OF r(1)] by (auto simp: list_all_iff)
  from next_target_prefers_healthy [OF _ _ this, of u h] u m assms(1) r(2)
  obtain t' where "t' \<in> set (r_targets r)" "t = t'" "is_healthy h t'" by auto
  with m assms(1) show "reach (t_address t)" by simp
qed


text \<open>Two upstreams, checked; a round finds only the second.\<close>

definition checked_config :: config where
  "checked_config = h3_config\<lparr>cf_health_check := Some 5,
     cf_routes := map (rcf_upstream_update (\<lambda>_. [''10.0.0.1:80'', ''10.0.0.2:80''])) (cf_routes h3_config)\<rparr>"

definition only_second :: "(string \<Rightarrow> string list option) \<times> (string \<Rightarrow> bool)" where
  "only_second = ((\<lambda>a. Some [a]), (\<lambda>a. a = ''10.0.0.2:80''))"

lemma checked_runs:
  "\<exists>ru. main_start demo_start checked_config [] = Running ru \<and> ru_prober ru = Some (health_probes (snd (build_router checked_config)), 5)"
proof -
  obtain h rt where b: "build_router checked_config = (h, rt)" by fastforce
  then show ?thesis
    unfolding checked_config_def h3_config_def http_only_def
    by (simp add: main_start_def resolve_tls_def build_access_def plugins_build_def build_server_def demo_start_def Let_def
        split: prod.split)
qed

lemma checked_counters: "list_all (\<lambda>r. unat (r_next r) + length (r_targets r) < 2 ^ 64) (snd (build_router checked_config))"
  by code_simp

lemma checked_match: "map t_address (matched_targets (host_name demo_request) (rq_path demo_request) (snd (build_router checked_config)))
    = [''10.0.0.1:80'', ''10.0.0.2:80'']"
  by code_simp


end
