(* ===== verification/Clients.thy ===== *)
theory Clients
  imports Http3Props
begin

section \<open>The HTTP clients: \<^verbatim>\<open>zaphyl/src/upstream.rs\<close> and \<^verbatim>\<open>build_client\<close> in \<^verbatim>\<open>zaphyl/src/http3.rs\<close>\<close>

text \<open>
  What the clients for revalidation, plugin routes and HTTP/3 are built to trust and to speak, and how long a
  request waits.  The bundled roots, the PEM reader and rustls' check of a root are arguments; Hyper is the
  component: when it has the head of a response, or its error, and when the rest of the body.
\<close>

subsection \<open>Trust and protocols\<close>

text \<open>The blocks of the file that are no certificates are passed over, and so are those that are no roots.\<close>

definition trusted_roots :: "'c list \<Rightarrow> (string \<Rightarrow> 'c option list option) \<Rightarrow> ('c \<Rightarrow> bool) \<Rightarrow> string option \<Rightarrow> 'c list" where
  "trusted_roots bundled pem_file_iter addable upstream_ca =
     (case upstream_ca of
        None \<Rightarrow> bundled
      | Some path \<Rightarrow>
          (case pem_file_iter path of
             None \<Rightarrow> bundled
           | Some certs \<Rightarrow>
               fold (\<lambda>cert roots. if addable cert then roots @ [cert] else roots) (List.map_filter id certs) bundled))"

record 'c http_client =
  hc_roots :: "'c list"
  hc_schemes :: "string list"
  hc_protocols :: "string list"
  hc_connect_timeout :: "nat option"

definition https_connector :: "'c list \<Rightarrow> (string \<Rightarrow> 'c option list option) \<Rightarrow> ('c \<Rightarrow> bool) \<Rightarrow> string option \<Rightarrow> 'c http_client" where
  "https_connector bundled pem addable upstream_ca =
     \<lparr>hc_roots = trusted_roots bundled pem addable upstream_ca, hc_schemes = [''https'', ''http''],
      hc_protocols = [''http/1.1''], hc_connect_timeout = None\<rparr>"

text \<open>\<open>upstream::build_client\<close> and \<open>build_fetch_client\<close>, and \<open>build_client\<close> of the HTTP/3 listener.\<close>

definition revalidation_client :: "'c list \<Rightarrow> (string \<Rightarrow> 'c option list option) \<Rightarrow> ('c \<Rightarrow> bool) \<Rightarrow> string option \<Rightarrow> 'c http_client" where
  "revalidation_client bundled pem addable upstream_ca = https_connector bundled pem addable upstream_ca"

definition build_fetch_client :: "'c list \<Rightarrow> (string \<Rightarrow> 'c option list option) \<Rightarrow> ('c \<Rightarrow> bool) \<Rightarrow> string option \<Rightarrow> 'c http_client" where
  "build_fetch_client bundled pem addable upstream_ca = https_connector bundled pem addable upstream_ca"

definition h3_build_client :: "'c list \<Rightarrow> (string \<Rightarrow> 'c option list option) \<Rightarrow> ('c \<Rightarrow> bool) \<Rightarrow> string option \<Rightarrow> nat option
    \<Rightarrow> 'c http_client" where
  "h3_build_client bundled pem addable upstream_ca connect_timeout =
     (let roots = trusted_roots bundled pem addable upstream_ca
      in \<lparr>hc_roots = roots, hc_schemes = [''https'', ''http''], hc_protocols = [''http/1.1''],
          hc_connect_timeout = connect_timeout\<rparr>)"

lemma fold_add_roots:
  "fold (\<lambda>cert roots. if addable cert then roots @ [cert] else roots) certs roots = roots @ filter addable certs"
  by (induction certs arbitrary: roots) simp_all

text \<open>
  The three clients trust the same: the bundled roots and the usable certificates of the extra file; a file that
  cannot be read adds nothing and is not reported.
\<close>

lemma clients_trust:
  "hc_roots (revalidation_client bundled pem addable ca) = trusted_roots bundled pem addable ca"
  "hc_roots (build_fetch_client bundled pem addable ca) = trusted_roots bundled pem addable ca"
  "hc_roots (h3_build_client bundled pem addable ca t) = trusted_roots bundled pem addable ca"
  "trusted_roots bundled pem addable ca =
     bundled @ (case Option.bind ca pem of None \<Rightarrow> [] | Some certs \<Rightarrow> filter addable (List.map_filter id certs))"
  by (simp_all add: revalidation_client_def build_fetch_client_def h3_build_client_def https_connector_def
      trusted_roots_def fold_add_roots Let_def split: option.split)

text \<open>
  None of them speaks HTTP/2, whatever the target asks for (\<open>t_h2\<close>, a route with \<open>grpc\<close>), which the HTTP/1 and HTTP/2
  listener names to Pingora; and only the HTTP/3 listener's has the configured connect timeout.
\<close>

lemma clients_speak_http1_only:
  "''h2'' \<notin> set (hc_protocols (revalidation_client bundled pem addable ca))"
  "''h2'' \<notin> set (hc_protocols (build_fetch_client bundled pem addable ca))"
  "''h2'' \<notin> set (hc_protocols (h3_build_client bundled pem addable ca t))"
  "snd (next_target_for (w_health W) (sh_router S) (host_name req) (rq_path req)) = Some target \<Longrightarrow>
     map_option pe_h2 (snd (snd (upstream_peer P W S req ctx))) = Some (t_h2 target)"
  by (auto simp: revalidation_client_def build_fetch_client_def h3_build_client_def https_connector_def
      upstream_peer_def Let_def split: prod.split)

lemma connect_timeout_only_h3:
  "hc_connect_timeout (h3_build_client bundled pem addable ca t) = t"
  "hc_connect_timeout (revalidation_client bundled pem addable ca) = None"
  "hc_connect_timeout (build_fetch_client bundled pem addable ca) = None"
  by (simp_all add: revalidation_client_def build_fetch_client_def h3_build_client_def https_connector_def)

subsection \<open>Waiting\<close>

text \<open>
  A client with its times: until the head of the response or the error, and from there to the end of the body.
  A timeout is on the head.
\<close>

type_synonym timed_client = "client_request \<Rightarrow> nat \<times> upstream_response option \<times> nat"

definition head_in_time :: "nat option \<Rightarrow> nat \<Rightarrow> bool" where
  "head_in_time timeout head = (case timeout of None \<Rightarrow> True | Some d \<Rightarrow> head \<le> d)"

text \<open>The time that the caller waits, and the result.\<close>

definition revalidate_timed :: "timed_client \<Rightarrow> target \<Rightarrow> string \<Rightarrow> string \<Rightarrow> string \<Rightarrow> nat option \<Rightarrow> nat
    \<Rightarrow> nat \<times> revalidated" where
  "revalidate_timed client target path_and_query host etag_val timeout max_body =
     (case client \<lparr>cq_method = ''GET'', cq_uri = upstream_uri target path_and_query,
             cq_headers = [(''host'', host), (''if-none-match'', etag_val)], cq_body = []\<rparr> of
        (head, result, rest) \<Rightarrow>
          if \<not> head_in_time timeout head then (the timeout, Failed)
          else case result of
                 None \<Rightarrow> (head, Failed)
               | Some response \<Rightarrow>
                   if ur_status response = 304 then (head, NotModified)
                   else if ur_status response = 200
                   then (head + rest,
                         case ur_body response of
                           None \<Rightarrow> Failed
                         | Some body \<Rightarrow>
                             if max_body < length body then Failed
                             else Modified 200 (kept_headers (ur_headers response)) body)
                   else (head, Failed))"

definition fetch_timed :: "timed_client \<Rightarrow> target \<Rightarrow> string \<Rightarrow> string \<Rightarrow> string \<Rightarrow> headers \<Rightarrow> bytes \<Rightarrow> nat option \<Rightarrow> nat
    \<Rightarrow> nat \<times> (nat \<times> headers \<times> bytes) option" where
  "fetch_timed client target meth path_and_query host hs body timeout max_body =
     (case client \<lparr>cq_method = meth, cq_uri = upstream_uri target path_and_query,
             cq_headers = (''host'', host) #
               filter (\<lambda>(name, _). \<not> eq_ignore_ascii_case name ''host'') hs, cq_body = body\<rparr> of
        (head, result, rest) \<Rightarrow>
          if \<not> head_in_time timeout head then (the timeout, None)
          else case result of
                 None \<Rightarrow> (head, None)
               | Some response \<Rightarrow>
                   (head + rest,
                    case ur_body response of
                      None \<Rightarrow> None
                    | Some bs \<Rightarrow>
                        if max_body < length bs then None
                        else Some (ur_status response, kept_headers (ur_headers response), bs)))"

text \<open>
  Without the times: a client that is late is one that fails, so what is shown of \<open>revalidate\<close> and \<open>fetch\<close> for any client
  holds with the timeouts of the code.
\<close>

definition untimed :: "nat option \<Rightarrow> timed_client \<Rightarrow> client" where
  "untimed timeout client req =
     (case client req of (head, result, _) \<Rightarrow> if head_in_time timeout head then result else None)"

lemma timed_results:
  "snd (revalidate_timed client target pq host et timeout mx) = revalidate (untimed timeout client) target pq host et mx"
  "snd (fetch_timed client target meth pq host hs body timeout mx)
     = fetch (untimed timeout client) target meth pq host hs body mx"
  by (simp_all add: revalidate_timed_def revalidate_def fetch_timed_def fetch_def untimed_def split: prod.split option.split)

text \<open>The wait is within the timeout but for the body, whose reading no timeout ends.\<close>

lemma wait_but_for_body:
  "fst (revalidate_timed client target pq host et (Some d) mx) \<le> d +
     snd (snd (client \<lparr>cq_method = ''GET'', cq_uri = upstream_uri target pq,
             cq_headers = [(''host'', host), (''if-none-match'', et)], cq_body = []\<rparr>))"
  by (simp add: revalidate_timed_def head_in_time_def split: prod.split option.split)

lemma stalled_body_outlasts_timeout:
  "\<exists>client. d < fst (revalidate_timed client target pq host et (Some d) mx) \<and>
     d < fst (fetch_timed client target meth pq host hs body (Some d) mx)"
  by (rule exI [of _ "\<lambda>_. (0, Some \<lparr>ur_status = 200, ur_headers = [], ur_body = None\<rparr>, Suc d)"])
    (simp add: revalidate_timed_def fetch_timed_def head_in_time_def)

end
