(* ===== verification/PanicFree.thy ===== *)
theory PanicFree
  imports SharedCache
begin

section \<open>What can panic\<close>

text \<open>
  The places where the modelled code can panic while it handles a request are the sums of a clock and a
  lifetime (\<open>SystemTime + Duration\<close>), on the way into the cache and when an entry file is read.  The calls
  of \<^verbatim>\<open>SharedCache\<close>, and the lifetimes that they can use.
\<close>

fun panics :: "('n, 's) call \<Rightarrow> shared \<Rightarrow> bool" where
  "panics (RequestFilter P W req ctx) S = (\<exists>p. request_filter P W S req ctx = Inl p)"
| "panics (UpstreamPeer P W req ctx) S = False"
| "panics (ResponseBody P W body eos ctx) S = (\<exists>p. upstream_response_body_filter P W S body eos ctx = Inl p)"
| "panics (Http3Request L W C uri_ok up hq) S = (\<exists>p. proxy_request L W C uri_ok up S hq = Inl p)"

fun call_world :: "('n, 's) call \<Rightarrow> world" where
  "call_world (RequestFilter P W req ctx) = W"
| "call_world (UpstreamPeer P W req ctx) = W"
| "call_world (ResponseBody P W body eos ctx) = W"
| "call_world (Http3Request L W C uri_ok up hq) = W"

text \<open>A lifetime that the clock of a call cannot take.\<close>

definition overflows :: "world \<Rightarrow> nat \<Rightarrow> bool" where
  "overflows W ttl = (2 ^ 63 \<le> max (systime_secs (w_now W)) (systime_secs (w_later W)) + int ttl)"

text \<open>The entry that a call finds stale under a key.\<close>

definition found_stale :: "world \<Rightarrow> shared \<Rightarrow> string \<Rightarrow> cached_response \<Rightarrow> bool" where
  "found_stale W S k r =
     (\<exists>c c'. sh_cache S = Some c \<and> cache_lookup (w_env W) (sh_dir S) c k (w_now W) = Inr (c', Stale r))"

text \<open>
  The lifetimes announced to a call: by the stale entry that it finds, by the origin's answer to its
  revalidation, or by the response that is captured.
\<close>

fun announced :: "('n, 's) call \<Rightarrow> shared \<Rightarrow> nat \<Rightarrow> bool" where
  "announced (RequestFilter P W req ctx) S ttl =
     (\<exists>k inm host pq r. cache_request_key req = Some (k, inm, host, pq) \<and> stored_ttl r = Some ttl \<and>
        (found_stale W S k r \<or> replaced (px_cache_max_body P) W host pq r))"
| "announced (UpstreamPeer P W req ctx) S ttl = False"
| "announced (ResponseBody P W body eos ctx) S ttl = (cx_cache_ttl ctx = Some ttl)"
| "announced (Http3Request L W C uri_ok up hq) S ttl =
     ((\<exists>r. stored_ttl r = Some ttl \<and>
         (found_stale W S (h3_key hq) r \<or> replaced (hs_cache_max_body L) W (h3_host hq) (target_text (hq_req hq)) r)) \<or>
      (\<exists>fwd elapsed status hs frames route headers key st.
         up fwd = (elapsed, Answer status hs frames False) \<and>
         h3_cacheable (Some (h3_key hq)) status (relay_headers W route hs) = Some (key, ttl, st, headers)))"

subsection \<open>Where the panics are\<close>

lemma store_panic: "h3_store W t S c k ttl r = Inl p \<Longrightarrow> 2 ^ 63 \<le> systime_secs t + int ttl"
  by (auto simp: h3_store_def rbind_def time_add_secs_def split: sum.splits if_splits)

lemma store_entry_panic: "store_entry W S c k ttl r = Inl p \<Longrightarrow> overflows W ttl"
  using store_panic [of W "w_later W" S c k ttl r p] by (simp add: store_agree overflows_def)

lemma h3_store_panic: "h3_store W t S c k ttl r = Inl p \<Longrightarrow> t = w_now W \<or> t = w_later W \<Longrightarrow> overflows W ttl"
  using store_panic [of W t S c k ttl r p] by (auto simp: overflows_def)

text \<open>Both stages that revalidate a stale entry.\<close>

definition stale_lifetime :: "nat \<Rightarrow> world \<Rightarrow> string \<Rightarrow> string \<Rightarrow> cached_response \<Rightarrow> nat \<Rightarrow> bool" where
  "stale_lifetime mx W host pq hit ttl =
     (ttl = 60 \<or> stored_ttl hit = Some ttl \<or> (\<exists>r. stored_ttl r = Some ttl \<and> replaced mx W host pq r))"

lemma revalidate_stale_panic:
  assumes "revalidate_stale P W S c hit key inm host pq ctx = Inl p"
  shows "\<exists>ttl. overflows W ttl \<and> stale_lifetime (px_cache_max_body P) W host pq hit ttl"
proof -
  obtain rt target where t: "next_target_for (w_health W) (sh_router S) (Some host) (first_piece CHR ''?'' pq pq) = (rt, target)"
    by fastforce
  note run = assms [unfolded revalidate_stale_def Let_def t prod.case]
  obtain et tg where et: "etag hit = Some et" "target = Some tg"
    using run by (cases "etag hit"; cases target) auto
  show ?thesis
  proof (cases "revalidate (w_client W) tg pq host et (px_cache_max_body P)")
    case NotModified
    with run et have "store_entry W (S\<lparr>sh_router := rt\<rparr>) c key (case stored_ttl hit of Some t \<Rightarrow> t | None \<Rightarrow> 60) hit = Inl p"
      by (auto simp: rbind_def split: sum.splits)
    from store_entry_panic [OF this] show ?thesis
      by (cases "stored_ttl hit") (auto simp: stale_lifetime_def)
  next
    case (Modified status hs body)
    define r :: cached_response where "r = \<lparr>cr_status = of_nat status, cr_headers = hs, cr_body = body\<rparr>"
    have "replaced (px_cache_max_body P) W host pq r"
      unfolding replaced_def r_def using Modified by auto
    moreover obtain ttl where "stored_ttl r = Some ttl" "store_entry W (S\<lparr>sh_router := rt\<rparr>) c key ttl r = Inl p"
      using run et Modified unfolding r_def
      by (cases "stored_ttl \<lparr>cr_status = of_nat status, cr_headers = hs, cr_body = body\<rparr>")
        (auto simp: rbind_def split: sum.splits)
    ultimately show ?thesis using store_entry_panic unfolding stale_lifetime_def by blast
  next
    case Failed
    with run et show ?thesis by simp
  qed
qed

lemma h3_stale_panic:
  assumes "h3_stale L W S c hq hit key host pq = Inl p"
  shows "\<exists>ttl. overflows W ttl \<and> stale_lifetime (hs_cache_max_body L) W host pq hit ttl"
proof -
  obtain rt target where t: "next_target_for (w_health W) (sh_router S) (hq_host hq) (rq_path (hq_req hq)) = (rt, target)"
    by fastforce
  note run = assms [unfolded h3_stale_def Let_def t prod.case, unfolded stored_ttl_agree]
  obtain et tg where et: "etag hit = Some et" "target = Some tg"
    using run by (cases "etag hit"; cases target) auto
  have reval: "hs_revalidates L" using run et by (auto split: if_splits)
  show ?thesis
  proof (cases "revalidate (w_client W) tg pq host et (hs_cache_max_body L)")
    case NotModified
    with run et reval have "h3_store W (w_now W) (S\<lparr>sh_router := rt\<rparr>) c key (case stored_ttl hit of Some t \<Rightarrow> t | None \<Rightarrow> 60) hit = Inl p"
      by (auto simp: rbind_def split: sum.splits)
    from h3_store_panic [OF this] show ?thesis
      by (cases "stored_ttl hit") (auto simp: stale_lifetime_def)
  next
    case (Modified status hs body)
    define r :: cached_response where "r = \<lparr>cr_status = of_nat status, cr_headers = hs, cr_body = body\<rparr>"
    have "replaced (hs_cache_max_body L) W host pq r"
      unfolding replaced_def r_def using Modified by auto
    moreover obtain ttl where "stored_ttl r = Some ttl" "h3_store W (w_now W) (S\<lparr>sh_router := rt\<rparr>) c key ttl r = Inl p"
      using run et reval Modified unfolding r_def
      by (cases "stored_ttl \<lparr>cr_status = of_nat status, cr_headers = hs, cr_body = body\<rparr>")
        (auto simp: rbind_def split: sum.splits)
    ultimately show ?thesis using h3_store_panic unfolding stale_lifetime_def by blast
  next
    case Failed
    with run et reval show ?thesis by simp
  qed
qed

subsection \<open>The calls\<close>

definition lookups_return :: "world \<Rightarrow> shared \<Rightarrow> bool" where
  "lookups_return W S =
     (\<forall>c k. sh_cache S = Some c \<longrightarrow> (\<exists>c' l. cache_lookup (w_env W) (sh_dir S) c k (w_now W) = Inr (c', l)))"

lemma lookups_return_frame:
  "lookups_return W S \<Longrightarrow> sh_cache S' = sh_cache S \<Longrightarrow> sh_dir S' = sh_dir S \<Longrightarrow> lookups_return W S'"
  by (simp add: lookups_return_def)

lemma found_stale_frame:
  "sh_cache S' = sh_cache S \<Longrightarrow> sh_dir S' = sh_dir S \<Longrightarrow> found_stale W S' k r = found_stale W S k r"
  by (simp add: found_stale_def)

lemma cache_phase_panic:
  assumes "cache_phase P W S req ctx = Inl p" and "lookups_return W S"
  shows "\<exists>ttl k inm host pq hit. overflows W ttl \<and> cache_request_key req = Some (k, inm, host, pq) \<and>
     found_stale W S k hit \<and> stale_lifetime (px_cache_max_body P) W host pq hit ttl"
proof -
  obtain c where c: "sh_cache S = Some c" using assms(1) by (cases "sh_cache S") (auto simp: cache_phase_def)
  obtain k inm host pq where k: "cache_request_key req = Some (k, inm, host, pq)"
    using assms(1) c by (cases "cache_request_key req") (auto simp: cache_phase_def)
  obtain c' l where l: "cache_lookup (w_env W) (sh_dir S) c k (w_now W) = Inr (c', l)"
    using assms(2) c unfolding lookups_return_def by blast
  note run = assms(1) [unfolded cache_phase_def c option.case k prod.case l rbind_def sum.case Let_def]
  obtain hit where hit: "l = Stale hit" using run by (cases l) auto
  from run hit have "revalidate_stale P W (S\<lparr>sh_cache := Some c'\<rparr>) c' hit k inm host pq ctx = Inl p" by simp
  from revalidate_stale_panic [OF this] c k l hit show ?thesis unfolding found_stale_def by blast
qed

lemma request_filter_panic:
  assumes "request_filter P W S req ctx = Inl p" and "lookups_return W S" and "\<not> overflows W 60"
  shows "\<exists>ttl. overflows W ttl \<and> announced (RequestFilter P W req ctx :: ('n, 's) call) S ttl"
proof -
  obtain S1 ok where lp: "limit_phase W S req = (S1, ok)" by fastforce
  have f1: "sh_cache S1 = sh_cache S" "sh_dir S1 = sh_dir S"
    using lp by (auto simp: limit_phase_def split: option.splits prod.splits)
  obtain rt v where tp: "try_run_plugins P W (sh_router S1) req = (rt, v)" by fastforce
  from assms(1) lp tp have "cache_phase P W (S1\<lparr>sh_router := rt\<rparr>) req ctx = Inl p"
    by (auto simp: request_filter_def Let_def split: if_splits verdict.splits)
  moreover have "lookups_return W (S1\<lparr>sh_router := rt\<rparr>)" using assms(2) f1 by (simp add: lookups_return_def)
  ultimately obtain ttl k inm host pq hit where p: "overflows W ttl" "cache_request_key req = Some (k, inm, host, pq)"
    "found_stale W (S1\<lparr>sh_router := rt\<rparr>) k hit" "stale_lifetime (px_cache_max_body P) W host pq hit ttl"
    using cache_phase_panic by blast
  moreover have "found_stale W S k hit" using p(3) f1 by (simp add: found_stale_def)
  moreover have "ttl \<noteq> 60" using p(1) assms(3) by auto
  ultimately show ?thesis unfolding announced.simps stale_lifetime_def by blast
qed

lemma response_body_panic:
  assumes "upstream_response_body_filter P W S body eos ctx = Inl p"
  shows "\<exists>ttl. overflows W ttl \<and> announced (ResponseBody P W body eos ctx :: ('n, 's) call) S ttl"
proof -
  obtain c where c: "sh_cache S = Some c"
    using assms by (cases "sh_cache S") (auto simp: upstream_response_body_filter_def)
  obtain ttl where ttl: "cx_cache_ttl ctx = Some ttl"
    using assms c by (cases "cx_cache_ttl ctx") (auto simp: upstream_response_body_filter_def)
  obtain k r where "store_entry W S c k ttl r = Inl p"
    using assms c ttl
    by (auto simp: upstream_response_body_filter_def Let_def rbind_def split: if_splits option.splits sum.splits)
  from store_entry_panic [OF this] ttl show ?thesis by auto
qed

lemma h3_cache_phase_panic:
  assumes "h3_cache_phase L W S hq = Inl p" and "lookups_return W S" and "\<not> overflows W 60"
  shows "\<exists>ttl r. overflows W ttl \<and> stored_ttl r = Some ttl \<and>
     (found_stale W S (h3_key hq) r \<or> replaced (hs_cache_max_body L) W (h3_host hq) (target_text (hq_req hq)) r)"
proof -
  obtain c where c: "sh_cache S = Some c" using assms(1) by (cases "sh_cache S") (auto simp: h3_cache_phase_def Let_def)
  obtain c' l where l: "cache_lookup (w_env W) (sh_dir S) c (h3_key hq) (w_now W) = Inr (c', l)"
    using assms(2) c unfolding lookups_return_def by blast
  have cacheable: "request_cacheable (rq_method (hq_req hq)) (hget (rq_headers (hq_req hq)) ''cache-control'')
        (hhas (rq_headers (hq_req hq)) ''authorization'')"
    using assms(1) c by (auto simp: h3_cache_phase_def Let_def split: if_splits)
  note run = assms(1) [unfolded h3_cache_phase_def Let_def c option.case cacheable if_True, folded h3_key_def h3_host_def,
      unfolded l rbind_def sum.case prod.case]
  obtain hit where hit: "l = Stale hit" using run cacheable by (cases l) auto
  from run cacheable hit have "h3_stale L W (S\<lparr>sh_cache := Some c'\<rparr>) c' hq hit (h3_key hq) (h3_host hq) (target_text (hq_req hq)) = Inl p"
    by simp
  from h3_stale_panic [OF this] obtain ttl where ttl: "overflows W ttl"
    "stale_lifetime (hs_cache_max_body L) W (h3_host hq) (target_text (hq_req hq)) hit ttl" by blast
  with assms(3) have "ttl \<noteq> 60" by auto
  moreover have "found_stale W S (h3_key hq) hit" using c l hit by (simp add: found_stale_def)
  ultimately show ?thesis using ttl unfolding stale_lifetime_def by blast
qed

lemma h3_relay_panic:
  assumes "h3_relay L W C S hq route k fwd status hs frames fails = Inl p"
  shows "\<not> fails \<and> (\<exists>ttl key st headers. overflows W ttl \<and>
     h3_cacheable k status (relay_headers W route hs) = Some (key, ttl, st, headers))"
proof -
  obtain evs buf overflow where b: "relay_body C (hs_limits L) (h3_encoding (hs_limits L) (hq_req hq) (relay_headers W route hs))
      (h3_cacheable k status (relay_headers W route hs) \<noteq> None) (hs_cache_max_body L) frames fails = (evs, buf, overflow)"
    by (metis prod.exhaust)
  note run = assms [unfolded h3_relay_def Let_def b prod.case]
  have nf: "\<not> fails" using run by (auto split: if_splits)
  obtain c where c: "sh_cache S = Some c" using run nf by (cases "sh_cache S") (auto split: if_splits)
  obtain key ttl st headers where m: "h3_cacheable k status (relay_headers W route hs) = Some (key, ttl, st, headers)"
    using run nf c by (cases "h3_cacheable k status (relay_headers W route hs)") (auto split: if_splits)
  obtain r where "h3_store W (w_later W) S c key ttl r = Inl p"
    using run nf c m by (auto simp: rbind_def split: if_splits sum.splits)
  from h3_store_panic [OF this] nf m show ?thesis by blast
qed

lemma h3_upstream_panic:
  assumes "h3_upstream L W C uri_ok up S hq k = Inl p" and "k = None \<or> k = Some (h3_key hq)"
  shows "\<exists>ttl. overflows W ttl \<and> announced (Http3Request L W C uri_ok up hq) S' ttl"
proof -
  let ?route = "match_route (sh_router S) (hq_host hq) (rq_path (hq_req hq))"
  obtain rt target where t:
    "next_target_for (w_health W) (sh_router S) (hq_host hq) (rq_path (hq_req hq)) = (rt, target)"
    by fastforce
  note run = assms(1) [unfolded h3_upstream_def t Let_def prod.case]
  obtain tg where tg: "target = Some tg" using run by (cases target) auto
  have nl: "\<not> h3_too_large L (hq_req hq)" using run tg by (auto split: if_splits)
  obtain f where f: "h3_forward_request W uri_ok (hs_limits L) ?route tg hq = Some f"
    using run tg nl by (cases "h3_forward_request W uri_ok (hs_limits L) ?route tg hq") auto
  obtain elapsed ans where up: "up f = (elapsed, ans)" by fastforce
  from run tg nl f up obtain status hs frames fails where ans: "ans = Answer status hs frames fails"
    and r: "h3_relay L W C (S\<lparr>sh_router := rt\<rparr>) hq ?route k f status hs frames fails = Inl p"
    by (cases ans) (auto split: if_splits)
  from h3_relay_panic [OF r] obtain ttl key st headers where o: "\<not> fails" "overflows W ttl"
    "h3_cacheable k status (relay_headers W ?route hs) = Some (key, ttl, st, headers)" by blast
  then have "k = Some (h3_key hq)" using assms(2) by (auto simp: h3_cacheable_def)
  moreover from o(1) up ans have "up f = (elapsed, Answer status hs frames False)" by simp
  ultimately show ?thesis using o(2,3) unfolding announced.simps by blast
qed

lemma proxy_request_panic:
  assumes "proxy_request L W C uri_ok up S hq = Inl p" and "lookups_return W S" and "\<not> overflows W 60"
  shows "\<exists>ttl. overflows W ttl \<and> announced (Http3Request L W C uri_ok up hq) S ttl"
proof -
  let ?route = "match_route (sh_router S) (hq_host hq) (rq_path (hq_req hq))"
  obtain rt handled where p: "h3_plugins L W (sh_router S) hq = (rt, handled)" by fastforce
  let ?S = "S\<lparr>sh_router := rt\<rparr>"
  from assms(1) have g: "\<not> h3_denied L hq" "\<not> (is_early hq \<and> \<not> is_safe_method (rq_method (hq_req hq)))"
    by (auto simp: proxy_request_def split: if_splits)
  note run = assms(1) [unfolded proxy_request_def Let_def, simplified g if_False]
  have st: "h3_static W ?route (rq_path (hq_req hq)) = None"
    using run by (cases "h3_static W ?route (rq_path (hq_req hq))") auto
  have h: "handled = None" using run st p by (cases handled) auto
  show ?thesis
  proof (cases "h3_cache_phase L W ?S hq")
    case (Inl q)
    have "lookups_return W ?S" using assms(2) by (simp add: lookups_return_def)
    from h3_cache_phase_panic [OF Inl this assms(3)] show ?thesis
      unfolding announced.simps by (simp add: found_stale_def) blast
  next
    case (Inr x)
    obtain S1 serve k where x: "x = (S1, serve, k)" using prod_cases3 by blast
    from Inr x have k: "k = None \<or> k = Some (h3_key hq)" using h3_cache_phase_uses by blast
    from run st p h Inr x have "serve = None" by (cases serve) auto
    with run st p h Inr x have "h3_upstream L W C uri_ok up S1 hq k = Inl p" by simp
    from h3_upstream_panic [OF this k] show ?thesis .
  qed
qed

text \<open>On a cache that was only used by such calls every lookup returns.\<close>

lemma served_lookups_return:
  assumes "handled (handle_call E) cs S S'" and "sh_cache S = Some c"
    and "c = cache_new n \<or> c = with_disk n" and "sh_dir S = []"
    and "\<forall>call\<in>set cs. representable (may_put call)" and "w_env W = E"
  shows "lookups_return W S'"
proof -
  have start: "cache_run E {} (sh_dir S) c" using assms(3,4) by (auto intro: cache_run.start cache_run.start_memory)
  from listeners.handled_lookup [OF assms(1,2) start assms(5)] show ?thesis
    unfolding lookups_return_def assms(6) by (metis option.inject)
qed


text \<open>A response that announces such a lifetime.\<close>

definition endless_call :: "((ip_addr \<times> nat), bytes) call" where
  "endless_call = ResponseBody demo_proxy demo_world (Some ''hi'') True
     (new_ctx\<lparr>cx_cache_key := Some demo_text, cx_cache_ttl := Some (2 ^ 63), cx_cache_status := 200\<rparr>)"


end
