(* ===== verification/Overlap.thy ===== *)
theory Overlap
  imports SharedCache
begin

section \<open>Overlapping requests on one cache: \<^verbatim>\<open>crates/zaphyl-core/src/cache.rs\<close>\<close>

text \<open>
  The cache operations of requests that overlap.  \<open>lookup\<close> releases the lock before it reads the disk and takes
  it again to refill memory; \<open>put\<close> works on the disk without a lock and then inserts into memory.  Here
  an operation is the sequence of its atomic actions: a critical section on the map, or one call to the
  file system; the actions of any number of threads interleave in any order.  (A single
  \<open>write\<close> call is whole here; \<^verbatim>\<open>DiskRace\<close> splits it.)
\<close>

subsection \<open>Operations as atomic actions\<close>

datatype cache_pc =
    Ready
  | Looked string systime lookup
  | ReadDisk string systime
  | Refill string systime entry
  | ListDir string systime cached_response
  | Evict "string option" string systime cached_response
  | WriteTmp string systime cached_response
  | RenameTmp string systime cached_response
  | InsertMem string systime cached_response

record overlap =
  ov_cache :: response_cache
  ov_dir :: dir
  ov_pc :: "nat \<Rightarrow> cache_pc"

definition is_ready :: "cache_pc \<Rightarrow> bool" where
  "is_ready pc = (case pc of Ready \<Rightarrow> True | Looked _ _ _ \<Rightarrow> True | _ \<Rightarrow> False)"

text \<open>The first action of \<open>lookup\<close>: the map under the lock.\<close>

definition lookup_memory :: "response_cache \<Rightarrow> string \<Rightarrow> systime \<Rightarrow> cache_pc" where
  "lookup_memory c key now =
     (case map_of (rc_entries c) key of
        Some e \<Rightarrow> Looked key now (classify now e)
      | None \<Rightarrow> (case rc_disk c of None \<Rightarrow> Looked key now Miss | Some d \<Rightarrow> ReadDisk key now))"

text \<open>The first action of \<open>put\<close> depends on whether there is a disk tier.\<close>

definition put_start :: "response_cache \<Rightarrow> string \<Rightarrow> systime \<Rightarrow> cached_response \<Rightarrow> cache_pc" where
  "put_start c key expiry response =
     (case rc_disk c of None \<Rightarrow> InsertMem key expiry response | Some d \<Rightarrow> ListDir key expiry response)"

text \<open>\<open>evict\<close> lists the directory and chooses the file to remove.\<close>

definition evict_choice :: "cache_env \<Rightarrow> disk_store \<Rightarrow> dir \<Rightarrow> string option" where
  "evict_choice E d fs =
     (let files = filter (\<lambda>f. \<not> has_extension (fst f)) (ce_readdir E fs)
      in if ds_max_entries d \<le> length files then map_option fst (min_by_key (\<lambda>f. fst (snd f)) files) else None)"

definition evict_remove :: "disk_io \<Rightarrow> string option \<Rightarrow> dir \<Rightarrow> dir" where
  "evict_remove io oldest fs =
     (case oldest of None \<Rightarrow> fs | Some name \<Rightarrow> if io_remove io then al_remove name fs else fs)"

text \<open>\<open>rename\<close> publishes whatever the temporary's name denotes by then; without one it fails.\<close>

definition rename_tmp :: "disk_io \<Rightarrow> string \<Rightarrow> dir \<Rightarrow> dir" where
  "rename_tmp io path fs =
     (case map_of fs (tmp_path path) of
        Some f \<Rightarrow> if io_rename io then al_insert path f (al_remove (tmp_path path) fs) else fs
      | None \<Rightarrow> fs)"

text \<open>The next action of a thread inside an operation; a panic ends it.\<close>

definition set_pc :: "nat \<Rightarrow> cache_pc \<Rightarrow> overlap \<Rightarrow> overlap" where
  "set_pc i pc s = s\<lparr>ov_pc := (ov_pc s)(i := pc)\<rparr>"

definition advance :: "cache_env \<Rightarrow> disk_io \<Rightarrow> nat \<Rightarrow> overlap \<Rightarrow> overlap res" where
  "advance E io i s =
     (case ov_pc s i of
        Ready \<Rightarrow> Inr s
      | Looked key now l \<Rightarrow> Inr s
      | ReadDisk key now \<Rightarrow>
          rbind (disk_get E (ov_dir s) key) (\<lambda>found. Inr (set_pc i
            (case found of None \<Rightarrow> Looked key now Miss | Some e \<Rightarrow> Refill key now e) s))
      | Refill key now e \<Rightarrow>
          Inr (set_pc i (Looked key now (classify now e))
            (s\<lparr>ov_cache := insert_memory E (ov_cache s) key (fst e) (snd e)\<rparr>))
      | ListDir key expiry response \<Rightarrow>
          Inr (set_pc i (Evict (case rc_disk (ov_cache s) of None \<Rightarrow> None | Some d \<Rightarrow> evict_choice E d (ov_dir s))
            key expiry response) s)
      | Evict oldest key expiry response \<Rightarrow>
          Inr (set_pc i (WriteTmp key expiry response) (s\<lparr>ov_dir := evict_remove io oldest (ov_dir s)\<rparr>))
      | WriteTmp key expiry response \<Rightarrow>
          (let tmp = tmp_path (disk_path E key);
               bs = encode key expiry response
           in case io_write io of
                WriteOk \<Rightarrow>
                  Inr (set_pc i (RenameTmp key expiry response)
                    (s\<lparr>ov_dir := al_insert tmp (io_mtime io, bs) (ov_dir s)\<rparr>))
              | CreateFails \<Rightarrow> Inr (set_pc i (InsertMem key expiry response) s)
              | WriteFailsAfter n \<Rightarrow>
                  Inr (set_pc i (InsertMem key expiry response)
                    (s\<lparr>ov_dir := al_insert tmp (io_mtime io, take n bs) (ov_dir s)\<rparr>)))
      | RenameTmp key expiry response \<Rightarrow>
          Inr (set_pc i (InsertMem key expiry response)
            (s\<lparr>ov_dir := rename_tmp io (disk_path E key) (ov_dir s)\<rparr>))
      | InsertMem key expiry response \<Rightarrow>
          Inr (set_pc i Ready (s\<lparr>ov_cache := insert_memory E (ov_cache s) key expiry response\<rparr>)))"

text \<open>A new process with the same tiers.\<close>

definition restarted :: "nat \<Rightarrow> response_cache \<Rightarrow> response_cache" where
  "restarted n c = (case rc_disk c of None \<Rightarrow> cache_new n | Some d \<Rightarrow> with_disk n)"

text \<open>
  The steps of the threads: a thread that is in no operation begins a lookup, or the put of an entry it may
  put; a thread in an operation takes its next action, with any outcome of the file system.
\<close>

inductive ov_step :: "cache_env \<Rightarrow> (nat \<Rightarrow> puts) \<Rightarrow> overlap \<Rightarrow> overlap \<Rightarrow> bool"
  for E :: cache_env and ok :: "nat \<Rightarrow> puts" where
  look: "is_ready (ov_pc s i) \<Longrightarrow> ov_step E ok s (set_pc i (lookup_memory (ov_cache s) key now) s)"
| put: "is_ready (ov_pc s i) \<Longrightarrow> ok i key expiry response \<Longrightarrow>
    ov_step E ok s (set_pc i (put_start (ov_cache s) key expiry response) s)"
| act: "\<not> is_ready (ov_pc s i) \<Longrightarrow> advance E io i s = Inr s' \<Longrightarrow> ov_step E ok s s'"
| restart: "ov_step E ok s (s\<lparr>ov_cache := restarted n (ov_cache s), ov_pc := (\<lambda>_. Ready)\<rparr>)"

inductive ov_reach :: "cache_env \<Rightarrow> (nat \<Rightarrow> puts) \<Rightarrow> overlap \<Rightarrow> overlap \<Rightarrow> bool"
  for E :: cache_env and ok :: "nat \<Rightarrow> puts" and s0 :: overlap where
  init: "ov_reach E ok s0 s0"
| step: "ov_reach E ok s0 s \<Longrightarrow> ov_step E ok s s' \<Longrightarrow> ov_reach E ok s0 s'"

inductive_cases ov_stepE: "ov_step E ok s s'"

subsection \<open>A thread alone\<close>

text \<open>The actions of one thread until it is out of its operation.\<close>

fun solo :: "cache_env \<Rightarrow> disk_io \<Rightarrow> nat \<Rightarrow> nat \<Rightarrow> overlap \<Rightarrow> overlap res" where
  "solo E io 0 i s = Inr s"
| "solo E io (Suc n) i s = rbind (advance E io i s) (solo E io n i)"

lemma set_pc_simps [simp]:
  "ov_cache (set_pc i pc s) = ov_cache s" "ov_dir (set_pc i pc s) = ov_dir s"
  "ov_pc (set_pc i pc s) = (ov_pc s)(i := pc)"
  "set_pc i pc (set_pc i pc' s) = set_pc i pc s"
  by (simp_all add: set_pc_def)

lemma solo_ready: "is_ready (ov_pc s i) \<Longrightarrow> solo E io n i s = Inr s"
  by (induction n) (auto simp: advance_def is_ready_def rbind_def split: cache_pc.splits)

lemma evict_split: "evict_remove io (evict_choice E d fs) fs = disk_evict E io d fs"
  by (auto simp: evict_remove_def evict_choice_def disk_evict_def Let_def split: option.split)

lemma solo_lookup:
  "solo E io 2 i (set_pc i (lookup_memory (ov_cache s) key now) s) =
     rbind (cache_lookup E (ov_dir s) (ov_cache s) key now)
       (\<lambda>(c, l). Inr (set_pc i (Looked key now l) (s\<lparr>ov_cache := c\<rparr>)))"
proof (cases "map_of (rc_entries (ov_cache s)) key")
  case None
  show ?thesis
  proof (cases "rc_disk (ov_cache s)")
    case (Some d)
    with None show ?thesis
      by (cases "disk_get E (ov_dir s) key")
        (auto simp: lookup_memory_def cache_lookup_def advance_def rbind_def set_pc_def numeral_2_eq_2 split: option.split)
  qed (use None in \<open>simp add: lookup_memory_def cache_lookup_def advance_def rbind_def set_pc_def numeral_2_eq_2\<close>)
qed (simp add: lookup_memory_def cache_lookup_def advance_def rbind_def set_pc_def numeral_2_eq_2)

lemma solo_put:
  assumes "cache_put E io (ov_dir s) (ov_cache s) key expiry response = (fs, c)"
  shows "solo E io 5 i (set_pc i (put_start (ov_cache s) key expiry response) s) =
     Inr (set_pc i Ready (s\<lparr>ov_dir := fs, ov_cache := c\<rparr>))"
proof -
  have five: "(5 :: nat) = Suc (Suc (Suc (Suc (Suc 0))))" by simp
  show ?thesis
  proof (cases "rc_disk (ov_cache s)")
    case None
    with assms show ?thesis
      by (auto simp: put_start_def cache_put_def advance_def rbind_def set_pc_def five)
  next
    case (Some d)
    note evict = evict_split [of io E d "ov_dir s"]
    from assms Some show ?thesis
      by (cases "io_write io")
        (auto simp: put_start_def cache_put_def disk_put_def advance_def rbind_def set_pc_def five Let_def
          rename_tmp_def al_simps evict)
  qed
qed

text \<open>
  C0. The atomic actions refine the operations: taken without interruption they compute exactly
  \<open>lookup\<close> and \<open>put\<close>, panics included.
\<close>

theorem solo_run_is_cache_operation:
  "solo E io 2 i (set_pc i (lookup_memory (ov_cache s) key now) s) =
     rbind (cache_lookup E (ov_dir s) (ov_cache s) key now)
       (\<lambda>(c, l). Inr (set_pc i (Looked key now l) (s\<lparr>ov_cache := c\<rparr>))) \<and>
   solo E io 5 i (set_pc i (put_start (ov_cache s) key expiry response) s) =
     (case cache_put E io (ov_dir s) (ov_cache s) key expiry response of
        (fs, c) \<Rightarrow> Inr (set_pc i Ready (s\<lparr>ov_dir := fs, ov_cache := c\<rparr>)))"
proof -
  obtain fs c where p: "cache_put E io (ov_dir s) (ov_cache s) key expiry response = (fs, c)" by fastforce
  from solo_lookup solo_put [OF p] p show ?thesis by simp
qed

subsection \<open>Any interleaving\<close>

text \<open>Every file, temporaries included, holds the beginning of an entry that was to be put.\<close>

definition files_sound :: "history \<Rightarrow> dir \<Rightarrow> bool" where
  "files_sound H fs = (\<forall>name t bs. map_of fs name = Some (t, bs) \<longrightarrow> (\<exists>(k, e, r)\<in>H. \<exists>n. bs = take n (encode k e r)))"

definition pc_sound :: "history \<Rightarrow> cache_pc \<Rightarrow> bool" where
  "pc_sound H pc =
     (case pc of
        Ready \<Rightarrow> True
      | Looked k now l \<Rightarrow> lookup_sound H k now l
      | ReadDisk k now \<Rightarrow> True
      | Refill k now e \<Rightarrow> \<exists>e'. (k, e', snd e) \<in> H \<and> fst e \<le> e'
      | ListDir k e r \<Rightarrow> (k, e, r) \<in> H
      | Evict old k e r \<Rightarrow> (k, e, r) \<in> H
      | WriteTmp k e r \<Rightarrow> (k, e, r) \<in> H
      | RenameTmp k e r \<Rightarrow> (k, e, r) \<in> H
      | InsertMem k e r \<Rightarrow> (k, e, r) \<in> H)"

definition ov_sound :: "history \<Rightarrow> overlap \<Rightarrow> bool" where
  "ov_sound H s = (files_sound H (ov_dir s) \<and> mem_sound H (ov_cache s) \<and> (\<forall>i. pc_sound H (ov_pc s i)))"

lemma files_sound_remove: "files_sound H fs \<Longrightarrow> files_sound H (al_remove name fs)"
  unfolding files_sound_def by (simp add: al_simps split: if_splits)

lemma files_sound_insert:
  assumes "files_sound H fs" and "(k, e, r) \<in> H"
  shows "files_sound H (al_insert name (t, take n (encode k e r)) fs)"
proof -
  have "\<exists>(k, e, r)\<in>H. \<exists>m. take n (encode k' e' r') = take m (encode k e r)" if "(k', e', r') \<in> H" for k' e' r'
    using that by blast
  with assms show ?thesis unfolding files_sound_def by (auto simp: al_simps split: if_splits)
qed

lemma files_sound_insert_whole: "files_sound H fs \<Longrightarrow> (k, e, r) \<in> H \<Longrightarrow> files_sound H (al_insert name (t, encode k e r) fs)"
  using files_sound_insert [of H fs k e r name t "length (encode k e r)"] by simp

lemma files_sound_rename: "files_sound H fs \<Longrightarrow> files_sound H (rename_tmp io path fs)"
  unfolding rename_tmp_def files_sound_def by (auto simp: al_simps split: option.split if_splits)

lemma files_sound_evict: "files_sound H fs \<Longrightarrow> files_sound H (evict_remove io oldest fs)"
  by (simp add: evict_remove_def files_sound_remove split: option.split)

lemma disk_get_files:
  assumes "history_fine H" and "files_sound H fs"
  shows "\<exists>found. disk_get E fs k = Inr found \<and> (\<forall>e. found = Some e \<longrightarrow> (\<exists>e'. (k, e', snd e) \<in> H \<and> fst e \<le> e'))"
proof (cases "map_of fs (disk_path E k)")
  case (Some f)
  obtain t bs where f: "f = (t, bs)" by fastforce
  with Some assms(2) obtain k' e' r' n where h: "(k', e', r') \<in> H" "bs = take n (encode k' e' r')"
    unfolding files_sound_def by blast
  then have fine: "entry_fine k' e' r'" "length (encode k' e' r') < 2 ^ 64"
    using assms(1) unfolding history_fine_def by auto
  show ?thesis
  proof (cases "n < length (encode k' e' r')")
    case True
    from decode_prefix [OF fine this] Some f h(2) show ?thesis by (simp add: disk_get_def)
  next
    case False
    with h(2) have "bs = encode k' e' r'" by simp
    with decode_encode' [of k' e' r' "[]"] fine have "decode bs = Inr (Some (k', floor_secs e', r'))" by simp
    with Some f h(1) show ?thesis using floor_secs_le [of e'] by (auto simp: disk_get_def)
  qed
qed (simp add: disk_get_def)

lemma advance_sound:
  assumes "history_fine H" and "ov_sound H s"
  shows "\<exists>s'. advance E io i s = Inr s' \<and> ov_sound H s'"
proof -
  have files: "files_sound H (ov_dir s)" and mem: "mem_sound H (ov_cache s)" and pcs: "\<And>j. pc_sound H (ov_pc s j)"
    using assms(2) by (auto simp: ov_sound_def)
  have keep: "ov_sound H (set_pc i pc s')"
    if "files_sound H (ov_dir s')" "mem_sound H (ov_cache s')" "pc_sound H pc" "ov_pc s' = ov_pc s" for pc s'
    using that pcs by (simp add: ov_sound_def)
  have pc: "pc_sound H (ov_pc s i)" by (rule pcs)
  show ?thesis
  proof (cases "ov_pc s i")
    case (ReadDisk k now)
    obtain found where f: "disk_get E (ov_dir s) k = Inr found"
      "\<forall>e. found = Some e \<longrightarrow> (\<exists>e'. (k, e', snd e) \<in> H \<and> fst e \<le> e')"
      using disk_get_files [OF assms(1) files] by blast
    then have "pc_sound H (case found of None \<Rightarrow> Looked k now Miss | Some e \<Rightarrow> Refill k now e)"
      by (auto simp: pc_sound_def lookup_sound_def split: option.split)
    with ReadDisk f(1) files mem show ?thesis by (auto simp: advance_def rbind_def intro: keep)
  next
    case (Refill k now e)
    then obtain e' where h: "(k, e', snd e) \<in> H" "fst e \<le> e'" using pc by (auto simp: pc_sound_def)
    have "mem_sound H (insert_memory E (ov_cache s) k (fst e) (snd e))" by (rule insert_memory_sound [OF mem h])
    moreover have "pc_sound H (Looked k now (classify now e))"
      using classify_sound [OF h, of now] by (simp add: pc_sound_def)
    ultimately show ?thesis using Refill files by (auto simp: advance_def intro: keep)
  next
    case (WriteTmp k e r)
    with pc have h: "(k, e, r) \<in> H" by (simp add: pc_sound_def)
    then have "pc_sound H (InsertMem k e r)" "pc_sound H (RenameTmp k e r)" by (simp_all add: pc_sound_def)
    with WriteTmp files mem files_sound_insert [OF files h] files_sound_insert_whole [OF files h] show ?thesis
      by (cases "io_write io") (auto simp: advance_def Let_def intro: keep)
  next
    case (InsertMem k e r)
    with pc have h: "(k, e, r) \<in> H" by (simp add: pc_sound_def)
    from insert_memory_sound [OF mem h, of e E] InsertMem files show ?thesis
      by (auto simp: advance_def pc_sound_def intro: keep)
  qed (use assms(2) pc files mem in
      \<open>auto simp: advance_def pc_sound_def intro!: keep files_sound_evict files_sound_rename\<close>)
qed

lemma lookup_memory_sound: "mem_sound H c \<Longrightarrow> pc_sound H (lookup_memory c k now)"
proof (cases "map_of (rc_entries c) k")
  case (Some e)
  moreover assume "mem_sound H c"
  ultimately obtain e' where "(k, e', snd e) \<in> H" "fst e \<le> e'" unfolding mem_sound_def by (metis prod.collapse)
  from classify_sound [OF this, of now] Some show ?thesis by (simp add: lookup_memory_def pc_sound_def)
qed (simp add: lookup_memory_def pc_sound_def lookup_sound_def split: option.split)

lemma ov_step_sound:
  assumes "ov_step E ok s s'" and "history_fine H" and "ov_sound H s" and "\<And>i k e r. ok i k e r \<Longrightarrow> (k, e, r) \<in> H"
  shows "ov_sound H s'"
  using assms(1)
proof (cases rule: ov_step.cases)
  case (look i key now)
  then show ?thesis using assms(3) lookup_memory_sound by (auto simp: ov_sound_def)
next
  case (put i key expiry response)
  then have "pc_sound H (put_start (ov_cache s) key expiry response)"
    using assms(4) by (auto simp: put_start_def pc_sound_def split: option.split)
  with put assms(3) show ?thesis by (auto simp: ov_sound_def)
next
  case (act i io)
  then show ?thesis using advance_sound [OF assms(2,3), of E io i] by auto
next
  case (restart n)
  then show ?thesis using assms(3) 
    by (auto simp: ov_sound_def mem_sound_def pc_sound_def restarted_def with_disk_def cache_new_def split: option.split)
qed

definition ov_init :: "response_cache \<Rightarrow> overlap" where
  "ov_init c = \<lparr>ov_cache = c, ov_dir = [], ov_pc = (\<lambda>_. Ready)\<rparr>"

definition may_be_put :: "(nat \<Rightarrow> puts) \<Rightarrow> history" where
  "may_be_put ok = {(k, e, r). \<exists>i. ok i k e r}"

lemma ov_reach_sound:
  assumes "ov_reach E ok (ov_init c) s" and "c = cache_new n \<or> c = with_disk n" and "\<And>i. representable (ok i)"
  shows "history_fine (may_be_put ok) \<and> ov_sound (may_be_put ok) s"
proof
  show fine: "history_fine (may_be_put ok)"
    using assms(3) by (auto simp: history_fine_def may_be_put_def representable_def)
  show "ov_sound (may_be_put ok) s"
    using assms(1)
  proof induction
    case init
    then show ?case using assms(2)
      by (auto simp: ov_init_def ov_sound_def files_sound_def mem_sound_def pc_sound_def cache_new_def with_disk_def)
  next
    case (step s s')
    then show ?case by (intro ov_step_sound [OF step.hyps(2) fine step.IH]) (auto simp: may_be_put_def)
  qed
qed

text \<open>The memory tier stays within its bound.\<close>

lemma ov_reach_mem_ok:
  assumes "ov_reach E ok (ov_init c) s" and "env_ok E" and "mem_ok c"
  shows "mem_ok (ov_cache s)"
  using assms(1)
proof induction
  case init
  then show ?case using assms(3) by (simp add: ov_init_def)
next
  case (step s s')
  from step.hyps(2) show ?case
  proof (cases rule: ov_step.cases)
    case (act i io)
    then show ?thesis using step.IH insert_memory_ok [OF assms(2) step.IH]
      by (auto simp: advance_def rbind_def Let_def split: cache_pc.splits sum.splits write_outcome.splits)
  qed (use step.IH mem_ok_new in \<open>auto simp: restarted_def split: option.split\<close>)
qed


text \<open>Schedules, to run the threads: what happens next, and the state after all of it.\<close>

datatype move = Look nat string systime | Put nat string systime cached_response | Act nat disk_io | Restart nat

fun play :: "cache_env \<Rightarrow> move list \<Rightarrow> overlap \<Rightarrow> overlap option" where
  "play E [] s = Some s"
| "play E (Look i key now # ms) s =
     (if is_ready (ov_pc s i) then play E ms (set_pc i (lookup_memory (ov_cache s) key now) s) else None)"
| "play E (Put i key expiry response # ms) s =
     (if is_ready (ov_pc s i) then play E ms (set_pc i (put_start (ov_cache s) key expiry response) s) else None)"
| "play E (Act i io # ms) s =
     (if is_ready (ov_pc s i) then None
      else case advance E io i s of Inl p \<Rightarrow> None | Inr s' \<Rightarrow> play E ms s')"
| "play E (Restart n # ms) s = play E ms (s\<lparr>ov_cache := restarted n (ov_cache s), ov_pc := (\<lambda>_. Ready)\<rparr>)"

fun puts_allowed :: "(nat \<Rightarrow> puts) \<Rightarrow> move list \<Rightarrow> bool" where
  "puts_allowed ok [] = True"
| "puts_allowed ok (Put i k e r # ms) = (ok i k e r \<and> puts_allowed ok ms)"
| "puts_allowed ok (_ # ms) = puts_allowed ok ms"

lemma play_reach:
  "play E ms s = Some s' \<Longrightarrow> puts_allowed ok ms \<Longrightarrow> ov_reach E ok s0 s \<Longrightarrow> ov_reach E ok s0 s'"
proof (induction E ms s rule: play.induct)
  case (4 E i io ms s)
  then show ?case by (auto split: if_splits sum.splits intro: ov_reach.step ov_step.act)
qed (auto split: if_splits intro: ov_reach.step ov_step.intros)

definition demo_schedule :: "move list" where
  "demo_schedule = [Look 1 demo_text (SysTime 0), Put 0 demo_text (SysTime 5000000000) (demo_response ''hi''),
     Look 2 demo_text (SysTime 0), Act 0 demo_io, Look 1 demo_text (SysTime 0)]"


text \<open>A put of a schedule that nothing interrupts.\<close>

lemma play_put:
  assumes "is_ready (ov_pc s i)" and "rc_disk (ov_cache s) = Some d" and "io_write io = WriteOk"
    and "cache_put E io (ov_dir s) (ov_cache s) key expiry response = (fs, c)"
  shows "play E (Put i key expiry response # replicate 5 (Act i io) @ ms) s =
     play E ms (set_pc i Ready (s\<lparr>ov_dir := fs, ov_cache := c\<rparr>))"
proof -
  have five: "(5 :: nat) = Suc (Suc (Suc (Suc (Suc 0))))" by simp
  from assms show ?thesis
    by (auto simp: put_start_def cache_put_def disk_put_def advance_def rbind_def set_pc_def five Let_def is_ready_def
          rename_tmp_def al_simps evict_split [of io E d "ov_dir s", symmetric])
qed

definition demo_file :: "nat \<Rightarrow> string \<Rightarrow> dir" where
  "demo_file n b = [(disk_path demo_env ''k'', SysTime 7, encode ''k'' (SysTime (int n * 1000000000)) (demo_response b))]"

lemma demo_evict: "disk_evict demo_env demo_io (disk_new 2) [] = []" "disk_evict demo_env demo_io (disk_new 2) (demo_file n b) = demo_file n b"
  by (simp_all add: disk_evict_def Let_def demo_env_def disk_new_def demo_file_def)

lemma demo_io_simps: "io_write demo_io = WriteOk" "io_rename demo_io" "io_mtime demo_io = SysTime 7"
  by (simp_all add: demo_io_def)

definition demo_tiers :: "(string \<times> entry) list \<Rightarrow> response_cache" where
  "demo_tiers es = \<lparr>rc_max_entries = 2, rc_entries = es, rc_disk = Some (disk_new 2)\<rparr>"

definition demo_mem :: "nat \<Rightarrow> string \<Rightarrow> (string \<times> entry) list" where
  "demo_mem n b = [(''k'', SysTime (int n * 1000000000), demo_response b)]"

lemma demo_put:
  assumes "fs = [] \<or> fs = demo_file m b'"
  shows "cache_put demo_env demo_io fs (demo_tiers []) ''k'' (SysTime (int n * 1000000000)) (demo_response b)
    = (demo_file n b, demo_tiers (demo_mem n b))"
proof -
  have tmp: "tmp_path p \<noteq> p" for p by (simp add: tmp_path_def)
  have evict: "disk_evict demo_env demo_io (disk_new 2) fs = fs" using assms demo_evict by auto
  have "filter (\<lambda>f. fst f \<noteq> tmp_path p \<and> fst f \<noteq> disk_path demo_env ''k'') fs = []" for p
    using assms by (auto simp: demo_file_def)
  with evict tmp show ?thesis
    by (simp add: cache_put_def disk_put_def Let_def demo_io_simps insert_memory_def al_insert_def al_remove_def
        demo_file_def demo_tiers_def demo_mem_def)
qed

lemma demo_get:
  assumes "valid_utf8 b" and "length b < 100" and "n < 100"
  shows "disk_get demo_env (demo_file n b) ''k'' = Inr (Some (SysTime (int n * 1000000000), demo_response b))"
proof -
  have "valid_utf8 ''k''" by code_simp
  then have "entry_fine ''k'' (SysTime (int n * 1000000000)) (demo_response b)"
    using assms by (simp add: entry_fine_def string_fine_def response_fine_def demo_response_def systime_secs_def)
  from decode_encode' [OF this, of "[]"] assms(2) show ?thesis
    by (simp add: disk_get_def demo_file_def encode_def write_bytes_def demo_response_def floor_secs_def systime_secs_def)
qed

text \<open>
  What overlapping does cost: a lookup that read an entry from disk refills memory with it even when a put
  has replaced it meanwhile.  After the put has finished, the cache answers with the old response,
  while the disk holds the new one.
\<close>

definition refill_schedule :: "move list" where
  "refill_schedule =
     (Put 1 ''k'' (SysTime 1000000000) (demo_response ''old'') # replicate 5 (Act 1 demo_io) @
      [Restart 2, Look 0 ''k'' (SysTime 0), Act 0 demo_io] @
      (Put 1 ''k'' (SysTime 2000000000) (demo_response ''new'') # replicate 5 (Act 1 demo_io) @
       [Act 0 demo_io]))"

lemma refill_hides_newer_put:
  "\<exists>s. play demo_env refill_schedule (ov_init (with_disk 2)) = Some s \<and> is_ready (ov_pc s 0) \<and> is_ready (ov_pc s 1) \<and>
     cache_lookup demo_env (ov_dir s) (ov_cache s) ''k'' (SysTime 0) = Inr (ov_cache s, Fresh (demo_response ''old'')) \<and>
     disk_get demo_env (ov_dir s) ''k'' = Inr (Some (SysTime 2000000000, demo_response ''new''))"
proof -
  have init: "ov_init (with_disk 2) = \<lparr>ov_cache = demo_tiers [], ov_dir = [], ov_pc = (\<lambda>_. Ready)\<rparr>"
    by (simp add: ov_init_def with_disk_def demo_tiers_def)
  have utf8: "valid_utf8 ''old''" "valid_utf8 ''new''" by code_simp+
  note put1 = demo_put [of "[]" undefined undefined 1 "''old''", simplified]
  note put2 = demo_put [of "demo_file 1 ''old''" 1 "''old''" 2 "''new''", simplified]
  note get1 = demo_get [OF utf8(1), of 1, simplified]
  note get2 = demo_get [OF utf8(2), of 2, simplified]
  have tiers: "rc_disk (demo_tiers es) = Some (disk_new 2)" "restarted 2 (demo_tiers es) = demo_tiers []"
    "rc_entries (demo_tiers es) = es" for es
    by (simp_all add: demo_tiers_def restarted_def with_disk_def)
  have refill: "insert_memory demo_env (demo_tiers (demo_mem 2 b)) ''k'' (SysTime 1000000000) (demo_response ''old'')
      = demo_tiers (demo_mem 1 ''old'')" for b
    by (simp add: insert_memory_def demo_tiers_def demo_mem_def al_insert_def al_remove_def)
  let ?s1 = "\<lparr>ov_cache = demo_tiers (demo_mem 1 ''old''), ov_dir = demo_file 1 ''old'', ov_pc = (\<lambda>_. Ready)\<rparr>"
  let ?s2 = "\<lparr>ov_cache = demo_tiers [], ov_dir = demo_file 1 ''old'',
     ov_pc = (\<lambda>_. Ready)(0 := Refill ''k'' (SysTime 0) (SysTime 1000000000, demo_response ''old''))\<rparr>"
  let ?s3 = "?s2\<lparr>ov_cache := demo_tiers (demo_mem 2 ''new''), ov_dir := demo_file 2 ''new''\<rparr>"
  let ?s4 = "?s3\<lparr>ov_cache := demo_tiers (demo_mem 1 ''old''),
     ov_pc := (\<lambda>_. Ready)(0 := Looked ''k'' (SysTime 0) (Fresh (demo_response ''old'')))\<rparr>"
  have "play demo_env (Put 1 ''k'' (SysTime 1000000000) (demo_response ''old'') # replicate 5 (Act 1 demo_io) @ ms)
      (ov_init (with_disk 2)) = play demo_env ms ?s1" for ms
    unfolding init by (subst play_put) (use put1 in \<open>auto simp: is_ready_def tiers demo_io_simps set_pc_def fun_upd_idem\<close>)
  moreover have "play demo_env ([Restart 2, Look 0 ''k'' (SysTime 0), Act 0 demo_io] @ ms) ?s1 = play demo_env ms ?s2" for ms
    using get1 by (simp add: is_ready_def lookup_memory_def tiers advance_def rbind_def set_pc_def)
  moreover have "play demo_env (Put 1 ''k'' (SysTime 2000000000) (demo_response ''new'') # replicate 5 (Act 1 demo_io) @ ms) ?s2
      = play demo_env ms ?s3" for ms
    by (subst play_put) (use put2 in \<open>auto simp: is_ready_def tiers demo_io_simps set_pc_def fun_upd_idem\<close>)
  moreover have "play demo_env [Act 0 demo_io] ?s3 = Some ?s4"
    using refill by (simp add: is_ready_def advance_def set_pc_def classify_def less_systime_def)
  ultimately have "play demo_env refill_schedule (ov_init (with_disk 2)) = Some ?s4"
    unfolding refill_schedule_def by simp
  moreover have "cache_lookup demo_env (ov_dir ?s4) (ov_cache ?s4) ''k'' (SysTime 0) = Inr (ov_cache ?s4, Fresh (demo_response ''old''))"
    by (simp add: cache_lookup_def tiers demo_mem_def classify_def less_systime_def)
  ultimately show ?thesis using get2 by (intro exI [of _ ?s4]) (simp add: is_ready_def)
qed

end
