(* ===== verification/Exchange.thy ===== *)
theory Exchange
  imports SharedCache
begin

section \<open>Whole requests of the HTTP/1 and HTTP/2 listener\<close>

text \<open>
  A request from its arrival to its last byte: the callbacks of \<open>ZaphylProxy\<close> in the order in which Pingora calls
  them, on one per-request context.  The events are what Pingora meets between the callbacks: a connection
  made or refused, a piece of the client's body, the origin's head, a piece of its body, trailers, a break; they
  come in any order, and one that does not fit the request's phase changes nothing.  Pingora tries
  again only while nothing of a final answer has arrived, and then passes what it has read of the
  client's body through the filter again.  Its own cache, its compression and the framing of bodies are left
  out: they do not touch what is modelled.
\<close>

subsection \<open>A request and its events\<close>

datatype phase =
    Arrived
  | Connecting nat            \<comment> \<open>the number of the attempt\<close>
  | Forwarding nat
  | Answering bool            \<comment> \<open>the connection was upgraded (101)\<close>
  | Answered
  | Over

record exchange =
  xc_req :: request
  xc_ctx :: request_ctx
  xc_phase :: phase
  xc_peer :: "peer option"
  xc_read :: "bytes list"     \<comment> \<open>read from the client\<close>
  xc_sent :: "bytes list"     \<comment> \<open>sent upstream in this attempt\<close>
  xc_head :: "(nat \<times> (string \<times> string option) list) option"
  xc_body :: bytes            \<comment> \<open>what the origin has sent of its body\<close>
  xc_wire :: "wire list"      \<comment> \<open>written to the client\<close>

definition new_exchange :: "request \<Rightarrow> exchange" where
  "new_exchange req = \<lparr>xc_req = req, xc_ctx = new_ctx, xc_phase = Arrived, xc_peer = None, xc_read = [], xc_sent = [],
     xc_head = None, xc_body = [], xc_wire = []\<rparr>"

datatype exchange_event =
    EvFilter world error_type error_source     \<comment> \<open>\<open>request_filter\<close>, and the error if it ends with one\<close>
  | EvPeer world "(error_type \<times> error_source \<times> bool) option"   \<comment> \<open>\<open>upstream_peer\<close>, and how connecting fails\<close>
  | EvClient "bytes option"
  | EvHead world nat "(string \<times> string option) list" bool
  | EvBody world "bytes option" bool
  | EvTrailers
  | EvBreak error_type error_source bool

text \<open>An error page is written only where no head of an answer was.\<close>

definition fail_exchange :: "error_type \<Rightarrow> error_source \<Rightarrow> exchange \<Rightarrow> exchange" where
  "fail_exchange etype esource x =
     x\<lparr>xc_phase := Over,
       xc_wire := xc_wire x @ (if xc_head x = None then fst (fail_to_proxy etype esource) else [])\<rparr>"

definition retry_or_fail :: "nat \<Rightarrow> nat \<Rightarrow> bool \<Rightarrow> error_type \<Rightarrow> error_source \<Rightarrow> exchange \<Rightarrow> exchange" where
  "retry_or_fail tries n retry etype esource x =
     (if retry \<and> n < tries then x\<lparr>xc_phase := Connecting (Suc n), xc_sent := []\<rparr> else fail_exchange etype esource x)"

definition informational :: "nat \<Rightarrow> bool" where
  "informational status = (100 \<le> status \<and> status < 200 \<and> status \<noteq> 101)"

definition bytes_of :: "bytes option \<Rightarrow> bytes list" where
  "bytes_of chunk = (case chunk of None \<Rightarrow> [] | Some c \<Rightarrow> [c])"

definition streams :: "phase \<Rightarrow> bool" where
  "streams ph = (case ph of Forwarding _ \<Rightarrow> True | Answering _ \<Rightarrow> True | Answered \<Rightarrow> True | _ \<Rightarrow> False)"

fun exchange_step :: "'n proxy \<Rightarrow> nat \<Rightarrow> exchange_event \<Rightarrow> shared \<Rightarrow> exchange \<Rightarrow> (shared \<times> exchange) res" where
  "exchange_step P tries (EvFilter W etype esource) S x =
     (if xc_phase x \<noteq> Arrived then Inr (S, x)
      else rbind (request_filter P W S (xc_req x) (xc_ctx x)) (\<lambda>(S, ctx, v). Inr (S,
        let x = x\<lparr>xc_ctx := ctx\<rparr>
        in case v of
             Handled ws \<Rightarrow> x\<lparr>xc_phase := Over, xc_wire := ws\<rparr>
           | Proceed \<Rightarrow> x\<lparr>xc_phase := Connecting 1\<rparr>
           | Aborted \<Rightarrow> fail_exchange etype esource x)))"
| "exchange_step P tries (EvPeer W refused) S x =
     (case xc_phase x of
        Connecting n \<Rightarrow>
          (case upstream_peer P W S (xc_req x) (xc_ctx x) of
             (S, ctx, None) \<Rightarrow> Inr (S, fail_exchange OtherError Unset (x\<lparr>xc_ctx := ctx\<rparr>))
           | (S, ctx, Some peer) \<Rightarrow>
               Inr (S,
                 let x = x\<lparr>xc_ctx := ctx, xc_peer := Some peer\<rparr>
                 in case refused of
                      Some (etype, esource, retry) \<Rightarrow> retry_or_fail tries n retry etype esource x
                    | None \<Rightarrow>
                        if xc_read x = [] then x\<lparr>xc_phase := Forwarding n, xc_sent := []\<rparr>
                        else (case request_body_filter P (Some (concat (xc_read x))) ctx of
                                None \<Rightarrow> fail_exchange OtherError Unset x
                              | Some ctx \<Rightarrow> x\<lparr>xc_ctx := ctx, xc_phase := Forwarding n,
                                             xc_sent := [concat (xc_read x)]\<rparr>)))
      | _ \<Rightarrow> Inr (S, x))"
| "exchange_step P tries (EvClient chunk) S x =
     (if \<not> streams (xc_phase x) then Inr (S, x)
      else Inr (S,
        case request_body_filter P chunk (xc_ctx x) of
          None \<Rightarrow> fail_exchange OtherError Unset x
        | Some ctx \<Rightarrow> x\<lparr>xc_ctx := ctx, xc_read := xc_read x @ bytes_of chunk, xc_sent := xc_sent x @ bytes_of chunk\<rparr>))"
| "exchange_step P tries (EvHead W status hs ends) S x =
     (case xc_phase x of
        Forwarding n \<Rightarrow>
          (let ctx = upstream_response_filter S status hs (xc_ctx x);
               out = RespHead status (response_filter P (w_valid W) ctx (visible hs)) ends;
               x = x\<lparr>xc_ctx := ctx, xc_wire := xc_wire x @ [out]\<rparr>
           in Inr (S, if informational status then x
                      else x\<lparr>xc_head := Some (status, hs),
                             xc_phase := (if ends then Answered else Answering (status = 101))\<rparr>))
      | _ \<Rightarrow> Inr (S, x))"
| "exchange_step P tries (EvBody W chunk eos) S x =
     (case xc_phase x of
        Answering upgraded \<Rightarrow>
          rbind (upstream_response_body_filter P W S chunk eos (xc_ctx x)) (\<lambda>(S, ctx). Inr (S,
            x\<lparr>xc_ctx := ctx, xc_body := xc_body x @ concat (bytes_of chunk),
              xc_wire := xc_wire x @ [RespBody (concat (bytes_of chunk)) eos],
              xc_phase := (if eos then Answered else Answering upgraded)\<rparr>))
      | _ \<Rightarrow> Inr (S, x))"
| "exchange_step P tries EvTrailers S x =
     (case xc_phase x of Answering _ \<Rightarrow> Inr (S, x\<lparr>xc_phase := Answered\<rparr>) | _ \<Rightarrow> Inr (S, x))"
| "exchange_step P tries (EvBreak etype esource retry) S x =
     (case xc_phase x of
        Forwarding n \<Rightarrow> Inr (S, retry_or_fail tries n retry etype esource x)
      | Answering _ \<Rightarrow> Inr (S, fail_exchange etype esource x)
      | Answered \<Rightarrow> Inr (S, fail_exchange etype esource x)
      | _ \<Rightarrow> Inr (S, x))"

subsection \<open>Many requests at once\<close>

text \<open>
  Requests of both listeners, interleaved at their callbacks, on one shared state.  The log remembers
  what the origins gave: the answers that ended, and the calls that ask an origin themselves.
\<close>

datatype ('n, 's) origin_answer =
    Ended world request nat "(string \<times> string option) list" bytes
  | Asked "('n, 's) call"

record ('n, 's) web =
  wb_shared :: shared
  wb_exchange :: "nat \<Rightarrow> exchange"
  wb_log :: "('n, 's) origin_answer list"

fun event_world :: "exchange_event \<Rightarrow> world option" where
  "event_world (EvFilter W etype esource) = Some W"
| "event_world (EvPeer W refused) = Some W"
| "event_world (EvHead W status hs ends) = Some W"
| "event_world (EvBody W chunk eos) = Some W"
| "event_world _ = None"

text \<open>What an event adds to the log.\<close>

fun asks :: "'n proxy \<Rightarrow> exchange_event \<Rightarrow> exchange \<Rightarrow> ('n, 's) origin_answer list" where
  "asks P (EvFilter W etype esource) x =
     (if xc_phase x = Arrived then [Asked (RequestFilter P W (xc_req x) (xc_ctx x))] else [])"
| "asks P (EvBody W chunk eos) x =
     (case (xc_phase x, xc_head x) of
        (Answering _, Some (status, hs)) \<Rightarrow>
          if eos then [Ended W (xc_req x) status hs (xc_body x @ concat (bytes_of chunk))] else []
      | _ \<Rightarrow> [])"
| "asks P _ x = []"

inductive web_step :: "cache_env \<Rightarrow> 'n proxy \<Rightarrow> nat \<Rightarrow> ('n, 's) web \<Rightarrow> ('n, 's) web \<Rightarrow> bool"
  for E :: cache_env and P :: "'n proxy" and tries :: nat where
  arrive: "web_step E P tries s (s\<lparr>wb_exchange := (wb_exchange s)(i := new_exchange req)\<rparr>)"
| event: "exchange_step P tries ev (wb_shared s) (wb_exchange s i) = Inr (S', x') \<Longrightarrow>
    (\<And>W. event_world ev = Some W \<Longrightarrow> w_env W = E) \<Longrightarrow>
    web_step E P tries s \<lparr>wb_shared = S', wb_exchange = (wb_exchange s)(i := x'),
      wb_log = wb_log s @ asks P ev (wb_exchange s i)\<rparr>"
| http3: "proxy_request L W C uri_ok up (wb_shared s) hq = Inr (S', out) \<Longrightarrow> w_env W = E \<Longrightarrow>
    web_step E P tries s (s\<lparr>wb_shared := S', wb_log := wb_log s @ [Asked (Http3Request L W C uri_ok up hq)]\<rparr>)"

inductive web_reach :: "cache_env \<Rightarrow> 'n proxy \<Rightarrow> nat \<Rightarrow> shared \<Rightarrow> ('n, 's) web \<Rightarrow> bool"
  for E :: cache_env and P :: "'n proxy" and tries :: nat and S :: shared where
  start: "(\<And>i. \<exists>req. x i = new_exchange req) \<Longrightarrow> web_reach E P tries S \<lparr>wb_shared = S, wb_exchange = x, wb_log = []\<rparr>"
| step: "web_reach E P tries S s \<Longrightarrow> web_step E P tries s s' \<Longrightarrow> web_reach E P tries S s'"

inductive_cases web_stepE: "web_step E P tries s s'"

subsection \<open>The per-request context\<close>

definition request_key :: "request \<Rightarrow> string option" where
  "request_key req = map_option fst (cache_request_key req)"

definition stored_headers :: "(string \<times> string option) list \<Rightarrow> headers" where
  "stored_headers hs = visible (filter (\<lambda>(name, _). \<not> is_uncacheable_header name) hs)"

definition answer_ttl :: "nat \<Rightarrow> (string \<times> string option) list \<Rightarrow> nat option" where
  "answer_ttl status hs =
     response_ttl status (hget hs ''cache-control'') (hhas hs ''set-cookie'') (hget hs ''vary'')"

lemma cache_phase_ctx:
  assumes "cache_phase P W S req ctx = Inr (S', ctx', v)"
  shows "ctx' = ctx \<or> (\<exists>k. request_key req = Some k \<and> ctx' = ctx\<lparr>cx_cache_key := Some k\<rparr>)"
proof -
  have "revalidate_stale P W S1 c hit key inm host pq ctx = Inr (S', ctx', v) \<Longrightarrow>
      ctx' = ctx \<or> ctx' = ctx\<lparr>cx_cache_key := Some key\<rparr>" for S1 c hit key inm host pq
    by (auto simp: revalidate_stale_def rbind_def Let_def split: prod.splits option.splits revalidated.splits sum.splits)
  with assms show ?thesis
    by (auto simp: cache_phase_def request_key_def rbind_def Let_def split: option.splits sum.splits lookup.splits) blast+
qed

lemma request_filter_ctx:
  assumes "request_filter P W S req ctx = Inr (S', ctx', v)"
  shows "ctx' = ctx \<or> (\<exists>k. request_key req = Some k \<and> ctx' = ctx\<lparr>cx_cache_key := Some k\<rparr>)"
  using assms cache_phase_ctx
  by (auto simp: request_filter_def Let_def split: prod.splits if_splits verdict.splits) blast+

lemma upstream_peer_ctx:
  "upstream_peer P W S req ctx = (S', ctx', peer) \<Longrightarrow>
     \<exists>p qs rs. ctx' = ctx\<lparr>cx_rewrite_path := p, cx_req_headers := qs, cx_resp_headers := rs\<rparr>"
  by (auto simp: upstream_peer_def Let_def split: prod.splits option.splits)
    (metis request_ctx.surjective request_ctx.update_convs(1,3,4))+

lemma request_body_filter_ctx:
  "request_body_filter P chunk ctx = Some ctx' \<Longrightarrow> \<exists>n. ctx' = ctx\<lparr>cx_body_seen := n\<rparr>"
  by (auto simp: request_body_filter_def Let_def split: option.splits if_splits)
    (metis request_ctx.surjective request_ctx.update_convs(2))+

lemma web_reach_each:
  assumes "web_reach E P tries S s" and "\<And>req. holds (new_exchange req)"
    and "\<And>ev S S' x x'. exchange_step P tries ev S x = Inr (S', x') \<Longrightarrow> holds x \<Longrightarrow> holds x'"
  shows "holds (wb_exchange s i)"
  using assms(1)
proof (induction arbitrary: i rule: web_reach.induct)
  case (start x)
  from start [of i] assms(2) show ?case by auto
next
  case (step s s')
  from step.hyps(2) step.IH show ?case
    by (cases rule: web_step.cases) (auto simp: assms(2) intro: assms(3))
qed

subsection \<open>One request at work\<close>

text \<open>The events of one request, from any state of the others.\<close>

fun run_exchange :: "'n proxy \<Rightarrow> nat \<Rightarrow> exchange_event list \<Rightarrow> shared \<Rightarrow> exchange
    \<Rightarrow> (shared \<times> exchange \<times> ('n, 's) origin_answer list) res" where
  "run_exchange P tries [] S x = Inr (S, x, [])"
| "run_exchange P tries (ev # evs) S x =
     rbind (exchange_step P tries ev S x) (\<lambda>(S1, x1).
       rbind (run_exchange P tries evs S1 x1) (\<lambda>(S2, x2, log). Inr (S2, x2, asks P ev x @ log)))"

lemma run_exchange_reach:
  assumes "run_exchange P tries evs S x = Inr (S', x', log')"
    and "list_all (\<lambda>ev. case event_world ev of None \<Rightarrow> True | Some W \<Rightarrow> w_env W = E) evs"
    and "web_reach E P tries S0 \<lparr>wb_shared = S, wb_exchange = xs(i := x), wb_log = log\<rparr>"
  shows "web_reach E P tries S0 \<lparr>wb_shared = S', wb_exchange = xs(i := x'), wb_log = log @ log'\<rparr>"
  using assms
proof (induction evs arbitrary: S x log log')
  case (Cons ev evs)
  from Cons.prems(1) obtain S1 x1 log1 where s: "exchange_step P tries ev S x = Inr (S1, x1)"
    "run_exchange P tries evs S1 x1 = Inr (S', x', log1)" "log' = asks P ev x @ log1"
    by (auto simp: rbind_def split: sum.splits)
  let ?s = "\<lparr>wb_shared = S, wb_exchange = xs(i := x), wb_log = log\<rparr>"
  have "web_step E P tries ?s \<lparr>wb_shared = S1, wb_exchange = (wb_exchange ?s)(i := x1), wb_log = wb_log ?s @ asks P ev (wb_exchange ?s i)\<rparr>"
    by (rule web_step.event) (use s(1) Cons.prems(2) in \<open>auto split: option.splits\<close>)
  from web_reach.step [OF Cons.prems(3) this]
  have "web_reach E P tries S0 \<lparr>wb_shared = S1, wb_exchange = xs(i := x1), wb_log = log @ asks P ev x\<rparr>" by simp
  from Cons.IH [OF s(2) _ this] Cons.prems(2) s(3) show ?case by simp
qed simp

definition open_proxy :: "(ip_addr \<times> nat) proxy" where
  "open_proxy = demo_proxy\<lparr>px_access := \<lparr>ac_allow = [], ac_deny = []\<rparr>\<rparr>"

definition routed_shared :: shared where
  "routed_shared = demo_shared\<lparr>sh_router := [route_new None None
     [\<lparr>t_address = ''u:80'', t_tls = False, t_sni = [], t_h2 = False, t_healthy = 0\<rparr>]]\<rparr>"

definition demo_events :: "exchange_event list" where
  "demo_events = [EvFilter demo_world OtherError Unset, EvPeer demo_world None, EvClient None,
     EvHead demo_world 200 [(''cache-control'', Some ''max-age=5'')] False, EvBody demo_world (Some ''h'') False]"

definition demo_mid :: "(shared \<times> exchange \<times> (ip_addr \<times> nat, bytes) origin_answer list) res" where
  "demo_mid = run_exchange open_proxy 16 demo_events routed_shared (new_exchange demo_request)"

lemma demo_mid_ok:
  "case demo_mid of
     Inl p \<Rightarrow> False
   | Inr (S, x, log) \<Rightarrow> xc_phase x = Answering False \<and> xc_head x = Some (200, [(''cache-control'', Some ''max-age=5'')]) \<and>
       xc_body x = ''h'' \<and> cx_cache_key (xc_ctx x) = Some demo_text \<and> cx_cache_ttl (xc_ctx x) = Some 5 \<and>
       \<not> cx_cache_overflow (xc_ctx x) \<and> xc_peer x \<noteq> None \<and> sh_cache S = Some (cache_new 4)"
  by code_simp

lemma demo_mid_reach:
  assumes "demo_mid = Inr (S, x, log)"
  shows "web_reach demo_env open_proxy 16 routed_shared
     \<lparr>wb_shared = S, wb_exchange = (\<lambda>_. new_exchange demo_request)(0 := x), wb_log = log\<rparr>"
proof -
  have "list_all (\<lambda>ev. case event_world ev of None \<Rightarrow> True | Some W \<Rightarrow> w_env W = demo_env) demo_events"
    by (simp add: demo_events_def demo_world_def)
  moreover have "web_reach demo_env open_proxy 16 routed_shared \<lparr>wb_shared = routed_shared,
      wb_exchange = (\<lambda>_. new_exchange demo_request)(0 := new_exchange demo_request), wb_log = []\<rparr>"
    by (rule web_reach.start) auto
  ultimately have "web_reach demo_env open_proxy 16 routed_shared
     \<lparr>wb_shared = S, wb_exchange = (\<lambda>_. new_exchange demo_request)(0 := x), wb_log = [] @ log\<rparr>"
    by (rule run_exchange_reach [OF assms [unfolded demo_mid_def]])
  then show ?thesis by simp
qed

lemma demo_mid_reached:
  obtains S x log where "web_reach demo_env open_proxy 16 routed_shared
       \<lparr>wb_shared = S, wb_exchange = (\<lambda>_. new_exchange demo_request)(0 := x), wb_log = log\<rparr>"
    and "demo_mid = Inr (S, x, log)"
proof (cases demo_mid)
  case (Inr r)
  then show ?thesis using that demo_mid_reach by (metis prod.exhaust)
next
  case (Inl p)
  from demo_mid_ok show ?thesis unfolding Inl by simp
qed


lemma demo_last_ok:
  "case demo_mid of
     Inl p \<Rightarrow> False
   | Inr (S, x, log) \<Rightarrow>
       (case exchange_step open_proxy 16 (EvBody demo_world (Some ''i'') True) S x of
          Inl p \<Rightarrow> False
        | Inr (S', x') \<Rightarrow> xc_phase x' = Answered)"
  by code_simp

lemma demo_mid_log:
  assumes "demo_mid = Inr (S, x, log)"
  shows "log = [Asked (RequestFilter open_proxy demo_world demo_request new_ctx)]" and "xc_req x = demo_request"
proof -
  have quiet: "asks P (EvBody W chunk False) y = []" for P :: "(ip_addr \<times> nat) proxy" and W chunk y
    by (simp split: phase.split option.split)
  show "log = [Asked (RequestFilter open_proxy demo_world demo_request new_ctx)]"
    using assms by (auto simp: demo_mid_def demo_events_def rbind_def new_exchange_def quiet simp del: asks.simps(2) split: sum.splits)
  have "case demo_mid of Inl p \<Rightarrow> False | Inr (S, x, log) \<Rightarrow> xc_req x = demo_request" by code_simp
  then show "xc_req x = demo_request" unfolding assms by simp
qed

end
