(* ===== verification/ExchangeCache.thy ===== *)
theory ExchangeCache
  imports Exchange
begin

section \<open>Whole requests and the cache\<close>

text \<open>
  What is captured for the cache is the origin's answer, whatever pieces of other requests come in between; what
  is stored is the whole of it, and is served to the next request.
\<close>

subsection \<open>What is captured\<close>

definition keyed :: "request \<Rightarrow> request_ctx \<Rightarrow> bool" where
  "keyed req ctx = (\<forall>k. cx_cache_key ctx = Some k \<longrightarrow> request_key req = Some k)"

definition has_cache :: "shared \<Rightarrow> bool" where
  "has_cache S = (sh_cache S \<noteq> None)"

definition captures :: "bool \<Rightarrow> exchange \<Rightarrow> bool" where
  "captures h x =
     (keyed (xc_req x) (xc_ctx x) \<and> (cx_cache_ttl (xc_ctx x) = None \<or> h) \<and>
      (case xc_phase x of
         Answering _ \<Rightarrow>
           (case xc_head x of
              None \<Rightarrow> False
            | Some (status, hs) \<Rightarrow>
                (case (cx_cache_key (xc_ctx x), cx_cache_ttl (xc_ctx x)) of
                   (Some k, Some ttl) \<Rightarrow>
                     answer_ttl status hs = Some ttl \<and> cx_cache_status (xc_ctx x) = status \<and>
                     cx_cache_headers (xc_ctx x) = stored_headers hs \<and>
                     (cx_cache_overflow (xc_ctx x) \<or> cx_cache_body (xc_ctx x) = xc_body x)
                 | _ \<Rightarrow> True))
       | Answered \<Rightarrow> True
       | Over \<Rightarrow> True
       | _ \<Rightarrow> xc_head x = None \<and> xc_body x = [] \<and> cx_cache_ttl (xc_ctx x) = None \<and>
              cx_cache_body (xc_ctx x) = [] \<and> \<not> cx_cache_overflow (xc_ctx x)))"

lemma captures_new: "captures h (new_exchange req)"
  by (simp add: captures_def keyed_def new_exchange_def new_ctx_def)

lemma keyed_sub: "keyed req ctx \<Longrightarrow> cx_cache_key ctx' = None \<or> cx_cache_key ctx' = cx_cache_key ctx \<Longrightarrow> keyed req ctx'"
  by (auto simp: keyed_def)

lemma keyed_simps [simp]:
  "keyed req (ctx\<lparr>cx_body_seen := n\<rparr>) = keyed req ctx"
  "keyed req (ctx\<lparr>cx_rewrite_path := p, cx_req_headers := qs, cx_resp_headers := rs\<rparr>) = keyed req ctx"
  "request_key req = Some k \<Longrightarrow> keyed req (ctx\<lparr>cx_cache_key := Some k\<rparr>)"
  by (simp_all add: keyed_def)

lemma response_filter_keyed: "keyed req ctx \<Longrightarrow> keyed req (upstream_response_filter S status hs ctx)"
  by (auto simp: keyed_def upstream_response_filter_def split: option.splits)

lemma captures_fail: "captures h x \<Longrightarrow> captures h (fail_exchange etype esource x)"
  by (simp add: captures_def fail_exchange_def)

lemma captures_retry:
  "captures h x \<Longrightarrow> xc_phase x = Connecting n \<or> xc_phase x = Forwarding n \<Longrightarrow>
     captures h (retry_or_fail tries n retry etype esource x)"
  by (auto simp: retry_or_fail_def captures_fail) (auto simp: captures_def)

lemma final_head_captures:
  assumes "captures (has_cache S) x" and "xc_phase x = Forwarding n"
  shows "captures (has_cache S) (x\<lparr>xc_ctx := upstream_response_filter S status hs (xc_ctx x), xc_wire := ws,
       xc_head := Some (status, hs), xc_phase := Answering up\<rparr>)"
    and "captures (has_cache S) (x\<lparr>xc_ctx := upstream_response_filter S status hs (xc_ctx x), xc_wire := ws,
       xc_head := Some (status, hs), xc_phase := Answered\<rparr>)"
  using assms
  by (auto simp: captures_def response_filter_keyed)
    (auto simp: upstream_response_filter_def has_cache_def answer_ttl_def stored_headers_def split: option.splits if_splits)

lemma informational_captures:
  assumes "captures (has_cache S) x" and "xc_phase x = Forwarding n" and "informational status"
  shows "captures (has_cache S) (x\<lparr>xc_ctx := upstream_response_filter S status hs (xc_ctx x), xc_wire := ws\<rparr>)"
proof -
  have "response_ttl status cc sc vary = None" for cc sc vary
    using assms(3) by (simp add: response_ttl_def informational_def)
  with assms(1,2) show ?thesis
    by (auto simp: captures_def response_filter_keyed)
      (auto simp: upstream_response_filter_def has_cache_def split: option.splits if_splits)
qed

lemma response_body_ctx:
  assumes "upstream_response_body_filter P W S chunk eos ctx = Inr (S', ctx')"
  shows "(cx_cache_key ctx' = None \<or> cx_cache_key ctx' = cx_cache_key ctx) \<and> cx_cache_ttl ctx' = cx_cache_ttl ctx \<and>
     cx_cache_status ctx' = cx_cache_status ctx \<and>
     (cx_cache_key ctx' \<noteq> None \<and> cx_cache_ttl ctx \<noteq> None \<longrightarrow> cx_cache_headers ctx' = cx_cache_headers ctx \<and>
        (cx_cache_overflow ctx' \<or> sh_cache S = None \<or>
         \<not> cx_cache_overflow ctx \<and> cx_cache_body ctx' = cx_cache_body ctx @ concat (bytes_of chunk)))"
  using assms
  by (auto simp: upstream_response_body_filter_def bytes_of_def rbind_def Let_def
      split: option.splits if_splits sum.splits)

lemma body_captures:
  assumes "captures (has_cache S) x" and "xc_phase x = Answering up"
    and "upstream_response_body_filter P W S chunk eos (xc_ctx x) = Inr (S', ctx')"
  shows "captures (has_cache S) (x\<lparr>xc_ctx := ctx', xc_body := xc_body x @ concat (bytes_of chunk), xc_wire := ws,
     xc_phase := (if eos then Answered else Answering up)\<rparr>)"
proof -
  note ctx = response_body_ctx [OF assms(3)]
  then have same: "cx_cache_ttl ctx' = cx_cache_ttl (xc_ctx x)" "cx_cache_status ctx' = cx_cache_status (xc_ctx x)"
    and key: "cx_cache_key ctx' = None \<or> cx_cache_key ctx' = cx_cache_key (xc_ctx x)"
    by blast+
  have k: "keyed (xc_req x) ctx'"
    using keyed_sub [OF _ key] assms(1) by (simp add: captures_def)
  show ?thesis
    using assms(1,2) same k key ctx
    by (auto simp: captures_def has_cache_def split: option.splits)
qed

text \<open>A step keeps what is captured, given that it keeps whether there is a cache.\<close>

lemma exchange_captures:
  assumes "exchange_step P tries ev S x = Inr (S', x')" and "captures (has_cache S) x"
  shows "captures (has_cache S) x'"
proof (cases ev)
  case (EvFilter W etype esource)
  show ?thesis
  proof (cases "xc_phase x = Arrived")
    case True
    then obtain ctx v where f: "request_filter P W S (xc_req x) (xc_ctx x) = Inr (S', ctx, v)"
      using assms(1) EvFilter by (auto simp: rbind_def split: sum.splits)
    have "captures (has_cache S) (x\<lparr>xc_ctx := ctx\<rparr>)"
      using request_filter_ctx [OF f] assms(2) True by (auto simp: captures_def)
    with f True assms(1) EvFilter show ?thesis
      by (auto simp: rbind_def Let_def captures_fail split: verdict.splits) (auto simp: captures_def)
  qed (use assms EvFilter in simp)
next
  case (EvPeer W refused)
  show ?thesis
  proof (cases "xc_phase x")
    case (Connecting n)
    obtain S1 ctx peer where u: "upstream_peer P W S (xc_req x) (xc_ctx x) = (S1, ctx, peer)" by (metis prod.exhaust)
    have c: "captures (has_cache S) (x\<lparr>xc_ctx := ctx\<rparr>)"
      using upstream_peer_ctx [OF u] assms(2) Connecting by (auto simp: captures_def)
    show ?thesis
    proof (cases peer)
      case None
      with assms(1) EvPeer Connecting u c show ?thesis by (auto simp: captures_fail)
    next
      case (Some p)
      let ?x = "x\<lparr>xc_ctx := ctx, xc_peer := Some p\<rparr>"
      have "captures (has_cache S) ?x" using c Connecting by (simp add: captures_def)
      moreover from this Connecting
      have "captures (has_cache S) (retry_or_fail tries n retry etype esource ?x)" for etype esource retry
        by (intro captures_retry) simp_all
      ultimately show ?thesis using assms(1) EvPeer Connecting u Some
        by (auto simp: Let_def captures_fail split: option.splits prod.splits if_splits dest!: request_body_filter_ctx)
          (auto simp: captures_def)
    qed
  qed (use assms EvPeer in auto)
next
  case (EvClient chunk)
  with assms show ?thesis
    by (auto simp: captures_fail streams_def split: if_splits option.splits phase.splits dest!: request_body_filter_ctx)
      (auto simp: captures_def split: option.splits)
next
  case (EvHead W status hs ends)
  with assms show ?thesis
    by (auto simp: Let_def final_head_captures informational_captures split: phase.splits if_splits)
next
  case (EvBody W chunk eos)
  with assms show ?thesis by (auto simp: rbind_def body_captures split: phase.splits sum.splits)
next
  case EvTrailers
  with assms show ?thesis by (auto simp: captures_def split: phase.splits)
next
  case (EvBreak etype esource retry)
  with assms show ?thesis by (auto simp: captures_fail captures_retry split: phase.splits)
qed

subsection \<open>What is put\<close>

fun gave :: "('n, 's) origin_answer \<Rightarrow> puts" where
  "gave (Ended W req status hs body) k e r =
     (request_key req = Some k \<and> expires W e \<and> answer_ttl status hs \<noteq> None \<and>
      r = \<lparr>cr_status = of_nat status, cr_headers = stored_headers hs, cr_body = body\<rparr>)"
| "gave (Asked c) k e r = may_put c k e r"

definition origin_gave :: "('n, 's) origin_answer list \<Rightarrow> puts" where
  "origin_gave log k e r = (\<exists>a\<in>set log. gave a k e r)"

lemma origin_gave_simps [simp]:
  "origin_gave [] k e r = False"
  "origin_gave (a # log) k e r = (gave a k e r \<or> origin_gave log k e r)"
  "origin_gave (log @ log') k e r = (origin_gave log k e r \<or> origin_gave log' k e r)"
  by (auto simp: origin_gave_def)

lemma body_uses:
  assumes "captures h x" and "xc_phase x = Answering up"
    and "upstream_response_body_filter P W S chunk eos (xc_ctx x) = Inr (S', ctx')" and "ctx = xc_ctx x"
  shows "uses_state (w_env W) (origin_gave (asks P (EvBody W chunk eos) x)) S S'"
proof (cases "S' = S")
  case False
  from False assms(3) have st: "eos" "cx_cache_ttl (xc_ctx x) \<noteq> None" "\<not> cx_cache_overflow (xc_ctx x)"
    and key: "cx_cache_key (xc_ctx x) \<noteq> None"
    by (auto simp: upstream_response_body_filter_def Let_def split: option.splits if_splits)
  then obtain k ttl where kt: "cx_cache_key (xc_ctx x) = Some k" "cx_cache_ttl (xc_ctx x) = Some ttl" by blast
  obtain status hs where head: "xc_head x = Some (status, hs)"
    using assms(1,2) by (auto simp: captures_def split: option.splits)
  have c: "answer_ttl status hs = Some ttl" "cx_cache_status (xc_ctx x) = status"
    "cx_cache_headers (xc_ctx x) = stored_headers hs" "cx_cache_body (xc_ctx x) = xc_body x" "request_key (xc_req x) = Some k"
    using assms(1,2) head kt st(3) by (auto simp: captures_def keyed_def)
  show ?thesis
    by (rule uses_state_mono [OF response_body_uses [OF assms(3)]])
      (use c kt st(1) head assms(2) in \<open>auto simp: bytes_of_def split: option.splits\<close>)
qed (auto intro: uses_state_frame)

lemma exchange_uses:
  assumes "exchange_step P tries ev S x = Inr (S', x')" and "captures h x"
    and "\<And>W. event_world ev = Some W \<Longrightarrow> w_env W = E"
  shows "uses_state E (origin_gave (asks P ev x)) S S'"
proof (cases ev)
  case (EvFilter W etype esource)
  show ?thesis
  proof (cases "xc_phase x = Arrived")
    case True
    then obtain ctx v where "request_filter P W S (xc_req x) (xc_ctx x) = Inr (S', ctx, v)"
      using assms(1) EvFilter by (auto simp: rbind_def split: sum.splits)
    from uses_state_mono [OF request_filter_uses [OF this]] True EvFilter assms(3) show ?thesis by fastforce
  qed (use assms EvFilter in \<open>auto intro: uses_state_frame\<close>)
next
  case (EvPeer W refused)
  show ?thesis
  proof (cases "xc_phase x")
    case (Connecting n)
    obtain S1 ctx peer where u: "upstream_peer P W S (xc_req x) (xc_ctx x) = (S1, ctx, peer)" by (metis prod.exhaust)
    then have "S' = S1" using assms(1) EvPeer Connecting by (auto split: option.splits)
    with upstream_peer_uses [OF u] show ?thesis by simp
  qed (use assms EvPeer in \<open>auto intro: uses_state_frame\<close>)
next
  case (EvBody W chunk eos)
  show ?thesis
  proof (cases "xc_phase x")
    case (Answering up)
    with assms(1) EvBody obtain ctx' where "upstream_response_body_filter P W S chunk eos (xc_ctx x) = Inr (S', ctx')"
      by (auto simp: rbind_def split: sum.splits)
    from body_uses [OF assms(2) Answering this refl] EvBody assms(3) show ?thesis by simp
  qed (use assms EvBody in \<open>auto intro: uses_state_frame\<close>)
qed (use assms(1) in \<open>auto simp: Let_def intro: uses_state_frame split: if_splits phase.splits option.splits\<close>)

text \<open>Every reachable state: each request has captured its origin's answer, and the cache holds only what was given.\<close>

lemma uses_state_presence: "uses_state E ok S S' \<Longrightarrow> has_cache S' = has_cache S"
  by (auto simp: uses_state_def has_cache_def split: option.splits)

lemma web_reach_sound:
  fixes s :: "('n, 's) web"
  assumes "web_reach E P tries S s"
  shows "uses_state E (origin_gave (wb_log s)) S (wb_shared s) \<and>
     (\<forall>i. captures (has_cache S) (wb_exchange s i))"
  using assms
proof (induction rule: web_reach.induct)
  case (start x)
  have "captures h (x i)" for i h using start [of i] captures_new by metis
  then show ?case by (auto intro: uses_state_frame)
next
  case (step s s')
  let ?ok = "origin_gave (wb_log s')"
  from step.IH have IH: "uses_state E (origin_gave (wb_log s)) S (wb_shared s)"
    and cap: "captures (has_cache S) (wb_exchange s i)" for i by blast+
  have has: "has_cache (wb_shared s) = has_cache S" by (rule uses_state_presence [OF IH])
  from step.hyps(2) show ?case
  proof (cases rule: web_step.cases)
    case (arrive i req)
    with IH cap captures_new show ?thesis by auto
  next
    case (event ev i S' x')
    have "captures (has_cache S) x'"
      using exchange_captures [OF event(2)] cap has by simp
    have "uses_state E (origin_gave (asks P ev (wb_exchange s i) :: ('n, 's) origin_answer list)) (wb_shared s) S'"
      by (rule exchange_uses [OF event(2) cap event(3)])
    then have ev: "uses_state E ?ok (wb_shared s) S'" by (rule uses_state_mono) (simp add: event(1))
    have "uses_state E ?ok S (wb_shared s)"
      by (rule uses_state_mono [OF IH]) (simp add: event(1))
    from uses_state_trans [OF this ev] have "uses_state E ?ok S S'" .
    with \<open>captures (has_cache S) x'\<close> cap show ?thesis by (simp add: event(1) del: origin_gave_simps)
  next
    case (http3 L W C uri_ok up hq S' out)
    have h3: "uses_state E ?ok (wb_shared s) S'"
      using uses_state_mono [OF proxy_request_uses [OF http3(2)], of ?ok] http3(1,3) by fastforce
    have "uses_state E ?ok S (wb_shared s)"
      by (rule uses_state_mono [OF IH]) (simp add: http3(1))
    from uses_state_trans [OF this h3] cap show ?thesis by (simp add: http3(1) del: origin_gave_simps)
  qed
qed


subsection \<open>What is stored is served\<close>

lemma lookup_after_put:
  assumes "cache_put E io d c k e r = (d', c')" and "now < e"
  shows "cache_lookup E' d'' c' k now = Inr (c', Fresh r)"
  using assms by (auto simp: cache_put_def cache_lookup_def insert_memory_def Let_def al_simps classify_def)

lemma store_entry_serves:
  assumes "store_entry W S c k ttl r = Inr S'" and "time_add_secs (w_later W) ttl = Inr e" and "now < e"
  shows "\<exists>c'. sh_cache S' = Some c' \<and> cache_lookup E d c' k now = Inr (c', Fresh r)"
proof -
  obtain d' c' where p: "cache_put (w_env W) (w_io W) (sh_dir S) c k e r = (d', c')" by fastforce
  with assms(1,2) have "sh_cache S' = Some c'" by (auto simp: store_entry_def rbind_def)
  with lookup_after_put [OF p assms(3)] show ?thesis by blast
qed

lemma last_chunk_stores:
  assumes "captures h x" and "xc_phase x = Answering up" and "xc_head x = Some (status, hs)"
    and "exchange_step P tries (EvBody W final True) S x = Inr (S', x')" and "sh_cache S = Some c"
    and "cx_cache_key (xc_ctx x) = Some k" and "cx_cache_ttl (xc_ctx x) = Some ttl" and "\<not> cx_cache_overflow (xc_ctx x)"
    and "length (xc_body x @ concat (bytes_of final)) \<le> px_cache_max_body P"
  shows "store_entry W S c k ttl \<lparr>cr_status = of_nat status, cr_headers = stored_headers hs,
     cr_body = xc_body x @ concat (bytes_of final)\<rparr> = Inr S'"
proof -
  have c: "cx_cache_status (xc_ctx x) = status" "cx_cache_headers (xc_ctx x) = stored_headers hs" "cx_cache_body (xc_ctx x) = xc_body x"
    using assms(1-3,6-8) by (auto simp: captures_def)
  from assms(4) assms(2) obtain ctx' where "upstream_response_body_filter P W S final True (xc_ctx x) = Inr (S', ctx')"
    by (auto simp: rbind_def split: sum.splits)
  with c assms(5-9) show ?thesis
    by (cases final) (auto simp: upstream_response_body_filter_def bytes_of_def rbind_def Let_def split: sum.splits)
qed

text \<open>
  C7. What is stored is served.  In any interleaving, when the last piece of an answer that is captured arrives and
  the answer is within the bound, the next request for its key, before it expires, is answered with exactly
  that answer, on the HTTP/1 and HTTP/2 listener as on the HTTP/3 listener, and no upstream is asked.
\<close>

theorem stored_answer_is_reused:
  assumes "web_reach E P tries S0 s" and "wb_exchange s i = x" and "xc_phase x = Answering up"
    and "xc_head x = Some (status, hs)" and "sh_cache (wb_shared s) = Some c"
    and "cx_cache_key (xc_ctx x) = Some k" and "cx_cache_ttl (xc_ctx x) = Some ttl" and "\<not> cx_cache_overflow (xc_ctx x)"
    and "length (xc_body x @ concat (bytes_of final)) \<le> px_cache_max_body P"
    and "exchange_step P tries (EvBody W final True) (wb_shared s) x = Inr (S', x')"
    and "time_add_secs (w_later W) ttl = Inr e" and "w_now W' < e"
    and "cache_request_key req = Some (k, inm, host, pq)"
    and "h3_key hq = k" and "rq_method (hq_req hq) = ''GET''" and "rq_headers (hq_req hq) = rq_headers req"
  shows "case \<lparr>cr_status = of_nat status, cr_headers = stored_headers hs, cr_body = xc_body x @ concat (bytes_of final)\<rparr> of r \<Rightarrow>
     cache_phase P' W' S' req ctx = Inr (S', ctx, serve_cache_hit W' r inm) \<and>
     h3_cache_phase L W' S' hq = Inr (S', Some r, None)"
proof -
  let ?r = "\<lparr>cr_status = of_nat status, cr_headers = stored_headers hs, cr_body = xc_body x @ concat (bytes_of final)\<rparr>"
  have "captures (has_cache S0) x" using web_reach_sound [OF assms(1)] assms(2) by blast
  from store_entry_serves [OF last_chunk_stores [OF this assms(3,4,10,5-9)] assms(11,12)]
  obtain c' where c': "sh_cache S' = Some c'" "cache_lookup (w_env W') (sh_dir S') c' k (w_now W') = Inr (c', Fresh ?r)"
    by blast
  have same: "S'\<lparr>sh_cache := Some c'\<rparr> = S'" using c'(1) by simp
  from assms(13,15,16) have "request_cacheable (rq_method (hq_req hq)) (hget (rq_headers (hq_req hq)) ''cache-control'')
      (hhas (rq_headers (hq_req hq)) ''authorization'')"
    by (auto simp: cache_request_key_def request_cacheable_def Let_def split: if_splits)
  with c' same assms(13,14) show ?thesis
    by (auto simp: cache_phase_def h3_cache_phase_def h3_key_def rbind_def Let_def)
qed

definition demo_h3_get :: h3_request where
  "demo_h3_get = \<lparr>hq_req = demo_request, hq_host = Some ''x.io'', hq_ip = V4 [10, 0, 0, 5], hq_ip_text = ''10.0.0.5'',
     hq_connection = FullHandshake\<rparr>"

theorem stored_answer_is_reused_witness:
  "case demo_mid of
     Inl p \<Rightarrow> False
   | Inr (S, x, log) \<Rightarrow>
       (case exchange_step open_proxy 16 (EvBody demo_world (Some ''i'') True) S x of
          Inl p \<Rightarrow> False
        | Inr (S', x') \<Rightarrow>
            (case h3_cache_phase demo_h3 demo_world S' demo_h3_get of
               Inr (S'', Some r, None) \<Rightarrow> cr_body r = ''hi''
             | _ \<Rightarrow> False))"
proof -
  obtain S x log where r: "web_reach demo_env open_proxy 16 routed_shared
       \<lparr>wb_shared = S, wb_exchange = (\<lambda>_. new_exchange demo_request)(0 := x), wb_log = log\<rparr>"
    and m: "demo_mid = Inr (S, x, log)" by (rule demo_mid_reached)
  have x: "xc_phase x = Answering False" "xc_head x = Some (200, [(''cache-control'', Some ''max-age=5'')])" "xc_body x = ''h''"
    "cx_cache_key (xc_ctx x) = Some demo_text" "cx_cache_ttl (xc_ctx x) = Some 5" "\<not> cx_cache_overflow (xc_ctx x)"
    "sh_cache S = Some (cache_new 4)" using demo_mid_ok [unfolded m] by simp_all
  have e: "time_add_secs (w_later demo_world) 5 = Inr (SysTime 5000000000)"
    by (simp add: demo_world_def time_add_secs_def systime_secs_def)
  have "px_cache_max_body open_proxy = 100" by (simp add: open_proxy_def demo_proxy_def)
  then have len: "length (xc_body x @ concat (bytes_of (Some ''i''))) \<le> px_cache_max_body open_proxy"
    by (simp add: x bytes_of_def)
  have now: "w_now demo_world < SysTime 5000000000" by (simp add: demo_world_def less_systime_def)
  have hq: "h3_key demo_h3_get = demo_text" "rq_method (hq_req demo_h3_get) = ''GET''"
    "rq_headers (hq_req demo_h3_get) = rq_headers demo_request" by code_simp+
  obtain S' x' where st: "exchange_step open_proxy 16 (EvBody demo_world (Some ''i'') True) S x = Inr (S', x')"
    using demo_last_ok [unfolded m] by (auto split: sum.splits)
  from stored_answer_is_reused [OF r _ x(1,2) _ x(4-6) len _ e now demo_key hq, where i = 0 and c = "cache_new 4" and S' = S' and x' = x' and P' = demo_proxy and ctx = new_ctx and L = demo_h3]
    st x(3,7) show ?thesis unfolding m by (simp add: bytes_of_def del: exchange_step.simps)
qed



end
