(* ===== verification/ExchangeProps.thy ===== *)
theory ExchangeProps
  imports Exchange
begin

section \<open>Whole requests between client and origin\<close>

text \<open>
  What holds of every request in every interleaving: what is sent upstream is what the client sent, within the
  limit, and what the client gets is what the origin sent.  And where whole requests go wrong.
\<close>

subsection \<open>What goes upstream\<close>

definition uploads :: "'n proxy \<Rightarrow> exchange \<Rightarrow> bool" where
  "uploads P x =
     ((\<forall>mx. px_max_body P = Some mx \<longrightarrow> length (concat (xc_sent x)) \<le> mx \<and>
           (xc_phase x = Over \<or> length (concat (xc_sent x)) \<le> cx_body_seen (xc_ctx x) \<and> cx_body_seen (xc_ctx x) \<le> mx)) \<and>
      (streams (xc_phase x) \<longrightarrow> concat (xc_sent x) = concat (xc_read x)) \<and>
      (xc_peer x = None \<longrightarrow> xc_sent x = [] \<and> \<not> streams (xc_phase x)) \<and>
      (xc_phase x = Arrived \<longrightarrow> xc_peer x = None \<and> cx_body_seen (xc_ctx x) = 0) \<and>
      (\<forall>n. xc_phase x = Connecting n \<longrightarrow> xc_sent x = []) \<and>
      (xc_phase x \<noteq> Arrived \<and> xc_phase x \<noteq> Over \<or> xc_peer x \<noteq> None \<longrightarrow>
         \<not> denied P (xc_req x) \<and> \<not> declared_too_large P (xc_req x)))"

lemma uploads_new: "uploads P (new_exchange req)"
  by (simp add: uploads_def new_exchange_def new_ctx_def streams_def split: option.split)

lemma uploads_fail: "uploads P x \<Longrightarrow> uploads P (fail_exchange etype esource x)"
  by (auto simp: uploads_def fail_exchange_def streams_def split: option.splits)

lemma uploads_retry:
  "uploads P x \<Longrightarrow> xc_phase x = Connecting n \<or> xc_phase x = Forwarding n \<Longrightarrow>
     uploads P (retry_or_fail tries n retry etype esource x)"
  by (auto simp: retry_or_fail_def uploads_fail) (auto simp: uploads_def streams_def split: option.splits)

lemma request_filter_proceeds:
  "request_filter P W S req ctx = Inr (S', ctx', Proceed) \<Longrightarrow> \<not> denied P req \<and> \<not> declared_too_large P req"
  by (auto simp: request_filter_def split: if_splits prod.splits)

lemma body_seen_frame [simp]: "cx_body_seen (upstream_response_filter S status hs ctx) = cx_body_seen ctx"
  by (simp add: upstream_response_filter_def split: option.split)

lemma response_body_seen:
  "upstream_response_body_filter P W S chunk eos ctx = Inr (S', ctx') \<Longrightarrow> cx_body_seen ctx' = cx_body_seen ctx"
  by (auto simp: upstream_response_body_filter_def rbind_def Let_def split: option.splits if_splits sum.splits)

lemma request_body_filter_seen:
  "request_body_filter P chunk ctx = Some ctx' \<Longrightarrow> px_max_body P = Some mx \<Longrightarrow>
     cx_body_seen ctx' = cx_body_seen ctx + length (concat (bytes_of chunk)) \<and> (cx_body_seen ctx \<le> mx \<longrightarrow> cx_body_seen ctx' \<le> mx)"
  by (auto simp: request_body_filter_def bytes_of_def Let_def split: option.splits if_splits)

lemma exchange_uploads:
  assumes "exchange_step P tries ev S x = Inr (S', x')" and "uploads P x"
  shows "uploads P x'"
proof (cases ev)
  case (EvFilter W etype esource)
  show ?thesis
  proof (cases "xc_phase x = Arrived")
    case True
    then obtain ctx v where f: "request_filter P W S (xc_req x) (xc_ctx x) = Inr (S', ctx, v)"
      using assms(1) EvFilter by (auto simp: rbind_def split: sum.splits)
    have "cx_body_seen ctx = cx_body_seen (xc_ctx x)" using request_filter_ctx [OF f] by auto
    then have "uploads P (x\<lparr>xc_ctx := ctx\<rparr>)" using assms(2) by (simp add: uploads_def)
    with f True assms(1) EvFilter show ?thesis
      by (auto simp: rbind_def Let_def uploads_fail split: verdict.splits dest!: request_filter_proceeds)
        (auto simp: uploads_def streams_def split: option.splits)
  qed (use assms EvFilter in simp)
next
  case (EvPeer W refused)
  show ?thesis
  proof (cases "xc_phase x")
    case (Connecting n)
    obtain S1 ctx peer where u: "upstream_peer P W S (xc_req x) (xc_ctx x) = (S1, ctx, peer)" by (metis prod.exhaust)
    have "cx_body_seen ctx = cx_body_seen (xc_ctx x)" using upstream_peer_ctx [OF u] by auto
    then have c: "uploads P (x\<lparr>xc_ctx := ctx\<rparr>)" using assms(2) by (simp add: uploads_def)
    show ?thesis
    proof (cases peer)
      case None
      with assms(1) EvPeer Connecting u c show ?thesis by (auto simp: uploads_fail)
    next
      case (Some p)
      let ?x = "x\<lparr>xc_ctx := ctx, xc_peer := Some p\<rparr>"
      have up: "uploads P ?x" using c Connecting by (simp add: uploads_def streams_def)
      moreover from this Connecting
      have "uploads P (retry_or_fail tries n retry etype esource ?x)" for etype esource retry
        by (intro uploads_retry) simp_all
      ultimately show ?thesis using assms(1) EvPeer Connecting u Some
        by (auto simp: Let_def uploads_fail split: option.splits prod.splits if_splits)
          (auto simp: uploads_def streams_def bytes_of_def split: option.splits dest: request_body_filter_seen)
    qed
  qed (use assms EvPeer in auto)
next
  case (EvClient chunk)
  with assms show ?thesis
    by (auto simp: uploads_fail split: if_splits option.splits)
      (auto simp: uploads_def streams_def split: option.splits phase.splits dest: request_body_filter_seen)
next
  case (EvHead W status hs ends)
  with assms show ?thesis
    by (auto simp: Let_def split: phase.splits if_splits) (auto simp: uploads_def streams_def split: option.splits)
next
  case (EvBody W chunk eos)
  with assms show ?thesis
    by (auto simp: rbind_def split: phase.splits sum.splits)
      (auto simp: uploads_def streams_def split: option.splits dest: response_body_seen)
next
  case EvTrailers
  with assms show ?thesis by (auto simp: uploads_def streams_def split: phase.splits option.splits)
next
  case (EvBreak etype esource retry)
  with assms show ?thesis by (auto simp: uploads_fail uploads_retry split: phase.splits)
qed

text \<open>
  C6. Whatever interleaving, retries and breaks: a request reaches an upstream only if its client is not denied and
  it does not declare too large a body; what an attempt has been sent of its body is exactly what was read
  from the client, in order, and never more than the limit.
\<close>

theorem exchange_upload_bounded:
  assumes "web_reach E P tries S s"
  shows "case wb_exchange s i of x \<Rightarrow>
     (case xc_peer x of
        None \<Rightarrow> xc_sent x = []
      | Some peer \<Rightarrow> \<not> denied P (xc_req x) \<and> \<not> declared_too_large P (xc_req x)) \<and>
     (case px_max_body P of None \<Rightarrow> True | Some mx \<Rightarrow> length (concat (xc_sent x)) \<le> mx) \<and>
     (\<not> streams (xc_phase x) \<or> concat (xc_sent x) = concat (xc_read x))"
proof -
  have "uploads P (wb_exchange s i)"
    by (rule web_reach_each [OF assms]) (auto intro: uploads_new exchange_uploads)
  then show ?thesis by (auto simp: uploads_def split: option.split)
qed

subsection \<open>What the client gets\<close>

definition final_statuses :: "wire list \<Rightarrow> nat list" where
  "final_statuses ws = List.map_filter (\<lambda>e. case e of
     RespHead status _ _ \<Rightarrow> if informational status then None else Some status
   | RespError status \<Rightarrow> Some status
   | RespBody _ _ \<Rightarrow> None) ws"

definition wire_body :: "wire list \<Rightarrow> bytes" where
  "wire_body ws = concat (map (\<lambda>e. case e of RespBody b _ \<Rightarrow> b | _ \<Rightarrow> []) ws)"

lemma final_statuses_simps [simp]:
  "final_statuses [] = []"
  "final_statuses (e # ws) = (case e of
     RespHead status _ _ \<Rightarrow> if informational status then [] else [status]
   | RespError status \<Rightarrow> [status]
   | RespBody _ _ \<Rightarrow> []) @ final_statuses ws"
  "final_statuses (ws @ ws') = final_statuses ws @ final_statuses ws'"
  by (simp_all add: final_statuses_def List.map_filter_def split: wire.split)

lemma wire_body_simps [simp]:
  "wire_body [] = []"
  "wire_body (e # ws) = (case e of RespBody b _ \<Rightarrow> b | _ \<Rightarrow> []) @ wire_body ws"
  "wire_body (ws @ ws') = wire_body ws @ wire_body ws'"
  by (simp_all add: wire_body_def)

definition relays :: "exchange \<Rightarrow> bool" where
  "relays x =
     ((\<forall>status hs. xc_head x = Some (status, hs) \<longrightarrow>
         final_statuses (xc_wire x) = [status] \<and> wire_body (xc_wire x) = xc_body x) \<and>
      (xc_head x = None \<longrightarrow> xc_body x = [] \<and> (xc_phase x \<noteq> Over \<longrightarrow> final_statuses (xc_wire x) = [] \<and> wire_body (xc_wire x) = [])) \<and>
      length (final_statuses (xc_wire x)) \<le> 1 \<and>
      (xc_phase x = Arrived \<longrightarrow> xc_wire x = []) \<and>
      (xc_head x = None \<or> xc_phase x = Answered \<or> xc_phase x = Over \<or> (\<exists>up. xc_phase x = Answering up)) \<and>
      ((\<exists>up. xc_phase x = Answering up) \<or> xc_phase x = Answered \<longrightarrow> xc_head x \<noteq> None))"

lemma relays_new: "relays (new_exchange req)"
  by (simp add: relays_def new_exchange_def)

lemma relays_fail: "relays x \<Longrightarrow> xc_phase x \<noteq> Over \<Longrightarrow> relays (fail_exchange etype esource x)"
  by (auto simp: relays_def fail_exchange_def fail_to_proxy_def Let_def)

lemma relays_retry:
  "relays x \<Longrightarrow> xc_phase x = Connecting n \<or> xc_phase x = Forwarding n \<Longrightarrow>
     relays (retry_or_fail tries n retry etype esource x)"
  by (auto simp: retry_or_fail_def relays_fail) (auto simp: relays_def)

lemma serve_cache_hit_one: "serve_cache_hit W hit inm = Handled ws \<Longrightarrow> length (final_statuses ws) \<le> 1"
  by (auto simp: serve_cache_hit_def split: option.splits if_splits)

lemma try_serve_static_one: "try_serve_static W rt req = Handled ws \<Longrightarrow> length (final_statuses ws) \<le> 1"
  by (auto simp: try_serve_static_def Let_def split: option.splits)

lemma try_run_plugins_one: "try_run_plugins P W rt req = (rt', Handled ws) \<Longrightarrow> length (final_statuses ws) \<le> 1"
  by (auto simp: try_run_plugins_def split: option.splits prod.splits if_splits buffered.splits)

lemma cache_phase_one: "cache_phase P W S req ctx = Inr (S', ctx', Handled ws) \<Longrightarrow> length (final_statuses ws) \<le> 1"
  by (auto simp: cache_phase_def revalidate_stale_def rbind_def Let_def dest!: serve_cache_hit_one
      split: option.splits sum.splits lookup.splits prod.splits revalidated.splits)

lemma request_filter_one:
  "request_filter P W S req ctx = Inr (S', ctx', Handled ws) \<Longrightarrow> length (final_statuses ws) \<le> 1"
  by (auto simp: request_filter_def Let_def split: if_splits prod.splits verdict.splits
      dest: try_serve_static_one try_run_plugins_one cache_phase_one)

lemma exchange_relays:
  assumes "exchange_step P tries ev S x = Inr (S', x')" and "relays x"
  shows "relays x'"
proof (cases ev)
  case (EvFilter W etype esource)
  show ?thesis
  proof (cases "xc_phase x = Arrived")
    case True
    then obtain ctx v where f: "request_filter P W S (xc_req x) (xc_ctx x) = Inr (S', ctx, v)"
      using assms(1) EvFilter by (auto simp: rbind_def split: sum.splits)
    have ctx: "relays (x\<lparr>xc_ctx := ctx\<rparr>)" using assms(2) by (simp add: relays_def)
    from f True assms(1) EvFilter have x': "x' = (case v of
        Handled ws \<Rightarrow> x\<lparr>xc_ctx := ctx, xc_phase := Over, xc_wire := ws\<rparr>
      | Proceed \<Rightarrow> x\<lparr>xc_ctx := ctx, xc_phase := Connecting 1\<rparr>
      | Aborted \<Rightarrow> fail_exchange etype esource (x\<lparr>xc_ctx := ctx\<rparr>))"
      by (auto simp: rbind_def Let_def split: verdict.splits)
    show ?thesis
    proof (cases v)
      case (Handled ws)
      from request_filter_one [OF f [unfolded Handled]] assms(2) True x' Handled show ?thesis
        by (auto simp: relays_def)
    next
      case Proceed
      with assms(2) True x' show ?thesis by (auto simp: relays_def)
    next
      case Aborted
      with ctx True x' show ?thesis by (simp add: relays_fail)
    qed
  qed (use assms EvFilter in simp)
next
  case (EvPeer W refused)
  show ?thesis
  proof (cases "xc_phase x")
    case (Connecting n)
    obtain S1 ctx peer where u: "upstream_peer P W S (xc_req x) (xc_ctx x) = (S1, ctx, peer)" by (metis prod.exhaust)
    have c: "relays (x\<lparr>xc_ctx := ctx\<rparr>)" using assms(2) by (simp add: relays_def)
    show ?thesis
    proof (cases peer)
      case None
      with assms(1) EvPeer Connecting u c show ?thesis by (auto simp: relays_fail)
    next
      case (Some p)
      let ?x = "x\<lparr>xc_ctx := ctx, xc_peer := Some p\<rparr>"
      have "relays ?x" using assms(2) by (simp add: relays_def)
      moreover from this Connecting have "relays (retry_or_fail tries n retry etype esource ?x)" for etype esource retry
        by (intro relays_retry) simp_all
      ultimately show ?thesis using assms(1) EvPeer Connecting u Some
        by (auto simp: Let_def relays_fail split: option.splits prod.splits if_splits)
          (auto simp: relays_def)
    qed
  qed (use assms EvPeer in auto)
next
  case (EvClient chunk)
  with assms show ?thesis
    by (auto simp: relays_fail streams_def split: if_splits option.splits phase.splits) (auto simp: relays_def)
next
  case (EvHead W status hs ends)
  with assms show ?thesis
    by (auto simp: Let_def split: phase.splits if_splits) (auto simp: relays_def)
next
  case (EvBody W chunk eos)
  with assms show ?thesis
    by (auto simp: rbind_def split: phase.splits sum.splits) (auto simp: relays_def)
next
  case EvTrailers
  with assms show ?thesis by (auto simp: relays_def split: phase.splits)
next
  case (EvBreak etype esource retry)
  with assms show ?thesis by (auto simp: relays_fail relays_retry split: phase.splits)
qed


subsection \<open>Where whole requests go wrong\<close>

text \<open>
  The running count of body bytes is not reset for a new attempt, and Pingora passes what it has read through the
  filter again: an upload within the limit, more than half of which was read before the first connection
  broke, is refused on the retry.
\<close>

lemma retried_upload_counted_twice:
  assumes "uploads P x" and "xc_phase x = Forwarding n" and "n < tries" and "xc_head x = None"
    and "px_max_body P = Some mx" and "mx < 2 * length (concat (xc_read x))"
    and "upstream_peer P W S (xc_req x) (xc_ctx x) = (S', ctx, Some peer)"
  shows "\<exists>x1 x2. exchange_step P tries (EvBreak etype esource True) S x = Inr (S, x1) \<and>
     exchange_step P tries (EvPeer W None) S x1 = Inr (S', x2) \<and>
     xc_phase x2 = Over \<and> xc_wire x2 = xc_wire x @ [RespError 500]"
proof -
  have "concat (xc_sent x) = concat (xc_read x)" "length (concat (xc_sent x)) \<le> cx_body_seen (xc_ctx x)"
    using assms(1,2,5) by (auto simp: uploads_def streams_def)
  moreover have "cx_body_seen ctx = cx_body_seen (xc_ctx x)" using upstream_peer_ctx [OF assms(7)] by auto
  ultimately have "request_body_filter P (Some (concat (xc_read x))) ctx = None"
    using assms(5,6) by (simp add: request_body_filter_def Let_def)
  moreover have "xc_read x \<noteq> []" using assms(6) by auto
  ultimately show ?thesis using assms(2-4,7)
    by (simp add: retry_or_fail_def fail_exchange_def fail_to_proxy_def fail_code_def Let_def)
qed

text \<open>
  A body that turns out too large on its way is answered 500, not 413 as the limit is documented: the filter's
  error carries no status.  A request that no route matches is answered 500 too, where the HTTP/3 listener
  answers 404.
\<close>

lemma streamed_excess_is_500:
  assumes "xc_phase x = Forwarding n" and "xc_head x = None" and "px_max_body P = Some mx"
    and "mx < cx_body_seen (xc_ctx x) + length chunk"
  shows "\<exists>x'. exchange_step P tries (EvClient (Some chunk)) S x = Inr (S, x') \<and>
     xc_phase x' = Over \<and> xc_wire x' = xc_wire x @ [RespError 500]"
  using assms
  by (simp add: streams_def request_body_filter_def fail_exchange_def fail_to_proxy_def fail_code_def Let_def)

lemma unrouted_is_500:
  assumes "xc_phase x = Connecting n" and "xc_head x = None"
    and "next_target_for (w_health W) (sh_router S) (host_name (xc_req x)) (rq_path (xc_req x)) = (rt, None)"
  shows "\<exists>x'. exchange_step P tries (EvPeer W None) S x = Inr (S\<lparr>sh_router := rt\<rparr>, x') \<and>
     xc_wire x' = xc_wire x @ [RespError 500]"
  using assms by (simp add: upstream_peer_def fail_exchange_def fail_to_proxy_def fail_code_def Let_def)

lemma h3_unrouted_is_404:
  "next_target_for (w_health W) (sh_router S) (hq_host hq) (rq_path (hq_req hq)) = (rt, None) \<Longrightarrow>
     h3_upstream L W C uri_ok up S hq k = Inr (S\<lparr>sh_router := rt\<rparr>, status_only 404)"
  by (simp add: h3_upstream_def Let_def)

text \<open>
  The limit on request bodies also counts what a client sends through an upgraded connection: a WebSocket is cut
  once its messages exceed the limit, however small each is.
\<close>

lemma tunnel_bytes_limited:
  assumes "xc_phase x = Answering True" and "px_max_body P = Some mx"
    and "mx < cx_body_seen (xc_ctx x) + length message"
  shows "\<exists>x'. exchange_step P tries (EvClient (Some message)) S x = Inr (S, x') \<and> xc_phase x' = Over"
  using assms by (simp add: streams_def request_body_filter_def fail_exchange_def Let_def)

subsection \<open>Witnesses\<close>

theorem exchange_upload_bounded_witness:
  "case demo_mid of
     Inl p \<Rightarrow> False
   | Inr (S, x, log) \<Rightarrow> xc_peer x \<noteq> None \<and> \<not> denied open_proxy (xc_req x) \<and> length (concat (xc_sent x)) \<le> 10"
proof -
  obtain S x log where r: "web_reach demo_env open_proxy 16 routed_shared
       \<lparr>wb_shared = S, wb_exchange = (\<lambda>_. new_exchange demo_request)(0 := x), wb_log = log\<rparr>"
    and m: "demo_mid = Inr (S, x, log)" by (rule demo_mid_reached)
  have "px_max_body open_proxy = Some 10" by (simp add: open_proxy_def demo_proxy_def)
  with exchange_upload_bounded [OF r, of 0] demo_mid_ok [unfolded m] show ?thesis unfolding m by auto
qed


end
