(* ===== verification/Quic.thy ===== *)
theory Quic
  imports Http3Props Handshakes
begin

section \<open>Connections of the HTTP/3 listener: \<^verbatim>\<open>serve\<close> and \<^verbatim>\<open>handle_connection\<close> in \<^verbatim>\<open>crates/zaphyl/src/http3.rs\<close>\<close>

text \<open>
  The listener's loop and its connections as events: a client connects (resuming a session with 0-RTT, or with a
  full handshake that succeeds or fails), a handshake that was outstanding completes, a request arrives on a
  connection, a connection ends.  Quinn and the \<open>h3\<close> crate deliver the events; \<open>h3\<close> refuses a request whose
  decoded header section is larger than the bound it was built with.  A request is handled when it arrives.
\<close>

datatype incoming = Unacceptable | Resumed | Plain bool

text \<open>\<open>incoming.accept()?.into_0rtt()\<close>: no connection, early data, or a full handshake.\<close>

fun connect :: "incoming \<Rightarrow> connection option" where
  "connect Unacceptable = None"
| "connect Resumed = Some (ZeroRtt False)"
| "connect (Plain handshake_ok) = (if handshake_ok then Some FullHandshake else None)"

datatype quic_event =
    Incoming nat ip_addr string incoming
  | HandshakeDone nat
  | Stream nat nat request "string option" world origin     \<comment> \<open>connection, size of the header section, request, host\<close>
  | Closed nat

record quic_conn =
  qc_ip :: ip_addr
  qc_ip_text :: string
  qc_connection :: connection

record quic =
  qu_conns :: "nat \<Rightarrow> quic_conn option"
  qu_shared :: shared

text \<open>The flag of a resumed connection, once its handshake has completed.\<close>

definition complete :: "quic_conn \<Rightarrow> quic_conn" where
  "complete c = c\<lparr>qc_connection := (case qc_connection c of FullHandshake \<Rightarrow> FullHandshake | ZeroRtt _ \<Rightarrow> ZeroRtt True)\<rparr>"

fun quic_step :: "'n h3_listener \<Rightarrow> 's coder \<Rightarrow> (string \<Rightarrow> bool) \<Rightarrow> quic_event \<Rightarrow> quic \<Rightarrow> quic \<times> (nat \<times> h3_outcome) option" where
  "quic_step L C uri_ok (Incoming c ip peer i) Q =
     (Q\<lparr>qu_conns := (qu_conns Q)(c := map_option (\<lambda>k. \<lparr>qc_ip = ip, qc_ip_text = peer, qc_connection = k\<rparr>) (connect i))\<rparr>, None)"
| "quic_step L C uri_ok (HandshakeDone c) Q =
     (Q\<lparr>qu_conns := (qu_conns Q)(c := map_option complete (qu_conns Q c))\<rparr>, None)"
| "quic_step L C uri_ok (Stream c hdr req host W up) Q =
     (case qu_conns Q c of
        None \<Rightarrow> (Q, None)
      | Some conn \<Rightarrow>
          if max_header_bytes (hs_limits L) < hdr then (Q, None)
          else (case proxy_request L W C uri_ok up (qu_shared Q)
                       \<lparr>hq_req = req, hq_host = host, hq_ip = qc_ip conn, hq_ip_text = qc_ip_text conn,
                        hq_connection = qc_connection conn\<rparr> of
                  Inl panic \<Rightarrow> (Q, None)
                | Inr (S, out) \<Rightarrow> (Q\<lparr>qu_shared := S\<rparr>, Some (c, out))))"
| "quic_step L C uri_ok (Closed c) Q = (Q\<lparr>qu_conns := (qu_conns Q)(c := None)\<rparr>, None)"

fun quic_run :: "'n h3_listener \<Rightarrow> 's coder \<Rightarrow> (string \<Rightarrow> bool) \<Rightarrow> quic_event list \<Rightarrow> quic \<Rightarrow> quic \<times> (nat \<times> h3_outcome) list" where
  "quic_run L C uri_ok [] Q = (Q, [])"
| "quic_run L C uri_ok (e # es) Q =
     (let (Q, out) = quic_step L C uri_ok e Q;
          (Q, outs) = quic_run L C uri_ok es Q
      in (Q, (case out of None \<Rightarrow> outs | Some x \<Rightarrow> x # outs)))"

text \<open>\<open>serve\<close>: nothing is accepted unless the certificate, the TLS configuration and the socket are there.\<close>

definition h3_serve :: "(('c list \<times> 'k) reload \<times> string list) option \<Rightarrow> 'n h3_listener \<Rightarrow> 's coder \<Rightarrow> (string \<Rightarrow> bool)
    \<Rightarrow> quic_event list \<Rightarrow> shared \<Rightarrow> (quic \<times> (nat \<times> h3_outcome) list) option" where
  "h3_serve setup L C uri_ok es S =
     (case setup of
        None \<Rightarrow> None
      | Some _ \<Rightarrow> Some (quic_run L C uri_ok es \<lparr>qu_conns = (\<lambda>_. None), qu_shared = S\<rparr>))"

lemma quic_run_append:
  "quic_run L C uri_ok (es @ es') Q =
     (let (Q, outs) = quic_run L C uri_ok es Q; (Q, outs') = quic_run L C uri_ok es' Q in (Q, outs @ outs'))"
proof (induction es arbitrary: Q)
  case (Cons e es)
  obtain Q1 out where "quic_step L C uri_ok e Q = (Q1, out)" by fastforce
  with Cons [of Q1] show ?case by (simp add: Let_def case_prod_unfold split: option.split)
qed simp

text \<open>Events that leave a connection as it is.\<close>

fun about :: "quic_event \<Rightarrow> nat option" where
  "about (Incoming c ip peer i) = Some c"
| "about (HandshakeDone c) = Some c"
| "about (Closed c) = Some c"
| "about (Stream c hdr req host W up) = None"

lemma quic_step_conns: "about e \<noteq> Some c \<Longrightarrow> qu_conns (fst (quic_step L C uri_ok e Q)) c = qu_conns Q c"
  by (cases e) (auto split: option.splits sum.splits)

lemma quic_run_conns:
  "list_all (\<lambda>e. about e \<noteq> Some c) es \<Longrightarrow> qu_conns (fst (quic_run L C uri_ok es Q)) c = qu_conns Q c"
proof (induction es arbitrary: Q)
  case (Cons e es)
  obtain Q1 out where step: "quic_step L C uri_ok e Q = (Q1, out)" by fastforce
  with quic_step_conns [of e c L C uri_ok Q] Cons.prems have "qu_conns Q1 c = qu_conns Q c" by simp
  with Cons.IH [of Q1] Cons.prems step show ?case by (simp add: Let_def case_prod_unfold)
qed simp

lemma early_unsafe_refused:
  assumes "is_early hq" and "rq_method (hq_req hq) \<notin> rfc_safe"
  shows "proxy_request L W C uri_ok up S hq = Inr (S, status_only (if h3_denied L hq then 403 else 425))"
  using assms by (simp add: proxy_request_def is_safe_method_def rfc_safe_def)

text \<open>
  C12. On a connection that was resumed with 0-RTT, a request whose method is not safe is refused as long as
  the handshake has not completed, whatever other connections and requests the listener has handled
  before and since: it is answered 425 (or 403), forwarded nowhere, and the shared state stays as it was.
\<close>

theorem resumed_connection_waits:
  assumes "list_all (\<lambda>e. about e \<noteq> Some c) since" and "rq_method req \<notin> rfc_safe"
    and "hdr \<le> max_header_bytes (hs_limits L)"
  shows "let (Q, outs) = quic_run L C uri_ok (before @ Incoming c ip peer Resumed # since) Q0;
             (Q', outs') = quic_run L C uri_ok (before @ Incoming c ip peer Resumed # since @ [Stream c hdr req host W up]) Q0
         in qu_shared Q' = qu_shared Q \<and>
            (\<exists>status\<in>{403, 425}. outs' = outs @ [(c, status_only status)])"
proof -
  let ?es = "before @ Incoming c ip peer Resumed # since"
  obtain Q outs where run: "quic_run L C uri_ok ?es Q0 = (Q, outs)" by fastforce
  obtain Q1 outs1 where before: "quic_run L C uri_ok before Q0 = (Q1, outs1)" by fastforce
  let ?Q2 = "fst (quic_step L C uri_ok (Incoming c ip peer Resumed) Q1)"
  have "Q = fst (quic_run L C uri_ok since ?Q2)"
    using run before by (simp add: quic_run_append Let_def case_prod_unfold)
  then have conn: "qu_conns Q c = Some \<lparr>qc_ip = ip, qc_ip_text = peer, qc_connection = ZeroRtt False\<rparr>"
    by (simp add: quic_run_conns [OF assms(1)])
  let ?hq = "\<lparr>hq_req = req, hq_host = host, hq_ip = ip, hq_ip_text = peer, hq_connection = ZeroRtt False\<rparr>"
  have early: "proxy_request L W C uri_ok up (qu_shared Q) ?hq
      = Inr (qu_shared Q, status_only (if h3_denied L ?hq then 403 else 425))"
    using assms(2) by (intro early_unsafe_refused) (simp_all add: is_early_def)
  have all: "before @ Incoming c ip peer Resumed # since @ [Stream c hdr req host W up] = ?es @ [Stream c hdr req host W up]"
    by simp
  show ?thesis
    unfolding all quic_run_append [of L C uri_ok ?es] run using conn early assms(3) by (auto simp: Let_def)
qed

definition demo_stream :: "string \<Rightarrow> quic_event" where
  "demo_stream meth = Stream 1 100 (demo_request\<lparr>rq_method := meth\<rparr>) (Some ''x.io'') demo_world demo_origin"

theorem resumed_connection_waits_witness:
  "\<exists>status\<in>{403, 425}. snd (quic_run demo_h3 late_coder (\<lambda>_. True)
     [Incoming 1 (V4 [10, 0, 0, 6]) ''10.0.0.6'' Resumed, Incoming 2 (V4 [10, 0, 0, 7]) ''10.0.0.7'' (Plain True), HandshakeDone 2,
      demo_stream ''POST''] \<lparr>qu_conns = (\<lambda>_. None), qu_shared = demo_h3_shared\<rparr>) = [(1, status_only status)]"
proof -
  let ?since = "[Incoming 2 (V4 [10, 0, 0, 7]) ''10.0.0.7'' (Plain True), HandshakeDone 2]"
  have "list_all (\<lambda>e. about e \<noteq> Some 1) ?since" by simp
  moreover have "rq_method (demo_request\<lparr>rq_method := ''POST''\<rparr>) \<notin> rfc_safe" by (simp add: rfc_safe_def)
  moreover have "100 \<le> max_header_bytes (hs_limits demo_h3)"
    by (simp add: max_header_bytes_def demo_h3_def default_max_header_bytes_def)
  ultimately show ?thesis
    using resumed_connection_waits [where c = 1 and since = ?since and before = "[]" and L = demo_h3 and hdr = 100
        and req = "demo_request\<lparr>rq_method := ''POST''\<rparr>" and C = late_coder and uri_ok = "\<lambda>_. True"
        and ip = "V4 [10, 0, 0, 6]" and peer = "''10.0.0.6''" and host = "Some ''x.io''" and W = demo_world and up = demo_origin
        and ?Q0.0 = "\<lparr>qu_conns = (\<lambda>_. None), qu_shared = demo_h3_shared\<rparr>"]
    by (simp add: Let_def case_prod_unfold demo_stream_def del: quic_step.simps(3))
qed

text \<open>A header section over the bound reaches no handler.\<close>

lemma oversized_headers_dropped:
  "max_header_bytes (hs_limits L) < hdr \<Longrightarrow> quic_step L C uri_ok (Stream c hdr req host W up) Q = (Q, None)"
  by (simp split: option.split)

end
