(* ===== verification/Front.thy ===== *)
theory Front
  imports Certificates Access
begin

section \<open>The plain-HTTP front at work: \<^verbatim>\<open>zaphyl/src/http_front.rs\<close>, \<^verbatim>\<open>spawn_http_front\<close> in \<^verbatim>\<open>main.rs\<close>\<close>

text \<open>
  The accept loop of the front with the connections it serves, and the loop by which start-up waits
  for it.  What the operating system answers (a bind, an accept, a connection attempt, the clock) is an
  input.
\<close>

subsection \<open>Serving\<close>

text \<open>
  What happens to the front while it runs: a connection is accepted, an accept fails, a request
  arrives on a connection, a connection ends; and the ACME client writes the challenge store.
\<close>

datatype front_event =
    Accept nat
  | AcceptFails
  | Request nat front_request
  | Hangup nat
  | Store "(string, string) store_op"

record front =
  fn_up :: bool                 \<comment> \<open>the accept loop and its runtime are running\<close>
  fn_open :: "nat set"
  fn_store :: challenge_store

fun store_event :: "(string, string) store_op \<Rightarrow> challenge_store \<Rightarrow> challenge_store" where
  "store_event (Insert k v) store = challenge_insert store k v"
| "store_event (Remove k) store = challenge_remove store k"

text \<open>
  One event.  A failed accept returns from \<open>serve\<close>; its runtime is dropped, and with it the tasks of the
  open connections.
\<close>

fun front_step :: "non_challenge \<Rightarrow> front_event \<Rightarrow> front \<Rightarrow> front \<times> (nat \<times> http_response) option" where
  "front_step behavior (Store op) F = (F\<lparr>fn_store := store_event op (fn_store F)\<rparr>, None)"
| "front_step behavior (Accept c) F =
     (if fn_up F then (F\<lparr>fn_open := insert c (fn_open F)\<rparr>, None) else (F, None))"
| "front_step behavior AcceptFails F = (F\<lparr>fn_up := False, fn_open := {}\<rparr>, None)"
| "front_step behavior (Request c req) F =
     (if c \<in> fn_open F then (F, Some (c, front_respond req (fn_store F) behavior)) else (F, None))"
| "front_step behavior (Hangup c) F = (F\<lparr>fn_open := fn_open F - {c}\<rparr>, None)"

fun front_run :: "non_challenge \<Rightarrow> front_event list \<Rightarrow> front \<Rightarrow> front \<times> (nat \<times> http_response) list" where
  "front_run behavior [] F = (F, [])"
| "front_run behavior (e # es) F =
     (let (F, answer) = front_step behavior e F;
          (F, answers) = front_run behavior es F
      in (F, (case answer of None \<Rightarrow> answers | Some a \<Rightarrow> a # answers)))"

definition front_serve :: "bool \<Rightarrow> non_challenge \<Rightarrow> front_event list \<Rightarrow> challenge_store \<Rightarrow> front \<times> (nat \<times> http_response) list" where
  "front_serve bound behavior es store =
     front_run behavior es \<lparr>fn_up = bound, fn_open = {}, fn_store = store\<rparr>"

text \<open>What a run did to the store, and which connections it has open.\<close>

definition writes_of :: "front_event list \<Rightarrow> (string, string) store_op list" where
  "writes_of es = List.map_filter (\<lambda>e. case e of Store op \<Rightarrow> Some op | _ \<Rightarrow> None) es"

lemma writes_of_simps [simp]:
  "writes_of [] = []"
  "writes_of (e # es) = (case e of Store op \<Rightarrow> op # writes_of es | _ \<Rightarrow> writes_of es)"
  by (simp_all add: writes_of_def split: front_event.split)

lemma store_event_run_ops:
  "run_ops challenge_insert challenge_remove (op # ops) s = run_ops challenge_insert challenge_remove ops (store_event op s)"
  by (cases op) simp_all

lemma front_run_append:
  "front_run b (es @ es') F =
     (let (F, as) = front_run b es F; (F, as') = front_run b es' F in (F, as @ as'))"
proof (induction es arbitrary: F)
  case (Cons e es)
  obtain F1 a where "front_step b e F = (F1, a)" by fastforce
  with Cons [of F1] show ?case by (simp add: Let_def case_prod_unfold split: option.split)
qed simp

lemma front_run_store:
  "fn_store (fst (front_run b es F)) = run_ops challenge_insert challenge_remove (writes_of es) (fn_store F)"
proof (induction es arbitrary: F)
  case (Cons e es)
  obtain F1 a where step: "front_step b e F = (F1, a)" by fastforce
  have "run_ops challenge_insert challenge_remove (writes_of (e # es)) (fn_store F)
      = run_ops challenge_insert challenge_remove (writes_of es) (fn_store F1)"
    using step by (cases e) (auto simp: store_event_run_ops simp del: run_ops.simps split: if_splits)
  with Cons.IH [of F1] step show ?case by (simp add: case_prod_unfold Let_def)
qed simp

lemma front_run_keeps:
  assumes "AcceptFails \<notin> set es" and "Hangup c \<notin> set es" and "fn_up F" and "c \<in> fn_open F \<or> Accept c \<in> set es"
  shows "c \<in> fn_open (fst (front_run b es F))"
  using assms
proof (induction es arbitrary: F)
  case (Cons e es)
  obtain F1 a where step: "front_step b e F = (F1, a)" by fastforce
  have "fn_up F1" "c \<in> fn_open F1 \<or> Accept c \<in> set es"
    using step Cons.prems by (cases e; auto split: if_splits)+
  with Cons.IH [of F1] Cons.prems(1,2) step show ?case by (simp add: case_prod_unfold Let_def)
qed simp

lemma front_run_down:
  "\<not> fn_up F \<Longrightarrow> fn_open F = {} \<Longrightarrow> snd (front_run b es F) = []"
proof (induction es arbitrary: F)
  case (Cons e es)
  obtain F1 a where step: "front_step b e F = (F1, a)" by fastforce
  then have "\<not> fn_up F1" "fn_open F1 = {}" "a = None" using Cons.prems by (cases e; auto)+
  with Cons.IH [of F1] step show ?case by (simp add: case_prod_unfold Let_def)
qed simp

text \<open>
  While no accept fails, a request that arrives on a connection that was accepted and has not ended is
  answered at once, from the challenges as the ACME client has written them by then, whatever the front
  did before.
\<close>

theorem front_answers_current_challenges:
  assumes "AcceptFails \<notin> set es" and "Hangup c \<notin> set es" and "Accept c \<in> set es"
  shows "snd (front_serve True behavior (es @ [Request c req]) store) =
     snd (front_serve True behavior es store) @
       [(c, front_respond req (run_ops challenge_insert challenge_remove (writes_of es) store) behavior)]"
proof -
  let ?F = "\<lparr>fn_up = True, fn_open = {}, fn_store = store\<rparr>"
  have "c \<in> fn_open (fst (front_run behavior es ?F))"
    using assms by (intro front_run_keeps) simp_all
  then show ?thesis
    by (simp add: front_serve_def front_run_append Let_def case_prod_unfold front_run_store)
qed

definition challenge_events :: "front_event list" where
  "challenge_events = [Accept 1, Store (Insert ''tok'' ''old''), Accept 2, Store (Insert ''tok'' ''tok.key'')]"

theorem front_answers_current_challenges_witness:
  "map (rs_status \<circ> snd) (snd (front_serve True NotFound (challenge_events @ [Request 1 
       \<lparr>fr_path = ''/.well-known/acme-challenge/tok'', fr_path_and_query = None, fr_host = None\<rparr>]) challenge_new)) = [200]"
proof -
  have "AcceptFails \<notin> set challenge_events" "Hangup 1 \<notin> set challenge_events" "Accept 1 \<in> set challenge_events"
    by (simp_all add: challenge_events_def)
  note front_answers_current_challenges [OF this]
  then show ?thesis by code_simp
qed

text \<open>
  A failed accept (too many open files, a connection reset in the queue) ends the front for good: nothing is
  answered after it, though \<open>serve\<close> is documented to run until the process exits and to fail on its
  bind only.
\<close>

lemma accept_failure_ends_front:
  "snd (front_serve bound behavior (es @ AcceptFails # es') store) = snd (front_serve bound behavior es store)"
proof -
  let ?F = "\<lparr>fn_up = bound, fn_open = {}, fn_store = store\<rparr>"
  have "snd (front_run behavior es' ((fst (front_run behavior es ?F))\<lparr>fn_up := False, fn_open := {}\<rparr>)) = []"
    by (rule front_run_down) simp_all
  then show ?thesis by (simp add: front_serve_def front_run_append Let_def case_prod_unfold)
qed

subsection \<open>Waiting for the front\<close>

text \<open>
  \<open>wait_bound\<close>: which attempts to connect succeed, how long each takes, and how much longer than
  asked each sleep lasts; times are nanoseconds since the start of the wait.
\<close>

record socket_addr =
  sa_ip :: ip_addr
  sa_port :: u16

record wait_env =
  wn_connects :: "socket_addr \<Rightarrow> nat \<Rightarrow> bool"
  wn_connect_ns :: "nat \<Rightarrow> nat"
  wn_late_ns :: "nat \<Rightarrow> nat"

definition probe_addr :: "socket_addr \<Rightarrow> socket_addr" where
  "probe_addr addr =
     (case sa_ip addr of
        V4 v4 \<Rightarrow> if v4 = [0, 0, 0, 0] then \<lparr>sa_ip = V4 [127, 0, 0, 1], sa_port = sa_port addr\<rparr> else addr
      | V6 _ \<Rightarrow> addr)"

definition wait_limit_ns :: nat where "wait_limit_ns = 3 * 10 ^ 9"
definition wait_sleep_ns :: nat where "wait_sleep_ns = 20 * 10 ^ 6"

text \<open>
  The loop, from its \<open>n\<close>-th attempt and time \<open>t\<close>: the number of the last attempt, the time
  at which the loop is left, and whether a connection was made.
\<close>

partial_function (option) wait_loop :: "wait_env \<Rightarrow> socket_addr \<Rightarrow> nat \<Rightarrow> nat \<Rightarrow> (nat \<times> nat \<times> bool) option" where
  "wait_loop E addr n t =
     (let t = t + wn_connect_ns E n
      in if wn_connects E addr n then Some (n, t, True)
         else if wait_limit_ns < t then Some (n, t, False)
         else wait_loop E addr (Suc n) (t + wait_sleep_ns + wn_late_ns E n))"

definition wait_bound :: "wait_env \<Rightarrow> socket_addr \<Rightarrow> (nat \<times> nat \<times> bool) option" where
  "wait_bound E addr = wait_loop E (probe_addr addr) 0 0"

lemma wait_sleep_pos: "0 < wait_sleep_ns"
  by (simp add: wait_sleep_ns_def)

text \<open>Each turn sleeps, so the time left shrinks by a sleep at least.\<close>

lemma wait_loop_returns:
  assumes "n * wait_sleep_ns \<le> t" and "n = 0 \<or> t \<le> wait_limit_ns + wait_sleep_ns + wn_late_ns E (n - 1)"
  shows "\<exists>m t' ok. wait_loop E addr n t = Some (m, t', ok) \<and> n \<le> m \<and> (m = n \<or> m * wait_sleep_ns \<le> wait_limit_ns + wait_sleep_ns) \<and>
     ok = wn_connects E addr m \<and> list_all (\<lambda>i. \<not> wn_connects E addr i) [n..<m] \<and> (ok \<or> wait_limit_ns < t') \<and>
     (m = 0 \<or> t' \<le> wait_limit_ns + wait_sleep_ns + wn_late_ns E (m - 1) + wn_connect_ns E m)"
  using assms
proof (induction "wait_limit_ns + 1 - t" arbitrary: n t rule: less_induct)
  case less
  let ?t = "t + wn_connect_ns E n"
  show ?case
  proof (cases "wn_connects E addr n \<or> wait_limit_ns < ?t")
    case True
    then show ?thesis using less.prems(2) by (subst wait_loop.simps) (auto simp: Let_def)
  next
    case False
    let ?t' = "?t + wait_sleep_ns + wn_late_ns E n"
    have eq: "wait_loop E addr n t = wait_loop E addr (Suc n) ?t'"
      using False by (subst wait_loop.simps) (simp add: Let_def)
    have "wait_limit_ns + 1 - ?t' < wait_limit_ns + 1 - t"
      using False wait_sleep_pos by linarith
    moreover have "Suc n * wait_sleep_ns \<le> ?t'" using less.prems(1) by simp
    ultimately obtain m t' ok where IH: "wait_loop E addr (Suc n) ?t' = Some (m, t', ok)" "Suc n \<le> m"
      "m = Suc n \<or> m * wait_sleep_ns \<le> wait_limit_ns + wait_sleep_ns"
      "ok = wn_connects E addr m" "list_all (\<lambda>i. \<not> wn_connects E addr i) [Suc n..<m]" "ok \<or> wait_limit_ns < t'"
      "m = 0 \<or> t' \<le> wait_limit_ns + wait_sleep_ns + wn_late_ns E (m - 1) + wn_connect_ns E m"
      using less.hyps [of ?t' "Suc n"] False by auto
    have "Suc n * wait_sleep_ns \<le> wait_limit_ns + wait_sleep_ns" using less.prems(1) False by simp
    moreover have "[n..<m] = n # [Suc n..<m]" using IH(2) by (intro upt_conv_Cons) simp
    ultimately show ?thesis using IH False unfolding eq by (auto simp del: upt_Suc)
  qed
qed

text \<open>
  C20. Start-up never hangs on the front: the wait returns after at most 152 attempts, whichever of them
  succeed and however long each takes; it returns at the first attempt that connects, or else once three
  seconds are over, at most one sleep and one attempt later.
\<close>

theorem wait_bound_terminates:
  "\<exists>m t ok. wait_bound E addr = Some (m, t, ok) \<and> m \<le> 151 \<and>
     ok = wn_connects E (probe_addr addr) m \<and> list_all (\<lambda>i. \<not> wn_connects E (probe_addr addr) i) [0..<m] \<and>
     (ok \<or> 3000000000 < t) \<and>
     (m = 0 \<or> t \<le> 3000000000 + 20000000 + wn_late_ns E (m - 1) + wn_connect_ns E m)"
proof -
  have "0 * wait_sleep_ns \<le> 0" by simp
  from wait_loop_returns [OF this, of E "probe_addr addr"] obtain m t ok where
    w: "wait_loop E (probe_addr addr) 0 0 = Some (m, t, ok)" and
    m: "m = 0 \<or> m * wait_sleep_ns \<le> wait_limit_ns + wait_sleep_ns" and
    rest: "ok = wn_connects E (probe_addr addr) m" "list_all (\<lambda>i. \<not> wn_connects E (probe_addr addr) i) [0..<m]"
      "ok \<or> wait_limit_ns < t" "m = 0 \<or> t \<le> wait_limit_ns + wait_sleep_ns + wn_late_ns E (m - 1) + wn_connect_ns E m"
    by auto
  from m have "m \<le> 151" by (auto simp: wait_sleep_ns_def wait_limit_ns_def)
  with w rest show ?thesis
    by (intro exI [of _ m] exI [of _ t] exI [of _ ok]) (simp add: wait_bound_def wait_sleep_ns_def wait_limit_ns_def)
qed

text \<open>The bound is reached: nobody listens, connections are refused at once and sleeps are exact.\<close>

definition refused :: wait_env where
  "refused = \<lparr>wn_connects = (\<lambda>_ _. False), wn_connect_ns = (\<lambda>_. 0), wn_late_ns = (\<lambda>_. 0)\<rparr>"

lemma wait_bound_tight: "wait_bound refused addr = Some (151, 3020000000, False)"
proof -
  have "k \<le> 151 \<Longrightarrow> wait_loop refused a (151 - k) ((151 - k) * wait_sleep_ns) = Some (151, 3020000000, False)" for a k
  proof (induction k)
    case 0
    show ?case by (subst wait_loop.simps) (simp add: refused_def wait_sleep_ns_def wait_limit_ns_def)
  next
    case (Suc k)
    have n: "Suc (151 - Suc k) = 151 - k" using Suc.prems by simp
    have "(151 - Suc k) * wait_sleep_ns + wait_sleep_ns = (151 - k) * wait_sleep_ns"
      by (simp flip: n)
    moreover have "\<not> wait_limit_ns < (151 - Suc k) * wait_sleep_ns"
      by (simp add: wait_limit_ns_def wait_sleep_ns_def)
    ultimately show ?case using Suc n
      by (subst wait_loop.simps) (simp add: refused_def Let_def)
  qed
  from this [of 151] show ?thesis by (simp add: wait_bound_def)
qed

text \<open>
  \<open>spawn_http_front\<close>: what is served where, and the wait for it; \<open>resolve\<close> parses an address.
\<close>

definition spawn_http_front :: "wait_env \<Rightarrow> (string \<Rightarrow> socket_addr) \<Rightarrow> config \<Rightarrow> u16 \<Rightarrow> string option
    \<Rightarrow> ((string \<times> non_challenge) option \<times> nat) option" where
  "spawn_http_front E address c https_port env_addr =
     (case http_front_choice c https_port env_addr of
        None \<Rightarrow> Some (None, 0)
      | Some (addr, behavior) \<Rightarrow>
          (case wait_bound E (address addr) of
             None \<Rightarrow> None
           | Some (_, t, _) \<Rightarrow> Some (Some (addr, behavior), t)))"

lemma spawn_http_front_returns: "\<exists>t. spawn_http_front E address c port env = Some (http_front_choice c port env, t)"
proof (cases "http_front_choice c port env")
  case (Some f)
  obtain addr behavior where f: "f = (addr, behavior)" by fastforce
  from wait_loop_returns [of 0 0 E "probe_addr (address addr)"] Some f show ?thesis
    by (auto simp: spawn_http_front_def wait_bound_def)
qed (simp add: spawn_http_front_def)

end
