(* ===== verification/ConfigFile.thy ===== *)
theory ConfigFile
  imports Config "HOL-Library.Monad_Syntax"
begin

section \<open>Reading a configuration file: the \<open>Deserialize\<close> declarations of \<^verbatim>\<open>crates/zaphyl-config\<close>\<close>

text \<open>
  What the declarations of the configuration types say about a TOML document: which keys a table has, which may
  be missing and what they are then, which types the values have, and that nothing else is accepted.
  The parser of TOML itself is the \<open>toml\<close> crate; a document is its value.  \<open>None\<close> is an error.
\<close>

subsection \<open>Values\<close>

datatype toml =
    TomlString string
  | TomlInteger int
  | TomlBoolean bool
  | TomlOther                        \<comment> \<open>floats and dates, which no field takes\<close>
  | TomlArray "toml list"
  | TomlTable "(string \<times> toml) list"

type_synonym table = "(string \<times> toml) list"

fun as_string :: "toml \<Rightarrow> string option" where
  "as_string (TomlString s) = Some s"
| "as_string _ = None"

fun as_bool :: "toml \<Rightarrow> bool option" where
  "as_bool (TomlBoolean b) = Some b"
| "as_bool _ = None"

text \<open>An unsigned integer of some width; TOML's integers have 64 bits and a sign.\<close>

fun as_uint :: "nat \<Rightarrow> toml \<Rightarrow> nat option" where
  "as_uint bits (TomlInteger n) = (if 0 \<le> n \<and> n < 2 ^ bits \<and> n < 2 ^ 63 then Some (nat n) else None)"
| "as_uint bits _ = None"

definition as_u64 :: "toml \<Rightarrow> nat option" where "as_u64 = as_uint 64"
definition as_usize :: "toml \<Rightarrow> nat option" where "as_usize = as_uint 64"
definition as_u32 :: "toml \<Rightarrow> nat option" where "as_u32 = as_uint 32"

fun as_table :: "toml \<Rightarrow> table option" where
  "as_table (TomlTable t) = Some t"
| "as_table _ = None"

fun all_some :: "('a \<Rightarrow> 'b option) \<Rightarrow> 'a list \<Rightarrow> 'b list option" where
  "all_some f [] = Some []"
| "all_some f (x # xs) = do { y \<leftarrow> f x; ys \<leftarrow> all_some f xs; Some (y # ys) }"

definition as_list :: "(toml \<Rightarrow> 'a option) \<Rightarrow> toml \<Rightarrow> 'a list option" where
  "as_list f v = (case v of TomlArray vs \<Rightarrow> all_some f vs | _ \<Rightarrow> None)"

text \<open>\<open>HashMap<String, String>\<close>\<close>

definition as_headers :: "toml \<Rightarrow> headers option" where
  "as_headers v = do { t \<leftarrow> as_table v; all_some (\<lambda>(k, x). map_option (Pair k) (as_string x)) t }"

text \<open>\<open>OneOrMany\<close>: a string is a list of one.\<close>

definition string_or_seq :: "toml \<Rightarrow> string list option" where
  "string_or_seq v = (case as_string v of Some s \<Rightarrow> Some [s] | None \<Rightarrow> as_list as_string v)"

subsection \<open>Fields\<close>

definition required :: "(toml \<Rightarrow> 'a option) \<Rightarrow> string \<Rightarrow> table \<Rightarrow> 'a option" where
  "required f k t = (case map_of t k of None \<Rightarrow> None | Some v \<Rightarrow> f v)"

definition defaulted :: "'a \<Rightarrow> (toml \<Rightarrow> 'a option) \<Rightarrow> string \<Rightarrow> table \<Rightarrow> 'a option" where
  "defaulted d f k t = (case map_of t k of None \<Rightarrow> Some d | Some v \<Rightarrow> f v)"

definition optional :: "(toml \<Rightarrow> 'a option) \<Rightarrow> string \<Rightarrow> table \<Rightarrow> 'a option option" where
  "optional f = defaulted None (\<lambda>v. map_option Some (f v))"

text \<open>\<open>deny_unknown_fields\<close>\<close>

definition known :: "string list \<Rightarrow> table \<Rightarrow> unit option" where
  "known keys t = (if list_all (\<lambda>kv. fst kv \<in> set keys) t then Some () else None)"

subsection \<open>The tables\<close>

definition de_tls :: "toml \<Rightarrow> tls_config option" where
  "de_tls v = do {
     t \<leftarrow> as_table v;
     cert \<leftarrow> required as_string ''cert'' t;
     key \<leftarrow> required as_string ''key'' t;
     known [''cert'', ''key''] t;
     Some \<lparr>tls_cert = cert, tls_key = key\<rparr> }"

text \<open>\<open>addr\<close> says which texts are socket addresses (\<open>SocketAddr\<close>'s \<open>FromStr\<close>).\<close>

definition as_addr :: "(string \<Rightarrow> bool) \<Rightarrow> toml \<Rightarrow> string option" where
  "as_addr addr v = do { s \<leftarrow> as_string v; if addr s then Some s else None }"

definition de_metrics :: "(string \<Rightarrow> bool) \<Rightarrow> toml \<Rightarrow> string option" where
  "de_metrics addr v = do { t \<leftarrow> as_table v; l \<leftarrow> required (as_addr addr) ''listen'' t; known [''listen''] t; Some l }"

definition de_rate_limit :: "toml \<Rightarrow> nat option" where
  "de_rate_limit v = do {
     t \<leftarrow> as_table v; n \<leftarrow> required as_u32 ''requests_per_second'' t; known [''requests_per_second''] t; Some n }"

definition de_health_check :: "toml \<Rightarrow> nat option" where
  "de_health_check v = do {
     t \<leftarrow> as_table v; n \<leftarrow> required as_u64 ''interval_seconds'' t; known [''interval_seconds''] t; Some n }"

definition de_compression :: "toml \<Rightarrow> nat option" where
  "de_compression v = do { t \<leftarrow> as_table v; n \<leftarrow> required as_u32 ''level'' t; known [''level''] t; Some n }"

definition default_plugin_max_body_bytes :: nat where "default_plugin_max_body_bytes = 1024 * 1024"

definition de_plugins :: "toml \<Rightarrow> plugins_config option" where
  "de_plugins v = do {
     t \<leftarrow> as_table v;
     global \<leftarrow> defaulted [] (as_list as_string) ''global'' t;
     max_body_bytes \<leftarrow> defaulted default_plugin_max_body_bytes as_u64 ''max_body_bytes'' t;
     known [''global'', ''max_body_bytes''] t;
     Some \<lparr>pl_global = global, pl_max_body = max_body_bytes\<rparr> }"

definition default_cache_max_entries :: nat where "default_cache_max_entries = 1024"
definition default_cache_max_body_bytes :: nat where "default_cache_max_body_bytes = 1024 * 1024"

definition de_cache :: "toml \<Rightarrow> cache_config option" where
  "de_cache v = do {
     t \<leftarrow> as_table v;
     max_entries \<leftarrow> defaulted default_cache_max_entries as_usize ''max_entries'' t;
     max_body_bytes \<leftarrow> defaulted default_cache_max_body_bytes as_u64 ''max_body_bytes'' t;
     disk_path \<leftarrow> optional as_string ''disk_path'' t;
     known [''max_entries'', ''max_body_bytes'', ''disk_path''] t;
     Some \<lparr>cc_max_entries = max_entries, cc_max_body = max_body_bytes, cc_disk_path = disk_path\<rparr> }"

definition de_access :: "toml \<Rightarrow> access_config option" where
  "de_access v = do {
     t \<leftarrow> as_table v;
     allow \<leftarrow> defaulted [] (as_list as_string) ''allow'' t;
     deny \<leftarrow> defaulted [] (as_list as_string) ''deny'' t;
     known [''allow'', ''deny''] t;
     Some \<lparr>acl_allow = allow, acl_deny = deny\<rparr> }"

definition de_limits :: "toml \<Rightarrow> limits_config option" where
  "de_limits v = do {
     t \<leftarrow> as_table v;
     body \<leftarrow> optional as_u64 ''max_request_body_bytes'' t;
     header \<leftarrow> optional as_u64 ''max_request_header_bytes'' t;
     ct \<leftarrow> optional as_u64 ''upstream_connect_timeout_seconds'' t;
     rt \<leftarrow> optional as_u64 ''upstream_read_timeout_seconds'' t;
     known [''max_request_body_bytes'', ''max_request_header_bytes'', ''upstream_connect_timeout_seconds'',
       ''upstream_read_timeout_seconds''] t;
     Some \<lparr>lim_max_body = body, lim_max_header = header, lim_connect_timeout = ct, lim_read_timeout = rt\<rparr> }"

definition de_http3 :: "(string \<Rightarrow> bool) \<Rightarrow> toml \<Rightarrow> string option" where
  "de_http3 addr v = do { t \<leftarrow> as_table v; l \<leftarrow> required (as_addr addr) ''listen'' t; known [''listen''] t; Some l }"

definition de_http :: "(string \<Rightarrow> bool) \<Rightarrow> toml \<Rightarrow> string option" where
  "de_http addr v = do { t \<leftarrow> as_table v; l \<leftarrow> required (as_addr addr) ''listen'' t; known [''listen''] t; Some l }"

definition default_acme_directory :: string where
  "default_acme_directory = ''https://acme-v02.api.letsencrypt.org/directory''"
definition default_acme_cache_dir :: string where "default_acme_cache_dir = ''./acme''"
definition default_renew_before_days :: nat where "default_renew_before_days = 30"
definition default_acme_check_interval :: nat where "default_acme_check_interval = 12 * 60 * 60"

definition de_acme :: "toml \<Rightarrow> acme_config option" where
  "de_acme v = do {
     t \<leftarrow> as_table v;
     domains \<leftarrow> required (as_list as_string) ''domains'' t;
     email \<leftarrow> required as_string ''email'' t;
     directory \<leftarrow> defaulted default_acme_directory as_string ''directory'' t;
     cache_dir \<leftarrow> defaulted default_acme_cache_dir as_string ''cache_dir'' t;
     renew_before_days \<leftarrow> defaulted default_renew_before_days as_u64 ''renew_before_days'' t;
     check_interval \<leftarrow> defaulted default_acme_check_interval as_u64 ''check_interval_seconds'' t;
     known [''domains'', ''email'', ''directory'', ''cache_dir'', ''renew_before_days'', ''check_interval_seconds''] t;
     Some \<lparr>acme_domains = domains, acme_email = email, acme_directory = directory, acme_cache_dir = cache_dir,
       acme_renew_before_days = renew_before_days, acme_check_interval = check_interval\<rparr> }"

definition route_keys :: "string list" where
  "route_keys = [''host'', ''path'', ''upstream'', ''root'', ''tls'', ''strip_prefix'', ''request_headers'',
     ''response_headers'', ''grpc'', ''plugins'']"

definition de_route :: "toml \<Rightarrow> route_config option" where
  "de_route v = do {
     t \<leftarrow> as_table v;
     host \<leftarrow> optional as_string ''host'' t;
     path \<leftarrow> optional as_string ''path'' t;
     upstream \<leftarrow> defaulted [] string_or_seq ''upstream'' t;
     root \<leftarrow> optional as_string ''root'' t;
     tls \<leftarrow> defaulted False as_bool ''tls'' t;
     strip_prefix \<leftarrow> defaulted False as_bool ''strip_prefix'' t;
     request_headers \<leftarrow> defaulted [] as_headers ''request_headers'' t;
     response_headers \<leftarrow> defaulted [] as_headers ''response_headers'' t;
     grpc \<leftarrow> defaulted False as_bool ''grpc'' t;
     plugins \<leftarrow> defaulted [] (as_list as_string) ''plugins'' t;
     known route_keys t;
     Some \<lparr>rcf_host = host, rcf_path = path, rcf_upstream = upstream, rcf_root = root, rcf_tls = tls,
       rcf_strip_prefix = strip_prefix, rcf_request_headers = request_headers,
       rcf_response_headers = response_headers, rcf_grpc = grpc, rcf_plugins = plugins\<rparr> }"

definition config_keys :: "string list" where
  "config_keys = [''listen'', ''worker_threads'', ''shutdown_grace_seconds'', ''tls'', ''acme'', ''metrics'', ''rate_limit'',
     ''health_check'', ''limits'', ''access'', ''compression'', ''cache'', ''plugins'', ''http3'', ''http'',
     ''response_headers'', ''route'']"

definition de_config :: "(string \<Rightarrow> bool) \<Rightarrow> toml \<Rightarrow> config option" where
  "de_config addr v = do {
     t \<leftarrow> as_table v;
     listen \<leftarrow> required (as_addr addr) ''listen'' t;
     worker_threads \<leftarrow> optional as_usize ''worker_threads'' t;
     grace \<leftarrow> optional as_u64 ''shutdown_grace_seconds'' t;
     tls \<leftarrow> optional de_tls ''tls'' t;
     acme \<leftarrow> optional de_acme ''acme'' t;
     metrics \<leftarrow> optional (de_metrics addr) ''metrics'' t;
     rate_limit \<leftarrow> optional de_rate_limit ''rate_limit'' t;
     health_check \<leftarrow> optional de_health_check ''health_check'' t;
     limits \<leftarrow> optional de_limits ''limits'' t;
     access \<leftarrow> optional de_access ''access'' t;
     compression \<leftarrow> optional de_compression ''compression'' t;
     cache \<leftarrow> optional de_cache ''cache'' t;
     plugins \<leftarrow> optional de_plugins ''plugins'' t;
     http3 \<leftarrow> optional (de_http3 addr) ''http3'' t;
     http \<leftarrow> optional (de_http addr) ''http'' t;
     response_headers \<leftarrow> defaulted [] as_headers ''response_headers'' t;
     routes \<leftarrow> defaulted [] (as_list de_route) ''route'' t;
     known config_keys t;
     Some \<lparr>cf_listen = listen, cf_worker_threads = worker_threads, cf_shutdown_grace = grace, cf_tls = tls,
       cf_acme = acme, cf_metrics = metrics, cf_rate_limit = rate_limit, cf_health_check = health_check,
       cf_limits = limits, cf_access = access, cf_compression = compression, cf_cache = cache,
       cf_plugins = plugins, cf_http3 = http3, cf_http = http, cf_response_headers = response_headers,
       cf_routes = routes\<rparr> }"

subsection \<open>Documents for configurations\<close>

text \<open>
  The shortest document of a configuration: no key whose value is the default, and one upstream as a
  string.
\<close>

definition table_of :: "(string \<times> toml option) list \<Rightarrow> toml" where
  "table_of fs = TomlTable (List.map_filter (\<lambda>(k, v). map_option (Pair k) v) fs)"

definition unless :: "'a \<Rightarrow> ('a \<Rightarrow> toml) \<Rightarrow> 'a \<Rightarrow> toml option" where
  "unless d w x = (if x = d then None else Some (w x))"

definition strings :: "string list \<Rightarrow> toml" where
  "strings ss = TomlArray (map TomlString ss)"

definition number :: "nat \<Rightarrow> toml" where
  "number n = TomlInteger (int n)"

definition header_table :: "headers \<Rightarrow> toml" where
  "header_table hs = TomlTable (map (\<lambda>(k, v). (k, TomlString v)) hs)"

definition upstreams :: "string list \<Rightarrow> toml" where
  "upstreams us = (case us of [u] \<Rightarrow> TomlString u | _ \<Rightarrow> strings us)"

definition tls_doc :: "tls_config \<Rightarrow> toml" where
  "tls_doc c = table_of [(''cert'', Some (TomlString (tls_cert c))), (''key'', Some (TomlString (tls_key c)))]"

definition listen_doc :: "string \<Rightarrow> toml" where
  "listen_doc l = table_of [(''listen'', Some (TomlString l))]"

definition plugins_doc :: "plugins_config \<Rightarrow> toml" where
  "plugins_doc c = table_of [(''global'', unless [] strings (pl_global c)),
     (''max_body_bytes'', unless (1024 * 1024) number (pl_max_body c))]"

definition cache_doc :: "cache_config \<Rightarrow> toml" where
  "cache_doc c = table_of [(''max_entries'', unless 1024 number (cc_max_entries c)),
     (''max_body_bytes'', unless (1024 * 1024) number (cc_max_body c)),
     (''disk_path'', map_option TomlString (cc_disk_path c))]"

definition access_doc :: "access_config \<Rightarrow> toml" where
  "access_doc c = table_of [(''allow'', unless [] strings (acl_allow c)), (''deny'', unless [] strings (acl_deny c))]"

definition limits_doc :: "limits_config \<Rightarrow> toml" where
  "limits_doc c = table_of [(''max_request_body_bytes'', map_option number (lim_max_body c)),
     (''max_request_header_bytes'', map_option number (lim_max_header c)),
     (''upstream_connect_timeout_seconds'', map_option number (lim_connect_timeout c)),
     (''upstream_read_timeout_seconds'', map_option number (lim_read_timeout c))]"

definition acme_doc :: "acme_config \<Rightarrow> toml" where
  "acme_doc c = table_of [(''domains'', Some (strings (acme_domains c))), (''email'', Some (TomlString (acme_email c))),
     (''directory'', unless ''https://acme-v02.api.letsencrypt.org/directory'' TomlString (acme_directory c)),
     (''cache_dir'', unless ''./acme'' TomlString (acme_cache_dir c)),
     (''renew_before_days'', unless 30 number (acme_renew_before_days c)),
     (''check_interval_seconds'', unless 43200 number (acme_check_interval c))]"

definition route_doc :: "route_config \<Rightarrow> toml" where
  "route_doc c = table_of [(''host'', map_option TomlString (rcf_host c)), (''path'', map_option TomlString (rcf_path c)),
     (''upstream'', unless [] upstreams (rcf_upstream c)), (''root'', map_option TomlString (rcf_root c)),
     (''tls'', unless False TomlBoolean (rcf_tls c)), (''strip_prefix'', unless False TomlBoolean (rcf_strip_prefix c)),
     (''request_headers'', unless [] header_table (rcf_request_headers c)),
     (''response_headers'', unless [] header_table (rcf_response_headers c)),
     (''grpc'', unless False TomlBoolean (rcf_grpc c)), (''plugins'', unless [] strings (rcf_plugins c))]"

definition number_doc :: "string \<Rightarrow> nat \<Rightarrow> toml" where
  "number_doc k n = table_of [(k, Some (number n))]"

definition config_doc :: "config \<Rightarrow> toml" where
  "config_doc c = table_of [(''listen'', Some (TomlString (cf_listen c))),
     (''worker_threads'', map_option number (cf_worker_threads c)),
     (''shutdown_grace_seconds'', map_option number (cf_shutdown_grace c)),
     (''tls'', map_option tls_doc (cf_tls c)), (''acme'', map_option acme_doc (cf_acme c)),
     (''metrics'', map_option listen_doc (cf_metrics c)),
     (''rate_limit'', map_option (number_doc ''requests_per_second'') (cf_rate_limit c)),
     (''health_check'', map_option (number_doc ''interval_seconds'') (cf_health_check c)),
     (''limits'', map_option limits_doc (cf_limits c)), (''access'', map_option access_doc (cf_access c)),
     (''compression'', map_option (number_doc ''level'') (cf_compression c)),
     (''cache'', map_option cache_doc (cf_cache c)), (''plugins'', map_option plugins_doc (cf_plugins c)),
     (''http3'', map_option listen_doc (cf_http3 c)), (''http'', map_option listen_doc (cf_http c)),
     (''response_headers'', unless [] header_table (cf_response_headers c)),
     (''route'', unless [] (\<lambda>rs. TomlArray (map route_doc rs)) (cf_routes c))]"

text \<open>The configurations that a document can say: addresses, and numbers of their width.\<close>

definition fits :: "nat \<Rightarrow> bool" where "fits n = (n < 2 ^ 63)"
definition opt_all :: "('a \<Rightarrow> bool) \<Rightarrow> 'a option \<Rightarrow> bool" where
  "opt_all P x = (case x of None \<Rightarrow> True | Some a \<Rightarrow> P a)"

definition writable :: "(string \<Rightarrow> bool) \<Rightarrow> config \<Rightarrow> bool" where
  "writable addr c =
     (addr (cf_listen c) \<and> opt_all addr (cf_metrics c) \<and> opt_all addr (cf_http3 c) \<and> opt_all addr (cf_http c) \<and>
      opt_all fits (cf_worker_threads c) \<and> opt_all fits (cf_shutdown_grace c) \<and>
      opt_all (\<lambda>n. n < 2 ^ 32) (cf_rate_limit c) \<and> opt_all fits (cf_health_check c) \<and>
      opt_all (\<lambda>n. n < 2 ^ 32) (cf_compression c) \<and>
      opt_all (\<lambda>l. opt_all fits (lim_max_body l) \<and> opt_all fits (lim_max_header l) \<and>
        opt_all fits (lim_connect_timeout l) \<and> opt_all fits (lim_read_timeout l)) (cf_limits c) \<and>
      opt_all (\<lambda>k. fits (cc_max_entries k) \<and> fits (cc_max_body k)) (cf_cache c) \<and>
      opt_all (\<lambda>p. fits (pl_max_body p)) (cf_plugins c) \<and>
      opt_all (\<lambda>a. fits (acme_renew_before_days a) \<and> fits (acme_check_interval a)) (cf_acme c))"

subsection \<open>Reading a document back\<close>

text \<open>Looking a key up in a table of distinct keys.\<close>

definition field :: "(string \<times> toml option) list \<Rightarrow> string \<Rightarrow> toml option" where
  "field fs k = (case map_of fs k of None \<Rightarrow> None | Some v \<Rightarrow> v)"

lemma map_of_table:
  "distinct (map fst fs) \<Longrightarrow> map_of (List.map_filter (\<lambda>(k, v). map_option (Pair k) v) fs) k = field fs k"
proof (induction fs)
  case (Cons f fs)
  obtain k' v where f: "f = (k', v)" by fastforce
  have none: "field fs k' = None" using Cons.prems f by (simp add: field_def map_of_eq_None_iff [THEN iffD2])
  with Cons f show ?case by (cases v) (auto simp: field_def List.map_filter_simps)
qed (simp add: field_def List.map_filter_simps)

lemma known_table:
  "set (map fst fs) \<subseteq> set keys \<Longrightarrow> known keys (List.map_filter (\<lambda>(k, v). map_option (Pair k) v) fs) = Some ()"
  by (induction fs) (auto simp: known_def List.map_filter_simps split: option.splits if_splits)

text \<open>What a field is read as, from what it was written as.\<close>

named_theorems reading \<open>how values are read back\<close>

lemma read_number [reading]: "fits n \<Longrightarrow> as_u64 (number n) = Some n" "fits n \<Longrightarrow> as_usize (number n) = Some n"
  "n < 2 ^ 32 \<Longrightarrow> as_u32 (number n) = Some n"
  by (simp_all add: fits_def number_def as_u64_def as_usize_def as_u32_def)

lemma all_some_map: "(\<And>x. x \<in> set xs \<Longrightarrow> f (w x) = Some x) \<Longrightarrow> all_some f (map w xs) = Some xs"
  by (induction xs) simp_all

lemma read_strings [reading]: "as_list as_string (strings ss) = Some ss"
  by (simp add: as_list_def strings_def all_some_map)

lemma read_headers [reading]: "as_headers (header_table hs) = Some hs"
proof -
  have "all_some (\<lambda>(k, x). map_option (Pair k) (as_string x)) (map (\<lambda>(k, v). (k, TomlString v)) hs) = Some hs"
    by (rule all_some_map) auto
  then show ?thesis by (simp add: as_headers_def header_table_def)
qed

lemma read_upstreams [reading]: "string_or_seq (upstreams us) = Some us"
proof (cases "\<exists>u. us = [u]")
  case False
  then have "upstreams us = strings us" by (auto simp: upstreams_def split: list.split)
  then show ?thesis using read_strings by (simp add: string_or_seq_def strings_def)
qed (auto simp: string_or_seq_def upstreams_def)

lemma read_listen [reading]:
  "addr l \<Longrightarrow> de_metrics addr (listen_doc l) = Some l" "addr l \<Longrightarrow> de_http3 addr (listen_doc l) = Some l"
  "addr l \<Longrightarrow> de_http addr (listen_doc l) = Some l"
  by (simp_all add: de_metrics_def de_http3_def de_http_def listen_doc_def table_of_def List.map_filter_simps required_def
      as_addr_def known_def)

text \<open>A field of a table, as the readers see it: absent, or with its value.\<close>

definition entries :: "(string \<times> toml option) list \<Rightarrow> table" where
  "entries fs = List.map_filter (\<lambda>(k, v). map_option (Pair k) v) fs"

definition read_field :: "'a \<Rightarrow> (toml \<Rightarrow> 'a option) \<Rightarrow> toml option \<Rightarrow> 'a option" where
  "read_field d f v = (case v of None \<Rightarrow> Some d | Some v \<Rightarrow> f v)"

definition read_opt :: "(toml \<Rightarrow> 'a option) \<Rightarrow> toml option \<Rightarrow> 'a option option" where
  "read_opt f v = (case v of None \<Rightarrow> Some None | Some v \<Rightarrow> map_option Some (f v))"

lemma as_table_of [reading]: "as_table (table_of fs) = Some (entries fs)"
  by (simp add: table_of_def entries_def)

lemma read_entries [reading]:
  assumes "distinct (map fst fs)"
  shows "required f k (entries fs) = (case field fs k of None \<Rightarrow> None | Some v \<Rightarrow> f v)"
    and "defaulted d f k (entries fs) = read_field d f (field fs k)"
    and "optional f k (entries fs) = read_opt f (field fs k)"
  using map_of_table [OF assms, of k]
  by (simp_all add: required_def defaulted_def optional_def read_field_def read_opt_def entries_def)

lemma known_entries [reading]: "set (map fst fs) \<subseteq> set keys \<Longrightarrow> known keys (entries fs) = Some ()"
  by (simp add: entries_def known_table)

lemma field_Cons [reading]: "field [] k = None" "field ((k', v) # fs) k = (if k = k' then v else field fs k)"
  by (simp_all add: field_def)

lemma read_unless [reading]: "f (w x) = Some x \<Longrightarrow> read_field d f (unless d w x) = Some x"
  by (simp add: read_field_def unless_def)

lemma read_map_option [reading]: "opt_all (\<lambda>a. f (w a) = Some a) x \<Longrightarrow> read_opt f (map_option w x) = Some x"
  by (cases x) (simp_all add: read_opt_def opt_all_def)

lemma opt_all_mono: "opt_all P x \<Longrightarrow> (\<And>a. P a \<Longrightarrow> Q a) \<Longrightarrow> opt_all Q x"
  by (cases x) (simp_all add: opt_all_def)

lemma opt_all_True [reading]: "opt_all (\<lambda>a. True) x"
  by (simp add: opt_all_def split: option.split)

lemma read_opt_number [reading]:
  "opt_all fits x \<Longrightarrow> read_opt as_u64 (map_option number x) = Some x"
  "opt_all fits x \<Longrightarrow> read_opt as_usize (map_option number x) = Some x"
  by (intro read_map_option, erule opt_all_mono, simp add: reading)+

lemma read_opt_listen [reading]:
  "opt_all addr x \<Longrightarrow> read_opt (de_metrics addr) (map_option listen_doc x) = Some x"
  "opt_all addr x \<Longrightarrow> read_opt (de_http3 addr) (map_option listen_doc x) = Some x"
  "opt_all addr x \<Longrightarrow> read_opt (de_http addr) (map_option listen_doc x) = Some x"
  by (intro read_map_option, erule opt_all_mono, simp add: reading)+

lemma read_tls [reading]: "de_tls (tls_doc c) = Some c"
  by (simp add: de_tls_def tls_doc_def reading)

lemma read_access [reading]: "de_access (access_doc c) = Some c"
  by (simp add: de_access_def access_doc_def reading)

lemma read_plugins [reading]: "fits (pl_max_body c) \<Longrightarrow> de_plugins (plugins_doc c) = Some c"
  by (simp add: de_plugins_def plugins_doc_def reading default_plugin_max_body_bytes_def)

lemma read_cache [reading]: "fits (cc_max_entries c) \<Longrightarrow> fits (cc_max_body c) \<Longrightarrow> de_cache (cache_doc c) = Some c"
  by (simp add: de_cache_def cache_doc_def reading default_cache_max_entries_def default_cache_max_body_bytes_def)

lemma read_limits [reading]:
  "opt_all fits (lim_max_body c) \<Longrightarrow> opt_all fits (lim_max_header c) \<Longrightarrow> opt_all fits (lim_connect_timeout c) \<Longrightarrow>
     opt_all fits (lim_read_timeout c) \<Longrightarrow> de_limits (limits_doc c) = Some c"
  by (simp add: de_limits_def limits_doc_def reading)

lemma read_acme [reading]:
  "fits (acme_renew_before_days c) \<Longrightarrow> fits (acme_check_interval c) \<Longrightarrow> de_acme (acme_doc c) = Some c"
  by (simp add: de_acme_def acme_doc_def reading default_acme_directory_def default_acme_cache_dir_def
      default_renew_before_days_def default_acme_check_interval_def)

lemma read_number_docs [reading]:
  "n < 2 ^ 32 \<Longrightarrow> de_rate_limit (number_doc ''requests_per_second'' n) = Some n"
  "fits n \<Longrightarrow> de_health_check (number_doc ''interval_seconds'' n) = Some n"
  "n < 2 ^ 32 \<Longrightarrow> de_compression (number_doc ''level'' n) = Some n"
  by (simp_all add: de_rate_limit_def de_health_check_def de_compression_def number_doc_def reading)

lemma read_route [reading]: "de_route (route_doc c) = Some c"
  by (simp add: de_route_def route_doc_def reading route_keys_def)

lemma read_routes [reading]: "as_list de_route (TomlArray (map route_doc rs)) = Some rs"
  by (simp add: as_list_def all_some_map reading)

lemma config_doc_reads:
  assumes "writable addr c"
  shows "de_config addr (config_doc c) = Some c"
proof -
  have parts: "opt_all (\<lambda>a. de_limits (limits_doc a) = Some a) (cf_limits c)"
    "opt_all (\<lambda>a. de_cache (cache_doc a) = Some a) (cf_cache c)"
    "opt_all (\<lambda>a. de_plugins (plugins_doc a) = Some a) (cf_plugins c)"
    "opt_all (\<lambda>a. de_acme (acme_doc a) = Some a) (cf_acme c)"
    "opt_all (\<lambda>n. de_rate_limit (number_doc ''requests_per_second'' n) = Some n) (cf_rate_limit c)"
    "opt_all (\<lambda>n. de_health_check (number_doc ''interval_seconds'' n) = Some n) (cf_health_check c)"
    "opt_all (\<lambda>n. de_compression (number_doc ''level'' n) = Some n) (cf_compression c)"
    using assms unfolding writable_def by (auto elim!: opt_all_mono intro: reading)
  from assms have "addr (cf_listen c)" "opt_all addr (cf_metrics c)" "opt_all addr (cf_http3 c)" "opt_all addr (cf_http c)"
    "opt_all fits (cf_worker_threads c)" "opt_all fits (cf_shutdown_grace c)" by (simp_all add: writable_def)
  with parts show ?thesis
    by (simp add: de_config_def config_doc_def reading config_keys_def as_addr_def)
qed

text \<open>
  C29. Every configuration can be written, and is read back: the shortest document, in which a key with its
  default value is left out and a single upstream is a string, deserializes to the configuration it
  was made from, whatever the values are, if the addresses are addresses and the numbers fit.
\<close>

theorem config_file_reads_back:
  assumes "writable addr c"
  shows "de_config addr (config_doc c) = Some c"
  using assms by (rule config_doc_reads)

definition any_addr :: "string \<Rightarrow> bool" where "any_addr s = (CHR '':'' \<in> set s)"

definition full_config :: config where
  "full_config = http_only\<lparr>cf_cache := Some \<lparr>cc_max_entries = 5, cc_max_body = 1024 * 1024, cc_disk_path = Some ''/c''\<rparr>,
     cf_rate_limit := Some 10, cf_response_headers := [(''server'', ''z'')], cf_http3 := Some ''0.0.0.0:443''\<rparr>"

theorem config_file_reads_back_witness:
  "config_doc full_config = TomlTable [(''listen'', TomlString ''0.0.0.0:8080''),
       (''rate_limit'', TomlTable [(''requests_per_second'', TomlInteger 10)]),
       (''cache'', TomlTable [(''max_entries'', TomlInteger 5), (''disk_path'', TomlString ''/c'')]),
       (''http3'', TomlTable [(''listen'', TomlString ''0.0.0.0:443'')]),
       (''response_headers'', TomlTable [(''server'', TomlString ''z'')]),
       (''route'', TomlArray [TomlTable [(''upstream'', TomlString ''10.0.0.1:80'')]])]
   \<and> de_config any_addr (config_doc full_config) = Some full_config"
proof
  show "config_doc full_config = TomlTable [(''listen'', TomlString ''0.0.0.0:8080''),
       (''rate_limit'', TomlTable [(''requests_per_second'', TomlInteger 10)]),
       (''cache'', TomlTable [(''max_entries'', TomlInteger 5), (''disk_path'', TomlString ''/c'')]),
       (''http3'', TomlTable [(''listen'', TomlString ''0.0.0.0:443'')]),
       (''response_headers'', TomlTable [(''server'', TomlString ''z'')]),
       (''route'', TomlArray [TomlTable [(''upstream'', TomlString ''10.0.0.1:80'')]])]"
    by (simp add: config_doc_def full_config_def http_only_def table_of_def List.map_filter_simps number_doc_def number_def
        cache_doc_def listen_doc_def header_table_def route_doc_def upstreams_def unless_def)
  have "writable any_addr full_config"
    by (simp add: writable_def full_config_def http_only_def any_addr_def opt_all_def fits_def)
  then show "de_config any_addr (config_doc full_config) = Some full_config" by (rule config_file_reads_back)
qed

text \<open>
  Typing mistakes do not pass: a document that is read has no key but the known ones, at its top and in
  each of its routes, and names an address to listen on.
\<close>

lemma known_iff: "known keys t = Some u \<longleftrightarrow> list_all (\<lambda>kv. fst kv \<in> set keys) t"
  by (simp add: known_def)

lemma all_some_length: "all_some f xs = Some ys \<Longrightarrow> list_all (\<lambda>x. f x \<noteq> None) xs"
  by (induction xs arbitrary: ys) (auto split: bind_splits)

lemma config_file_strict:
  assumes "de_config addr (TomlTable t) = Some c"
  shows "list_all (\<lambda>kv. fst kv \<in> set config_keys) t \<and> addr (cf_listen c) \<and>
     map_of t ''listen'' = Some (TomlString (cf_listen c))"
  using assms
  by (auto simp: de_config_def known_iff required_def as_addr_def split: bind_splits option.splits if_splits
      elim!: as_string.elims)

lemma route_file_strict: "de_route (TomlTable t) = Some r \<Longrightarrow> list_all (\<lambda>kv. fst kv \<in> set route_keys) t"
  by (auto simp: de_route_def known_iff split: bind_splits)

subsection \<open>From the file to a checked configuration\<close>

text \<open>
  \<open>toml::from_str\<close> with a parser of documents: what \<open>Config::from_toml\<close> takes its result from.
\<close>

definition config_from_str :: "(string \<Rightarrow> toml option) \<Rightarrow> (string \<Rightarrow> bool) \<Rightarrow> string \<Rightarrow> unit + config" where
  "config_from_str parse addr s =
     (case Option.bind (parse s) (de_config addr) of None \<Rightarrow> Inl () | Some c \<Rightarrow> Inr c)"

lemma valid_config_loads:
  assumes "parse s = Some (config_doc c)" and "writable addr c" and "validate c = (Inr () :: unit config_error + unit)"
  shows "from_toml (config_from_str parse addr) s = Inr c"
proof -
  have "de_config addr (config_doc c) = Some c" using config_doc_reads assms(2) by blast
  with assms(1,3) show ?thesis by (simp add: from_toml_def config_from_str_def)
qed

text \<open>A cache is on with the documented sizes as soon as its table is there.\<close>

lemma empty_cache_table: "de_cache (TomlTable []) = Some \<lparr>cc_max_entries = 1024, cc_max_body = 1048576, cc_disk_path = None\<rparr>"
  by (simp add: de_cache_def defaulted_def optional_def known_def default_cache_max_entries_def default_cache_max_body_bytes_def)

end
