(* ===== verification/Cli.thy ===== *)
theory Cli
  imports Config Access StaticFiles Utf8
begin

section \<open>Managing sites from the command line: \<^verbatim>\<open>crates/zaphyl/src/cli.rs\<close>\<close>

text \<open>
  The commands that add, list, remove, enable and disable sites.  They act on a file system, which
  is passed as a state; the outcome of each operation on it is an input.  What they print is not
  modelled, except for the lines of \<open>site list\<close>, which are its result.  The environment variables and
  clap's argument parsing have already produced the arguments.
\<close>

datatype exit_code = SUCCESS | FAILURE

record site_fs =
  sf_files :: "string \<rightharpoonup> bytes"
  sf_dirs :: "string set"

definition file_exists :: "site_fs \<Rightarrow> string \<Rightarrow> bool" where
  "file_exists F p = (p \<in> sf_dirs F \<or> sf_files F p \<noteq> None)"

definition is_dir :: "site_fs \<Rightarrow> string \<Rightarrow> bool" where
  "is_dir F p = (p \<in> sf_dirs F)"

text \<open>\<open>std::fs::write\<close> and \<open>std::fs::read_to_string\<close>\<close>

definition fs_write :: "write_outcome \<Rightarrow> string \<Rightarrow> bytes \<Rightarrow> site_fs \<Rightarrow> site_fs \<times> bool" where
  "fs_write out p bs F =
     (case out of
        WriteOk \<Rightarrow> (F\<lparr>sf_files := (sf_files F)(p \<mapsto> bs)\<rparr>, True)
      | CreateFails \<Rightarrow> (F, False)
      | WriteFailsAfter n \<Rightarrow> (F\<lparr>sf_files := (sf_files F)(p \<mapsto> take n bs)\<rparr>, False))"

definition read_to_string :: "site_fs \<Rightarrow> string \<Rightarrow> string option" where
  "read_to_string F p =
     (case sf_files F p of None \<Rightarrow> None | Some bs \<Rightarrow> if valid_utf8 bs then Some bs else None)"

subsection \<open>Detection and serialization\<close>

definition detect_kind :: "site_fs \<Rightarrow> string \<Rightarrow> site_kind" where
  "detect_kind F root =
     (if file_exists F (path_push root ''composer.json'') \<and> is_dir F (path_push root ''public'') then Php
      else if file_exists F (path_push root ''index.php'') then Php
      else Static)"

definition is_local :: "string \<Rightarrow> bool" where
  "is_local domain =
     (domain = ''localhost'' \<or> ends_with ''.local'' domain \<or> ends_with ''.test'' domain \<or>
      parse_ip domain \<noteq> None)"

definition replace_char :: "char \<Rightarrow> string \<Rightarrow> string \<Rightarrow> string" where
  "replace_char c by_str s = concat (map (\<lambda>x. if x = c then by_str else [x]) s)"

definition backslash :: char where "backslash = CHR 0x5C"
definition dquote :: char where "dquote = CHR 0x22"
definition newline :: char where "newline = CHR 0x0A"

definition toml_escape :: "string \<Rightarrow> string" where
  "toml_escape s = replace_char dquote [backslash, dquote] (replace_char backslash [backslash, backslash] s)"

definition kind_str :: "site_kind \<Rightarrow> string" where
  "kind_str kind = (case kind of Static \<Rightarrow> ''static'' | Php \<Rightarrow> ''php'' | App \<Rightarrow> ''app'')"

text \<open>\<open>format!("key = \"value\"\n")\<close>\<close>

definition str_line :: "string \<Rightarrow> string \<Rightarrow> string" where
  "str_line key v = key @ '' = '' @ [dquote] @ v @ [dquote, newline]"

definition write_site_toml :: "string \<Rightarrow> bytes \<Rightarrow> site_kind \<Rightarrow> bool \<Rightarrow> string option \<Rightarrow> string option \<Rightarrow> string" where
  "write_site_toml domain root kind tls_off app php_fpm =
     (let tls_str = (if tls_off then ''off'' else ''auto'');
          root_str = toml_escape (from_utf8_lossy root);
          domain_str = toml_escape domain;
          out = str_line ''domain'' domain_str;
          out = out @ str_line ''root'' root_str;
          out = out @ str_line ''type'' (kind_str kind);
          out = out @ str_line ''tls'' tls_str;
          out = (case app of None \<Rightarrow> out | Some upstream \<Rightarrow> out @ str_line ''app'' (toml_escape upstream))
      in case php_fpm of None \<Rightarrow> out | Some fpm \<Rightarrow> out @ str_line ''php_fpm'' (toml_escape fpm))"

subsection \<open>Commands\<close>

record site_add_opts =
  ao_root :: "bytes option"
  ao_app :: "string option"
  ao_force_php :: bool
  ao_force_static :: bool
  ao_no_tls :: bool
  ao_force :: bool

record cli_io =
  ci_mkdir_sites :: bool
  ci_mkdir_root :: bool
  ci_write :: write_outcome
  ci_remove :: bool

definition site_file :: "string \<Rightarrow> string \<Rightarrow> string" where
  "site_file sites_dir domain = path_push sites_dir (domain @ ''.toml'')"

definition add_kind :: "site_fs \<Rightarrow> site_add_opts \<Rightarrow> string \<Rightarrow> site_kind" where
  "add_kind F opts root =
     (if ao_app opts \<noteq> None then App
      else if ao_force_php opts then Php
      else if ao_force_static opts then Static
      else detect_kind F root)"

definition served_root :: "site_fs \<Rightarrow> site_kind \<Rightarrow> string \<Rightarrow> string" where
  "served_root F kind root =
     (if kind = Php \<and> is_dir F (path_push root ''public'') then path_push root ''public'' else root)"

definition run_site_add_inner :: "cli_io \<Rightarrow> string \<Rightarrow> site_add_opts \<Rightarrow> string \<Rightarrow> string \<Rightarrow> site_fs
    \<Rightarrow> site_fs \<times> exit_code" where
  "run_site_add_inner io domain opts sites_dir webroot_base F =
     (let root = (case ao_root opts of Some r \<Rightarrow> r | None \<Rightarrow> path_push webroot_base domain);
          kind = add_kind F opts root;
          served = served_root F kind root;
          tls_off = (ao_no_tls opts \<or> is_local domain)
      in if \<not> ci_mkdir_sites io then (F, FAILURE)
         else let F = F\<lparr>sf_dirs := insert sites_dir (sf_dirs F)\<rparr>;
                  file = site_file sites_dir domain
              in if file_exists F file \<and> \<not> ao_force opts then (F, FAILURE)
                 else if \<not> ci_mkdir_root io then (F, FAILURE)
                 else let F = F\<lparr>sf_dirs := insert root (sf_dirs F)\<rparr>;
                          toml = write_site_toml domain served kind tls_off (ao_app opts) None;
                          (F, ok) = fs_write (ci_write io) file toml F
                      in (F, if ok then SUCCESS else FAILURE))"

definition run_site_remove :: "cli_io \<Rightarrow> string \<Rightarrow> string \<Rightarrow> site_fs \<Rightarrow> site_fs \<times> exit_code" where
  "run_site_remove io dir domain F =
     (let path = site_file dir domain
      in if \<not> file_exists F path then (F, FAILURE)
         else if \<not> ci_remove io then (F, FAILURE)
         else (F\<lparr>sf_files := (sf_files F)(path := None)\<rparr>, SUCCESS))"

definition enabled_line :: "bool \<Rightarrow> string" where
  "enabled_line enabled = ''enabled = '' @ (if enabled then ''true'' else ''false'') @ [newline]"

definition run_site_set_enabled :: "(string \<Rightarrow> 'e + site_config) \<Rightarrow> cli_io \<Rightarrow> string \<Rightarrow> string \<Rightarrow> bool
    \<Rightarrow> site_fs \<Rightarrow> site_fs \<times> exit_code" where
  "run_site_set_enabled parse io dir domain enabled F =
     (let path = site_file dir domain
      in case read_to_string F path of
           None \<Rightarrow> (F, FAILURE)
         | Some body \<Rightarrow>
             (case parse body of
                Inl _ \<Rightarrow> (F, FAILURE)
              | Inr site \<Rightarrow>
                  (let tls_off = (st_tls site = Off);
                       new_toml = write_site_toml (st_domain site) (st_root site) (st_kind site) tls_off
                                    (st_app site) (st_php_fpm site) @ enabled_line enabled;
                       (F, ok) = fs_write (ci_write io) path new_toml F
                   in (F, if ok then SUCCESS else FAILURE))))"

definition list_line :: "site_config \<Rightarrow> string" where
  "list_line site =
     st_domain site @ '' ['' @ kind_str (st_kind site) @ ''] (''
       @ (if st_enabled site then ''enabled'' else ''DISABLED'') @ '')''"

text \<open>The names in the directory, or nothing when it cannot be listed; unreadable sites are skipped.\<close>

definition run_site_list :: "(string \<Rightarrow> 'e + site_config) \<Rightarrow> string list option \<Rightarrow> string \<Rightarrow> site_fs
    \<Rightarrow> string list \<times> exit_code" where
  "run_site_list parse listing dir F =
     (case listing of
        None \<Rightarrow> ([], FAILURE)
      | Some _ \<Rightarrow>
          (List.map_filter (\<lambda>name.
             case read_to_string F (path_push dir name) of
               None \<Rightarrow> None
             | Some body \<Rightarrow> (case parse body of Inl _ \<Rightarrow> None | Inr site \<Rightarrow> Some (list_line site)))
             (site_files listing), SUCCESS))"

subsection \<open>The documents the commands write, as TOML reads them\<close>

text \<open>
  The part of TOML 1.0 that a site file uses: lines \<open>key = value\<close> with bare keys, basic strings (a
  quotation mark or a backslash only behind a backslash, no control characters) and booleans.
\<close>

datatype tvalue = TStr string | TBool bool

definition control :: "char \<Rightarrow> bool" where
  "control c = ((byte_val c < 32 \<and> byte_val c \<noteq> 9) \<or> byte_val c = 127)"

fun unquote :: "string \<Rightarrow> (string \<times> string) option" where
  "unquote [] = None"
| "unquote [c] = (if c = dquote then Some ([], []) else None)"
| "unquote (c # d # s) =
     (if c = dquote then Some ([], d # s)
      else if c = backslash
      then (if d = backslash \<or> d = dquote then map_option (\<lambda>(v, r). (d # v, r)) (unquote s) else None)
      else if control c then None
      else map_option (\<lambda>(v, r). (c # v, r)) (unquote (d # s)))"

definition bare :: "char \<Rightarrow> bool" where
  "bare c = ((97 \<le> byte_val c \<and> byte_val c \<le> 122) \<or> c = CHR ''_'')"

definition read_value :: "string \<Rightarrow> (tvalue \<times> string) option" where
  "read_value s =
     (case s of
        [] \<Rightarrow> None
      | c # cs \<Rightarrow>
          if c = dquote then map_option (\<lambda>(v, r). (TStr v, r)) (unquote cs)
          else case strip_prefix ''true'' s of
                 Some r \<Rightarrow> Some (TBool True, r)
               | None \<Rightarrow> map_option (\<lambda>r. (TBool False, r)) (strip_prefix ''false'' s))"

definition read_line :: "string \<Rightarrow> ((string \<times> tvalue) \<times> string) option" where
  "read_line s =
     (let key = takeWhile bare s
      in if key = [] then None
         else case strip_prefix '' = '' (dropWhile bare s) of
                None \<Rightarrow> None
              | Some s' \<Rightarrow>
                  (case read_value s' of
                     Some (v, r # rest) \<Rightarrow> if r = newline then Some ((key, v), rest) else None
                   | _ \<Rightarrow> None))"

fun read_doc :: "nat \<Rightarrow> string \<Rightarrow> (string \<times> tvalue) list option" where
  "read_doc n [] = Some []"
| "read_doc 0 (c # s) = None"
| "read_doc (Suc n) (c # s) =
     (case read_line (c # s) of
        None \<Rightarrow> None
      | Some (kv, rest) \<Rightarrow> map_option ((#) kv) (read_doc n rest))"

definition read_toml :: "string \<Rightarrow> (string \<times> tvalue) list option" where
  "read_toml s = read_doc (length s) s"

text \<open>The deserializer: required and optional fields with their defaults, no unknown fields.\<close>

fun opt_str :: "tvalue option \<Rightarrow> string option option" where
  "opt_str None = Some None"
| "opt_str (Some (TStr s)) = Some (Some s)"
| "opt_str (Some (TBool b)) = None"

definition kind_of :: "tvalue option \<Rightarrow> site_kind option" where
  "kind_of v = (if v = Some (TStr ''static'') then Some Static
     else if v = Some (TStr ''php'') then Some Php
     else if v = Some (TStr ''app'') then Some App else None)"

definition tls_of :: "tvalue option \<Rightarrow> site_tls option" where
  "tls_of v = (if v = None \<or> v = Some (TStr ''auto'') then Some Auto
     else if v = Some (TStr ''off'') then Some Off else None)"

definition enabled_of :: "tvalue option \<Rightarrow> bool option" where
  "enabled_of v = (case v of None \<Rightarrow> Some True | Some (TBool b) \<Rightarrow> Some b | _ \<Rightarrow> None)"

definition site_keys :: "string list" where
  "site_keys = [''domain'', ''root'', ''type'', ''tls'', ''app'', ''php_fpm'', ''enabled'']"

definition site_of_fields :: "(string \<times> tvalue) list \<Rightarrow> site_config option" where
  "site_of_fields fs =
     (if distinct (map fst fs) \<and> set (map fst fs) \<subseteq> set site_keys
      then (case (map_of fs ''domain'', map_of fs ''root'', kind_of (map_of fs ''type''),
                  tls_of (map_of fs ''tls''), opt_str (map_of fs ''app''), opt_str (map_of fs ''php_fpm''),
                  enabled_of (map_of fs ''enabled'')) of
              (Some (TStr d), Some (TStr r), Some k, Some t, Some a, Some p, Some e) \<Rightarrow>
                Some \<lparr>st_domain = d, st_root = r, st_kind = k, st_tls = t, st_app = a, st_php_fpm = p,
                      st_enabled = e\<rparr>
            | _ \<Rightarrow> None)
      else None)"

definition read_site_toml :: "string \<Rightarrow> site_config option" where
  "read_site_toml s = (case read_toml s of None \<Rightarrow> None | Some fs \<Rightarrow> site_of_fields fs)"

subsection \<open>Escaping\<close>

definition clean :: "string \<Rightarrow> bool" where
  "clean s = list_all (\<lambda>c. \<not> control c) s"

lemma toml_escape_Nil [simp]: "toml_escape [] = []"
  by (simp add: toml_escape_def replace_char_def)

lemma toml_escape_Cons [simp]:
  "toml_escape (c # s) =
     (if c = backslash \<or> c = dquote then [backslash, c] else [c]) @ toml_escape s"
  by (simp add: toml_escape_def replace_char_def backslash_def dquote_def)

lemma special_chars [simp]: "dquote \<noteq> backslash" "backslash \<noteq> dquote" "newline \<noteq> dquote"
  by (simp_all add: dquote_def backslash_def newline_def)

lemma unquote_plain:
  "c \<noteq> dquote \<Longrightarrow> c \<noteq> backslash \<Longrightarrow> \<not> control c \<Longrightarrow> s \<noteq> [] \<Longrightarrow>
    unquote (c # s) = map_option (\<lambda>(v, r). (c # v, r)) (unquote s)"
  by (cases s) simp_all

lemma unquote_escape: "clean s \<Longrightarrow> unquote (toml_escape s @ dquote # rest) = Some (s, rest)"
proof (induction s)
  case Nil
  then show ?case by (cases rest) simp_all
next
  case (Cons c s)
  then have IH: "unquote (toml_escape s @ dquote # rest) = Some (s, rest)" and "\<not> control c"
    by (simp_all add: clean_def)
  show ?case
  proof (cases "c = backslash \<or> c = dquote")
    case True
    with IH show ?thesis by auto
  next
    case False
    with IH \<open>\<not> control c\<close> show ?thesis by (simp add: unquote_plain)
  qed
qed

text \<open>
  Escaping is undone by the TOML reader for text without control characters; a line feed in a
  value, which the function leaves as it is, makes the document ill-formed.
\<close>

theorem toml_escape_newline_ill_formed:
  "read_toml (str_line ''domain'' (toml_escape (''a'' @ [newline]))) = None
   \<and> read_toml (str_line ''domain'' (toml_escape ''a'')) = Some [(''domain'', TStr ''a'')]"
  by code_simp

subsection \<open>Reading back a site file\<close>

definition field_line :: "string \<times> tvalue \<Rightarrow> string" where
  "field_line kv =
     (case snd kv of
        TStr v \<Rightarrow> str_line (fst kv) (toml_escape v)
      | TBool b \<Rightarrow> fst kv @ '' = '' @ (if b then ''true'' else ''false'') @ [newline])"

definition field_ok :: "string \<times> tvalue \<Rightarrow> bool" where
  "field_ok kv = (fst kv \<noteq> [] \<and> list_all bare (fst kv) \<and>
     (case snd kv of TStr v \<Rightarrow> clean v | TBool _ \<Rightarrow> True))"

lemma bare_facts [simp]: "\<not> bare CHR '' ''"
  by (simp add: bare_def)

lemma takeWhile_bare:
  "list_all bare k \<Longrightarrow> takeWhile bare (k @ CHR '' '' # s) = k"
  "list_all bare k \<Longrightarrow> dropWhile bare (k @ CHR '' '' # s) = CHR '' '' # s"
  by (induction k) auto

lemma read_value_line:
  assumes "case v of TStr t \<Rightarrow> clean t | TBool _ \<Rightarrow> True"
  shows "read_value ((case v of TStr t \<Rightarrow> [dquote] @ toml_escape t @ [dquote]
            | TBool b \<Rightarrow> if b then ''true'' else ''false'') @ newline # rest) = Some (v, newline # rest)"
proof (cases v)
  case (TStr t)
  with assms unquote_escape [of t "newline # rest"] show ?thesis by (simp add: read_value_def)
next
  case (TBool b)
  have t: "strip_prefix ''true'' (''true'' @ x) = Some x" "strip_prefix ''false'' (''false'' @ x) = Some x" for x
    by (rule strip_prefix_append)+
  show ?thesis using TBool t by (cases b) (simp_all add: read_value_def dquote_def)
qed

lemma field_line_eq:
  "field_line kv = fst kv @ '' = '' @ (case snd kv of TStr t \<Rightarrow> [dquote] @ toml_escape t @ [dquote]
      | TBool b \<Rightarrow> if b then ''true'' else ''false'') @ [newline]"
  by (simp add: field_line_def str_line_def split: tvalue.split)

lemma read_line_field:
  assumes "field_ok kv" shows "read_line (field_line kv @ rest) = Some (kv, rest)"
proof -
  obtain k v where kv: "kv = (k, v)" by fastforce
  let ?val = "case v of TStr t \<Rightarrow> [dquote] @ toml_escape t @ [dquote]
      | TBool b \<Rightarrow> if b then ''true'' else ''false''"
  have k: "k \<noteq> []" "list_all bare k" and v: "case v of TStr t \<Rightarrow> clean t | TBool _ \<Rightarrow> True"
    using assms kv by (simp_all add: field_ok_def)
  have line: "field_line kv @ rest = k @ CHR '' '' # (CHR ''='' # CHR '' '' # (?val @ newline # rest))"
    unfolding field_line_eq kv by simp
  have "strip_prefix '' = '' (CHR '' '' # CHR ''='' # CHR '' '' # (?val @ newline # rest))
      = Some (?val @ newline # rest)"
    by simp
  then show ?thesis
    unfolding read_line_def line takeWhile_bare [OF k(2)] Let_def read_value_line [OF v]
    using k(1) kv by (simp add: read_value_line [OF v])
qed

lemma field_line_not_Nil: "field_ok kv \<Longrightarrow> field_line kv \<noteq> []"
  by (simp add: field_line_eq field_ok_def)

lemma read_doc_fields:
  "list_all field_ok fs \<Longrightarrow> length fs \<le> n \<Longrightarrow> read_doc n (concat (map field_line fs)) = Some fs"
proof (induction fs arbitrary: n)
  case (Cons kv fs)
  then obtain m where n: "n = Suc m" by (cases n) auto
  have ok: "field_ok kv" using Cons.prems by simp
  obtain c s where line: "concat (map field_line (kv # fs)) = c # s"
    using field_line_not_Nil [OF ok] by (cases "field_line kv") auto
  have "read_line (c # s) = Some (kv, concat (map field_line fs))"
    using read_line_field [OF ok, of "concat (map field_line fs)"] line by simp
  with Cons n line show ?case by simp
qed simp

lemma length_concat_fields: "list_all field_ok fs \<Longrightarrow> length fs \<le> length (concat (map field_line fs))"
proof (induction fs)
  case (Cons kv fs)
  have "length (field_line kv) \<noteq> 0" using Cons.prems field_line_not_Nil by simp
  then have "1 \<le> length (field_line kv)" by linarith
  moreover have "length (concat (map field_line (kv # fs)))
      = length (field_line kv) + length (concat (map field_line fs))" by simp
  moreover have "length fs \<le> length (concat (map field_line fs))" using Cons by simp
  ultimately show ?case unfolding list.size(4) by linarith
qed simp

lemma read_toml_fields: "list_all field_ok fs \<Longrightarrow> read_toml (concat (map field_line fs)) = Some fs"
  unfolding read_toml_def by (intro read_doc_fields length_concat_fields)

definition opt_field :: "string \<Rightarrow> string option \<Rightarrow> (string \<times> tvalue) list" where
  "opt_field key v = (case v of None \<Rightarrow> [] | Some s \<Rightarrow> [(key, TStr s)])"

definition site_fields :: "site_config \<Rightarrow> (string \<times> tvalue) list" where
  "site_fields s =
     [(''domain'', TStr (st_domain s)), (''root'', TStr (st_root s)),
      (''type'', TStr (kind_str (st_kind s))),
      (''tls'', TStr (if st_tls s = Off then ''off'' else ''auto''))]
     @ opt_field ''app'' (st_app s) @ opt_field ''php_fpm'' (st_php_fpm s)"

text \<open>Texts a TOML basic string can hold unescaped but for quotes and backslashes.\<close>

definition site_clean :: "site_config \<Rightarrow> bool" where
  "site_clean s = (clean (st_domain s) \<and> clean (st_root s) \<and> valid_utf8 (st_root s) \<and>
     list_all clean (case st_app s of None \<Rightarrow> [] | Some a \<Rightarrow> [a]) \<and>
     list_all clean (case st_php_fpm s of None \<Rightarrow> [] | Some p \<Rightarrow> [p]))"

lemma escape_words:
  "toml_escape ''static'' = ''static''" "toml_escape ''php'' = ''php''" "toml_escape ''app'' = ''app''"
  "toml_escape ''auto'' = ''auto''" "toml_escape ''off'' = ''off''"
  by code_simp+

lemma clean_words:
  "clean ''static''" "clean ''php''" "clean ''app''" "clean ''auto''" "clean ''off''"
  by code_simp+

lemma bare_words:
  "list_all bare ''domain''" "list_all bare ''root''" "list_all bare ''type''" "list_all bare ''tls''"
  "list_all bare ''app''" "list_all bare ''php_fpm''" "list_all bare ''enabled''"
  by code_simp+

lemma escape_kind: "toml_escape (kind_str k) = kind_str k"
  unfolding kind_str_def by (cases k) (simp_all only: site_kind.case escape_words)

lemma escape_tls: "toml_escape (if b then ''off'' else ''auto'') = (if b then ''off'' else ''auto'')"
  by (cases b) (simp_all only: if_True if_False escape_words)

lemma write_site_toml_eq:
  assumes "valid_utf8 (st_root s)"
  shows "write_site_toml (st_domain s) (st_root s) (st_kind s) (st_tls s = Off) (st_app s) (st_php_fpm s)
     = concat (map field_line (site_fields s))"
  unfolding write_site_toml_def Let_def site_fields_def from_utf8_lossy_valid [OF assms]
  by (cases "st_app s"; cases "st_php_fpm s")
    (simp_all add: field_line_def opt_field_def escape_kind escape_tls del: toml_escape_Cons if_split)

lemma field_ok_str: "k \<noteq> [] \<Longrightarrow> list_all bare k \<Longrightarrow> clean v \<Longrightarrow> field_ok (k, TStr v)"
  by (simp add: field_ok_def)

lemma opt_field_ok:
  "k \<noteq> [] \<Longrightarrow> list_all bare k \<Longrightarrow> list_all clean (case v of None \<Rightarrow> [] | Some a \<Rightarrow> [a]) \<Longrightarrow>
    list_all field_ok (opt_field k v)"
  by (cases v) (simp_all add: opt_field_def field_ok_def)

lemma clean_kind: "clean (kind_str k)"
  unfolding kind_str_def by (cases k) (simp_all only: site_kind.case clean_words)

lemma clean_tls: "clean (if b then ''off'' else ''auto'')"
  by (cases b) (simp_all only: if_True if_False clean_words)

lemma site_fields_ok: "site_clean s \<Longrightarrow> list_all field_ok (site_fields s)"
  unfolding site_fields_def list_all_append list.pred_inject
  by (intro conjI field_ok_str opt_field_ok bare_words clean_kind clean_tls)
    (simp_all add: site_clean_def)

lemma site_of_site_fields:
  "site_of_fields (site_fields s) = Some (s\<lparr>st_enabled := True\<rparr>)"
  "site_of_fields (site_fields s @ [(''enabled'', TBool b)]) = Some (s\<lparr>st_enabled := b\<rparr>)"
  by (cases "st_kind s"; cases "st_tls s"; cases "st_app s"; cases "st_php_fpm s";
      simp add: site_fields_def site_of_fields_def opt_field_def kind_str_def site_keys_def kind_of_def
        tls_of_def enabled_of_def)+

text \<open>A deserializer that reads at least this part of TOML, and reads it as TOML says.\<close>

definition toml_ok :: "(string \<Rightarrow> 'e + site_config) \<Rightarrow> bool" where
  "toml_ok parse = (\<forall>body site. read_site_toml body = Some site \<longrightarrow> parse body = Inr site)"

definition mini_parse :: "string \<Rightarrow> unit + site_config" where
  "mini_parse body = (case read_site_toml body of None \<Rightarrow> Inl () | Some site \<Rightarrow> Inr site)"

lemma mini_parse_ok: "toml_ok mini_parse"
  by (simp add: toml_ok_def mini_parse_def)

lemma parse_written_site:
  assumes "toml_ok parse" and "site_clean s"
  shows "parse (write_site_toml (st_domain s) (st_root s) (st_kind s) (st_tls s = Off) (st_app s)
       (st_php_fpm s)) = Inr (s\<lparr>st_enabled := True\<rparr>)"
    and "parse (write_site_toml (st_domain s) (st_root s) (st_kind s) (st_tls s = Off) (st_app s)
       (st_php_fpm s) @ enabled_line b) = Inr (s\<lparr>st_enabled := b\<rparr>)"
proof -
  have utf8: "valid_utf8 (st_root s)" using assms(2) by (simp add: site_clean_def)
  have ok: "list_all field_ok (site_fields s)" by (rule site_fields_ok [OF assms(2)])
  have b: "field_ok (''enabled'', TBool b)" using bare_words by (simp add: field_ok_def)
  have line: "enabled_line b = field_line (''enabled'', TBool b)"
    by (simp add: enabled_line_def field_line_def)
  have "read_site_toml (concat (map field_line (site_fields s))) = Some (s\<lparr>st_enabled := True\<rparr>)"
    using read_toml_fields [OF ok] by (simp add: read_site_toml_def site_of_site_fields)
  with assms(1) show "parse (write_site_toml (st_domain s) (st_root s) (st_kind s) (st_tls s = Off)
      (st_app s) (st_php_fpm s)) = Inr (s\<lparr>st_enabled := True\<rparr>)"
    unfolding write_site_toml_eq [OF utf8] toml_ok_def by blast
  have "read_site_toml (concat (map field_line (site_fields s @ [(''enabled'', TBool b)])))
      = Some (s\<lparr>st_enabled := b\<rparr>)"
    unfolding read_site_toml_def using ok b by (subst read_toml_fields) (simp_all add: site_of_site_fields)
  with assms(1) show "parse (write_site_toml (st_domain s) (st_root s) (st_kind s) (st_tls s = Off)
      (st_app s) (st_php_fpm s) @ enabled_line b) = Inr (s\<lparr>st_enabled := b\<rparr>)"
    unfolding write_site_toml_eq [OF utf8] line toml_ok_def by simp
qed

subsection \<open>Properties of the commands\<close>

definition added_site :: "site_fs \<Rightarrow> string \<Rightarrow> site_add_opts \<Rightarrow> string \<Rightarrow> site_config" where
  "added_site F domain opts webroot_base =
     (let root = (case ao_root opts of Some r \<Rightarrow> r | None \<Rightarrow> path_push webroot_base domain);
          kind = add_kind F opts root
      in \<lparr>st_domain = domain, st_root = served_root F kind root, st_kind = kind,
          st_tls = (if ao_no_tls opts \<or> is_local domain then Off else Auto), st_app = ao_app opts,
          st_php_fpm = None, st_enabled = True\<rparr>)"

lemma site_add_spec:
  assumes "toml_ok parse" and "site_clean (added_site F domain opts webroot_base)"
    and "run_site_add_inner io domain opts sites_dir webroot_base F = (F', code)"
  shows "(\<forall>p. p \<noteq> site_file sites_dir domain \<longrightarrow> sf_files F' p = sf_files F p) \<and>
    (sf_files F (site_file sites_dir domain) \<noteq> None \<and> \<not> ao_force opts \<longrightarrow>
       code = FAILURE \<and> sf_files F' = sf_files F) \<and>
    (code = SUCCESS \<longrightarrow> (\<exists>body. sf_files F' (site_file sites_dir domain) = Some body \<and>
       parse body = Inr (added_site F domain opts webroot_base)))"
proof -
  let ?s = "added_site F domain opts webroot_base"
  let ?body = "write_site_toml (st_domain ?s) (st_root ?s) (st_kind ?s) (st_tls ?s = Off) (st_app ?s)
      (st_php_fpm ?s)"
  have "?s\<lparr>st_enabled := True\<rparr> = ?s" by (simp add: added_site_def Let_def)
  then have parse: "parse ?body = Inr ?s" using parse_written_site(1) [OF assms(1,2)] by simp
  have "run_site_add_inner io domain opts sites_dir webroot_base F =
     (if \<not> ci_mkdir_sites io then (F, FAILURE)
      else if (site_file sites_dir domain \<in> insert sites_dir (sf_dirs F)
               \<or> sf_files F (site_file sites_dir domain) \<noteq> None) \<and> \<not> ao_force opts
      then (F\<lparr>sf_dirs := insert sites_dir (sf_dirs F)\<rparr>, FAILURE)
      else if \<not> ci_mkdir_root io then (F\<lparr>sf_dirs := insert sites_dir (sf_dirs F)\<rparr>, FAILURE)
      else case fs_write (ci_write io) (site_file sites_dir domain) ?body
             (F\<lparr>sf_dirs := insert (case ao_root opts of Some r \<Rightarrow> r | None \<Rightarrow> path_push webroot_base domain)
                (insert sites_dir (sf_dirs F))\<rparr>) of
             (F, ok) \<Rightarrow> (F, if ok then SUCCESS else FAILURE))"
    by (simp add: run_site_add_inner_def added_site_def file_exists_def Let_def cong: if_cong)
  with assms(3) parse show ?thesis
    by (auto simp: fs_write_def split: if_splits write_outcome.splits)
qed

text \<open>
  Adding a site touches its own file only; it never replaces an existing file unless forced
  to; and when it reports success the file deserializes to the site that was asked for, enabled,
  with the detected or requested kind and automatic TLS unless refused or local.
\<close>

theorem site_add_writes_site:
  assumes "toml_ok parse" and "site_clean (added_site F domain opts webroot_base)"
    and "run_site_add_inner io domain opts sites_dir webroot_base F = (F', code)"
  shows "(\<forall>p. p \<noteq> site_file sites_dir domain \<longrightarrow> sf_files F' p = sf_files F p) \<and>
    (sf_files F (site_file sites_dir domain) \<noteq> None \<and> \<not> ao_force opts \<longrightarrow>
       code = FAILURE \<and> sf_files F' = sf_files F) \<and>
    (code = SUCCESS \<longrightarrow> (\<exists>body. sf_files F' (site_file sites_dir domain) = Some body \<and>
       parse body = Inr (added_site F domain opts webroot_base)))"
  by (rule site_add_spec [OF assms])

definition add_opts :: site_add_opts where
  "add_opts = \<lparr>ao_root = None, ao_app = None, ao_force_php = False, ao_force_static = False,
     ao_no_tls = False, ao_force = False\<rparr>"

definition good_io :: cli_io where
  "good_io = \<lparr>ci_mkdir_sites = True, ci_mkdir_root = True, ci_write = WriteOk, ci_remove = True\<rparr>"

definition empty_fs :: site_fs where
  "empty_fs = \<lparr>sf_files = Map.empty, sf_dirs = {}\<rparr>"

definition after_add :: "site_fs \<times> exit_code" where
  "after_add = run_site_add_inner good_io ''b.io'' add_opts ''/s'' ''/w'' empty_fs"

lemma demo_site: "added_site empty_fs ''b.io'' add_opts ''/w''
     = \<lparr>st_domain = ''b.io'', st_root = ''/w/b.io'', st_kind = Static, st_tls = Auto, st_app = None,
        st_php_fpm = None, st_enabled = True\<rparr>"
proof -
  have "path_push ''/w'' ''b.io'' = ''/w/b.io''" "\<not> is_local ''b.io''" by code_simp+
  then show ?thesis
    by (simp add: added_site_def add_opts_def add_kind_def detect_kind_def file_exists_def is_dir_def
        empty_fs_def served_root_def)
qed

lemma demo_clean: "site_clean (added_site empty_fs ''b.io'' add_opts ''/w'')"
proof -
  have "clean ''b.io''" "clean ''/w/b.io''" "valid_utf8 ''/w/b.io''" by code_simp+
  then show ?thesis by (simp add: demo_site site_clean_def)
qed

theorem site_add_writes_site_witness:
  "snd after_add = SUCCESS \<and> (\<exists>body. sf_files (fst after_add) (site_file ''/s'' ''b.io'') = Some body \<and>
     mini_parse body = Inr (added_site empty_fs ''b.io'' add_opts ''/w''))"
proof -
  have s: "snd after_add = SUCCESS"
    by (simp add: after_add_def run_site_add_inner_def good_io_def add_opts_def empty_fs_def file_exists_def
        site_file_def path_push_def Let_def fs_write_def starts_with_def)
  have r: "run_site_add_inner good_io ''b.io'' add_opts ''/s'' ''/w'' empty_fs
      = (fst after_add, snd after_add)" by (simp add: after_add_def)
  from site_add_writes_site [OF mini_parse_ok demo_clean r] s show ?thesis by blast
qed

text \<open>
  Enabling or disabling a site rewrites its file and no other, and afterwards the file
  deserializes to the same site with only the flag changed.
\<close>

theorem set_enabled_changes_flag_only:
  assumes "toml_ok parse" and "run_site_set_enabled parse io dir domain b F = (F', SUCCESS)"
    and "read_to_string F (site_file dir domain) = Some body" and "parse body = Inr site"
    and "site_clean site"
  shows "\<exists>body'. sf_files F' = (sf_files F)(site_file dir domain \<mapsto> body') \<and>
     parse body' = Inr (site\<lparr>st_enabled := b\<rparr>)"
  using assms parse_written_site(2) [OF assms(1,5), of b]
  by (auto simp: run_site_set_enabled_def fs_write_def Let_def split: write_outcome.splits)

definition demo_site_b :: site_config where
  "demo_site_b = \<lparr>st_domain = ''b.io'', st_root = ''/w/b.io'', st_kind = Php, st_tls = Auto, st_app = None,
     st_php_fpm = Some ''127.0.0.1:9000'', st_enabled = True\<rparr>"

definition demo_body :: string where
  "demo_body = write_site_toml ''b.io'' ''/w/b.io'' Php False None (Some ''127.0.0.1:9000'')"

definition one_site :: site_fs where
  "one_site = \<lparr>sf_files = [site_file ''/s'' ''b.io'' \<mapsto> demo_body], sf_dirs = {}\<rparr>"

theorem set_enabled_changes_flag_only_witness:
  "\<exists>body'. sf_files (fst (run_site_set_enabled mini_parse good_io ''/s'' ''b.io'' False one_site))
       (site_file ''/s'' ''b.io'') = Some body'
     \<and> mini_parse body' = Inr (demo_site_b\<lparr>st_enabled := False\<rparr>)"
proof -
  have "clean ''b.io''" "clean ''/w/b.io''" "valid_utf8 ''/w/b.io''" "clean ''127.0.0.1:9000''"
    by code_simp+
  then have clean: "site_clean demo_site_b" by (simp add: site_clean_def demo_site_b_def)
  have p: "mini_parse demo_body = Inr demo_site_b"
    using parse_written_site(1) [OF mini_parse_ok clean] by (simp add: demo_site_b_def demo_body_def)
  have "valid_utf8 demo_body" by code_simp
  then have r: "read_to_string one_site (site_file ''/s'' ''b.io'') = Some demo_body"
    by (simp add: read_to_string_def one_site_def)
  obtain F' where "run_site_set_enabled mini_parse good_io ''/s'' ''b.io'' False one_site = (F', SUCCESS)"
    by (simp add: run_site_set_enabled_def r p fs_write_def good_io_def Let_def)
  from set_enabled_changes_flag_only [OF mini_parse_ok this r p clean] this show ?thesis by auto
qed

end
