(* ===== verification/CliMain.thy ===== *)
theory CliMain
  imports Cli Serving
begin

section \<open>The command line: \<^verbatim>\<open>run_site\<close> and \<^verbatim>\<open>run_reload\<close> in \<^verbatim>\<open>cli.rs\<close>, the dispatch of \<^verbatim>\<open>main\<close>\<close>

text \<open>
  What the parsed command line makes the program do: manage sites, print how to apply changes, or run the
  server.  The parser (\<open>clap\<close>) is third-party; its result is a value of the declared types.  Environment
  variables are a function, and a directory's listing is an input.
\<close>

subsection \<open>Commands\<close>

datatype site_cmd =
    Add string "bytes option" "string option" bool bool bool bool   \<comment> \<open>domain, root, app, php, static, no_tls, force\<close>
  | List
  | Remove string
  | Enable string
  | Disable string

datatype command = Run | Site site_cmd | Reload

record cli =
  cli_config :: "string option"
  cli_command :: "command option"

type_synonym environment = "string \<Rightarrow> string option"

definition sites_dir :: "environment \<Rightarrow> string" where
  "sites_dir env = (case env ''ZAPHYL_SITES_DIR'' of Some d \<Rightarrow> d | None \<Rightarrow> ''/etc/zaphyl/sites'')"

definition webroot_base :: "environment \<Rightarrow> string" where
  "webroot_base env = (case env ''ZAPHYL_WEBROOT_BASE'' of Some d \<Rightarrow> d | None \<Rightarrow> ''/var/www'')"

text \<open>The file system afterwards, the lines that \<open>list\<close> prints, and the exit code.\<close>

definition run_site :: "(string \<Rightarrow> 'e + site_config) \<Rightarrow> environment \<Rightarrow> cli_io \<Rightarrow> (string \<Rightarrow> string list option) \<Rightarrow> site_cmd
    \<Rightarrow> site_fs \<Rightarrow> site_fs \<times> string list \<times> exit_code" where
  "run_site parse env io listing cmd F =
     (case cmd of
        Add domain root app php static no_tls force \<Rightarrow>
          (let sites = (case env ''ZAPHYL_SITES_DIR'' of Some d \<Rightarrow> d | None \<Rightarrow> ''/etc/zaphyl/sites'');
               opts = \<lparr>ao_root = root, ao_app = app, ao_force_php = php, ao_force_static = static,
                        ao_no_tls = no_tls, ao_force = force\<rparr>;
               (F, code) = run_site_add_inner io domain opts sites (webroot_base env) F
           in (F, [], code))
      | List \<Rightarrow> (let (lines, code) = run_site_list parse (listing (sites_dir env)) (sites_dir env) F in (F, lines, code))
      | Remove domain \<Rightarrow> (let (F, code) = run_site_remove io (sites_dir env) domain F in (F, [], code))
      | Enable domain \<Rightarrow> (let (F, code) = run_site_set_enabled parse io (sites_dir env) domain True F in (F, [], code))
      | Disable domain \<Rightarrow> (let (F, code) = run_site_set_enabled parse io (sites_dir env) domain False F in (F, [], code)))"

definition run_reload :: "bool \<Rightarrow> string \<times> exit_code" where
  "run_reload systemd =
     (if systemd then ''Run: systemctl restart zaphyl to apply site changes''
      else ''Restart Zaphyl to apply site changes (e.g. systemctl restart zaphyl)'', SUCCESS)"

text \<open>\<open>main\<close>: a site command or the guidance, and otherwise the server.\<close>

datatype 'n outcome = Managed site_fs "string list" exit_code | Served "'n run_result"

definition dispatch :: "(string \<Rightarrow> 'e + site_config) \<Rightarrow> environment \<Rightarrow> cli_io \<Rightarrow> (string \<Rightarrow> string list option) \<Rightarrow> site_fs
    \<Rightarrow> 'n start_env \<Rightarrow> string list \<Rightarrow> (string \<Rightarrow> 'e load_env) \<Rightarrow> dir \<Rightarrow> cli \<Rightarrow> 'n outcome" where
  "dispatch parse env io listing F E args files disk parsed =
     (case cli_command parsed of
        Some (Site cmd) \<Rightarrow> (let (F, lines, code) = run_site parse env io listing cmd F in Managed F lines code)
      | Some Reload \<Rightarrow>
          (let (line, code) = run_reload (file_exists F ''/run/systemd/system'') in Managed F [line] code)
      | Some Run \<Rightarrow> Served (main_run E (cli_config parsed) args files disk)
      | None \<Rightarrow> Served (main_run E (cli_config parsed) args files disk))"

subsection \<open>What the commands touch\<close>

text \<open>The site file a command works on.\<close>

fun subject :: "site_cmd \<Rightarrow> string option" where
  "subject (Add domain root app php static no_tls force) = Some domain"
| "subject List = None"
| "subject (Remove domain) = Some domain"
| "subject (Enable domain) = Some domain"
| "subject (Disable domain) = Some domain"

lemma set_enabled_frame:
  "run_site_set_enabled parse io dir domain b F = (F', code) \<Longrightarrow> p \<noteq> site_file dir domain \<Longrightarrow> sf_files F' p = sf_files F p"
  by (auto simp: run_site_set_enabled_def fs_write_def Let_def split: option.splits sum.splits write_outcome.splits prod.splits)

lemma remove_frame:
  "run_site_remove io dir domain F = (F', code) \<Longrightarrow> p \<noteq> site_file dir domain \<Longrightarrow> sf_files F' p = sf_files F p"
  by (auto simp: run_site_remove_def Let_def split: if_splits)

lemma add_frame:
  "run_site_add_inner io domain opts dir base F = (F', code) \<Longrightarrow> p \<noteq> site_file dir domain \<Longrightarrow> sf_files F' p = sf_files F p"
  by (auto simp: run_site_add_inner_def fs_write_def Let_def split: if_splits write_outcome.splits prod.splits)

text \<open>
  A site command changes no file but the file of the site it names, in the directory of the environment;
  listing changes none, and a command line with a site command never starts the server.
\<close>

theorem site_command_touches_own_file:
  assumes "cli_command parsed = Some (Site cmd)"
  shows "\<exists>F' lines code. dispatch parse env io listing F E args files disk parsed = Managed F' lines code \<and>
     (case subject cmd of
        None \<Rightarrow> F' = F
      | Some domain \<Rightarrow>
          sf_files F' = (sf_files F)(site_file (sites_dir env) domain := sf_files F' (site_file (sites_dir env) domain)))"
proof -
  obtain F' lines code where r: "run_site parse env io listing cmd F = (F', lines, code)" by (metis prod.exhaust)
  have "case subject cmd of
        None \<Rightarrow> F' = F
      | Some domain \<Rightarrow>
          sf_files F' = (sf_files F)(site_file (sites_dir env) domain := sf_files F' (site_file (sites_dir env) domain))"
  proof (cases cmd)
    case (Add domain root app php static no_tls force)
    with r show ?thesis
      by (fastforce simp: run_site_def Let_def sites_dir_def [symmetric] fun_eq_iff split: prod.splits dest: add_frame)
  qed (use r in \<open>fastforce simp: run_site_def Let_def fun_eq_iff split: prod.splits dest: remove_frame set_enabled_frame\<close>)+
  with assms r show ?thesis by (simp add: dispatch_def)
qed

theorem site_command_touches_own_file_witness:
  "\<exists>F' lines code. dispatch mini_parse (\<lambda>_. None) good_io (\<lambda>_. None) one_site demo_start [] h3_files []
       \<lparr>cli_config = None, cli_command = Some (Site (Remove ''c.io''))\<rparr> = Managed F' lines code \<and>
     sf_files F' (site_file ''/s'' ''b.io'') = Some demo_body"
proof -
  have other: "site_file ''/s'' ''b.io'' \<noteq> site_file ''/etc/zaphyl/sites'' ''c.io''" by code_simp
  obtain F' lines code where r: "dispatch mini_parse (\<lambda>_. None) good_io (\<lambda>_. None) one_site demo_start [] h3_files []
       \<lparr>cli_config = None, cli_command = Some (Site (Remove ''c.io''))\<rparr> = Managed F' lines code"
    and frame: "sf_files F' = (sf_files one_site)(site_file (sites_dir (\<lambda>_. None)) ''c.io''
       := sf_files F' (site_file (sites_dir (\<lambda>_. None)) ''c.io''))"
    using site_command_touches_own_file [of "\<lparr>cli_config = None, cli_command = Some (Site (Remove ''c.io''))\<rparr>" "Remove ''c.io''"
        mini_parse "\<lambda>_. None" good_io "\<lambda>_. None" one_site demo_start "[]" h3_files "[]"] by auto
  from fun_cong [OF frame, of "site_file ''/s'' ''b.io''"] other
  have "sf_files F' (site_file ''/s'' ''b.io'') = sf_files one_site (site_file ''/s'' ''b.io'')"
    by (simp add: sites_dir_def)
  with r show ?thesis by (simp add: one_site_def)
qed

subsection \<open>From \<open>site add\<close> to the router\<close>

text \<open>
  The files that \<open>Config::load\<close> finds when its \<open>sites\<close> directory is \<open>dir\<close>: their names, their texts, and the
  deserializers.
\<close>

definition files_env :: "(string \<Rightarrow> 'e + config) \<Rightarrow> (string \<Rightarrow> 'e + site_config) \<Rightarrow> string \<Rightarrow> string list option
    \<Rightarrow> site_fs \<Rightarrow> string \<Rightarrow> 'e load_env" where
  "files_env parse_config parse_site dir names F main =
     \<lparr>le_main = (case read_to_string F main of None \<Rightarrow> Inl ''cannot read'' | Some s \<Rightarrow> Inr s), le_sites = names,
      le_read_site = (\<lambda>name. case read_to_string F (path_push dir name) of None \<Rightarrow> Inl ''cannot read'' | Some s \<Rightarrow> Inr s),
      le_parse_config = parse_config, le_parse_site = parse_site\<rparr>"

lemma toml_extension: "domain \<noteq> [] \<Longrightarrow> file_extension (domain @ ''.toml'') = Some ''toml''"
  using rsplit_once_append [of "CHR ''.''" "''toml''" domain] by (simp add: file_extension_def)

lemma load_read_sites:
  assumes "load env = Inr c"
  shows "\<exists>sites. \<exists>main :: config. list_all2 (\<lambda>path site. read_site env path = Inr site) (site_files (le_sites env)) sites \<and>
     cf_routes c = List.map_filter to_route sites @ cf_routes main \<and>
     (case cf_acme main of None \<Rightarrow> cf_acme c = None
      | Some acme \<Rightarrow> \<exists>a. cf_acme c = Some a \<and> set (acme_domains a) = set (acme_domains acme) \<union> set (List.map_filter tls_domain sites))"
proof -
  obtain body main rs ds where m: "le_main env = Inr body" "from_toml (le_parse_config env) body = Inr main"
    "load_sites env (site_files (le_sites env)) [] [] = Inr (rs, ds)"
    using assms by (auto simp: load_def split: sum.splits prod.splits)
  obtain sites where sites: "list_all2 (\<lambda>path site. read_site env path = Inr site) (site_files (le_sites env)) sites"
    "rs = List.map_filter to_route sites" "ds = List.map_filter tls_domain sites"
    using m(3) by (rule load_sites_Inr)
  have "cf_routes c = rs @ cf_routes main \<and> (case cf_acme main of None \<Rightarrow> cf_acme c = None
      | Some acme \<Rightarrow> \<exists>a. cf_acme c = Some a \<and> set (acme_domains a) = set (acme_domains acme) \<union> set ds)"
    using assms m set_merge_domains by (auto simp: load_def Let_def split: option.splits)
  with sites show ?thesis by blast
qed

lemma list_all2_mem: "list_all2 P xs ys \<Longrightarrow> x \<in> set xs \<Longrightarrow> \<exists>y\<in>set ys. P x y"
  by (induction rule: list_all2_induct) auto

lemma map_filter_mem: "x \<in> set xs \<Longrightarrow> f x = Some y \<Longrightarrow> y \<in> set (List.map_filter f xs)"
  by (induction xs) (auto simp: List.map_filter_simps split: option.split)

lemma added_site_route:
  "\<exists>r. to_route (added_site F domain opts base) = Some r \<and> rcf_host r = Some domain \<and> rcf_path r = None \<and>
     rcf_root r = Some (st_root (added_site F domain opts base))"
  by (simp add: to_route_def added_site_def Let_def)

lemma added_site_domain:
  "tls_domain (added_site F domain opts base) = (if ao_no_tls opts \<or> is_local domain then None else Some domain)"
  by (simp add: tls_domain_def added_site_def Let_def)


text \<open>A directory with a main file, to which a site is added.\<close>

definition main_fs :: site_fs where
  "main_fs = \<lparr>sf_files = [''/z.toml'' \<mapsto> ''main''], sf_dirs = {}\<rparr>"

definition served_fs :: site_fs where
  "served_fs = fst (run_site_add_inner good_io ''b.io'' add_opts ''/s'' ''/w'' main_fs)"

definition served_load :: "unit config_error + config" where
  "served_load = load (files_env (\<lambda>_. Inr http_only) mini_parse ''/s'' (Some [''b.io.toml'']) served_fs ''/z.toml'')"

lemma served_site: "added_site main_fs ''b.io'' add_opts ''/w'' = added_site empty_fs ''b.io'' add_opts ''/w''"
proof -
  have "path_push ''/w'' ''b.io'' = ''/w/b.io''" "path_push ''/w/b.io'' ''composer.json'' = ''/w/b.io/composer.json''"
    "path_push ''/w/b.io'' ''index.php'' = ''/w/b.io/index.php''" by code_simp+
  then show ?thesis
    by (simp add: added_site_def add_opts_def add_kind_def detect_kind_def file_exists_def is_dir_def main_fs_def
        empty_fs_def served_root_def)
qed

lemma served_body:
  "run_site_add_inner good_io ''b.io'' add_opts ''/s'' ''/w'' main_fs = (served_fs, SUCCESS)"
  "sf_files served_fs (site_file ''/s'' ''b.io'') = Some (write_site_toml ''b.io'' ''/w/b.io'' Static False None None)"
  "sf_files served_fs ''/z.toml'' = Some ''main''"
proof -
  have paths: "path_push ''/w'' ''b.io'' = ''/w/b.io''" "site_file ''/s'' ''b.io'' = ''/s/b.io.toml''"
    "path_push ''/w/b.io'' ''composer.json'' = ''/w/b.io/composer.json''"
    "path_push ''/w/b.io'' ''index.php'' = ''/w/b.io/index.php''" "\<not> is_local ''b.io''" by code_simp+
  show "run_site_add_inner good_io ''b.io'' add_opts ''/s'' ''/w'' main_fs = (served_fs, SUCCESS)"
    "sf_files served_fs (site_file ''/s'' ''b.io'') = Some (write_site_toml ''b.io'' ''/w/b.io'' Static False None None)"
    "sf_files served_fs ''/z.toml'' = Some ''main''"
    by (simp_all add: served_fs_def run_site_add_inner_def good_io_def add_opts_def main_fs_def file_exists_def paths
        Let_def fs_write_def add_kind_def detect_kind_def is_dir_def served_root_def)
qed


text \<open>A site added where the server does not look: \<open>site add\<close> takes the directory from the environment, \<open>load\<close> beside the file.\<close>

lemma default_sites_dir: "sites_dir (\<lambda>_. None) = ''/etc/zaphyl/sites''" "webroot_base (\<lambda>_. None) = ''/var/www''"
  by (simp_all add: sites_dir_def webroot_base_def)

end
