(* ===== verification/Spec2Isabelle.thy ===== *)
theory Spec2Isabelle
  imports ConcurrentPick DiskRace CacheSpec PluginHost Renewal Probing Clients PanicFree Overlap ExchangeCache ExchangeProps Quic Front ConfigFile CliMain
begin

text \<open>
  A verification development for Zaphyl, an HTTP/1, HTTP/2 and HTTP/3 reverse proxy and web server in
  Rust on Cloudflare's Pingora.

  \<^bold>\<open>The program.\<close>  \<^verbatim>\<open>main\<close> (\<^verbatim>\<open>crates/zaphyl/src/main.rs\<close>) loads a configuration file and the managed sites beside it,
  starts a plain-HTTP front for certificate challenges, obtains or reads a certificate, and builds one
  router, one response cache, one access list and one set of plugin chains.  Two listeners share
  them: the Pingora proxy (HTTP/1 and HTTP/2; Pingora calls \<open>ZaphylProxy\<close>'s callbacks) and the
  HTTP/3 listener (\<^verbatim>\<open>http3.rs\<close>).  A request passes access control, the rate limit and the body limit,
  then is answered from files, by a plugin chain, from the cache, or by an upstream target of the
  matched route; the response may be stored in the cache on its way back.  In the background a
  prober sets the targets' health flags and an ACME client renews the certificate, which both
  listeners reload when its file changes.

  \<^bold>\<open>Theories and code.\<close>
  \<^item> \<^verbatim>\<open>Prelude\<close>: strings as Rust handles them (ASCII case, \<open>split\<close>, \<open>trim\<close>, parsing and printing numbers),
    little-endian bytes, saturating arithmetic, \<open>SystemTime\<close> with its overflow panic, results, the outcome of a
    file write.  A string is the list of its UTF-8 bytes.
  \<^item> \<^verbatim>\<open>StaticFiles\<close>: \<^verbatim>\<open>zaphyl-core/src/static_files.rs\<close>.  The percent decoder and the file system are arguments.
  \<^item> \<^verbatim>\<open>Router\<close>, \<^verbatim>\<open>ConcurrentPick\<close>: \<^verbatim>\<open>zaphyl-core/src/router.rs\<close>; the second runs \<open>next_target\<close> as atomic
    actions of interleaved threads on the shared counter and flags.  The locale \<open>balancer\<close> is
    what callers rely on: a pick is a target of the route.
  \<^item> \<^verbatim>\<open>RateLimit\<close>: \<^verbatim>\<open>zaphyl-core/src/ratelimit.rs\<close>; the locale \<open>keyed_limiter\<close> reduces any interleaving of
    keys to the calls of one key.  \<^verbatim>\<open>Access\<close>: \<^verbatim>\<open>zaphyl-core/src/access.rs\<close>, over the address-block crate.
  \<^item> \<^verbatim>\<open>Challenge\<close>: \<^verbatim>\<open>zaphyl-core/src/acme.rs\<close> (locale \<open>kv_store\<close>) and the responder of \<^verbatim>\<open>http_front.rs\<close>;
    \<^verbatim>\<open>Front\<close>: its accept loop, and the loop by which \<open>main\<close> waits for it.
  \<^item> \<^verbatim>\<open>CachePolicy\<close>, \<^verbatim>\<open>Utf8\<close>, \<^verbatim>\<open>CacheCodec\<close>, \<^verbatim>\<open>CacheStore\<close>, \<^verbatim>\<open>CacheSpec\<close>, \<^verbatim>\<open>DiskRace\<close>: \<^verbatim>\<open>zaphyl-core/src/cache.rs\<close>, what may be
    cached and under which key, the format of an entry file (locale \<open>codec\<close>, interpreted for strings, headers
    and responses), the memory and disk tiers, the map of latest puts that they refine, and
    concurrent writers of one file as a step relation.
  \<^item> \<^verbatim>\<open>Config\<close>, \<^verbatim>\<open>ConfigFile\<close>: \<^verbatim>\<open>zaphyl-config\<close>, validation, site files and loading, and what the derived
    deserializers read from a TOML value.  \<^verbatim>\<open>Cli\<close>, \<^verbatim>\<open>CliMain\<close>: the site commands of \<^verbatim>\<open>cli.rs\<close>, and the dispatch of a
    command line to them or to the server.
  \<^item> \<^verbatim>\<open>Certificates\<close>, \<^verbatim>\<open>Handshakes\<close>, \<^verbatim>\<open>Renewal\<close>: \<^verbatim>\<open>tls.rs\<close>, \<^verbatim>\<open>acme.rs\<close> and the HTTP/3 certificate resolver; the second
    installs a certificate in a handshake over BoringSSL's calls, the third runs the renewal loop beside handshakes.
  \<^item> \<^verbatim>\<open>Plugins\<close>, \<^verbatim>\<open>PluginHost\<close>: \<^verbatim>\<open>plugins.rs\<close>, \<^verbatim>\<open>upstream.rs\<close> and \<^verbatim>\<open>zaphyl-plugin\<close>; a compiled component is
    a function of its store, a call of it a run of epoch ticks and checks.  The sample plugin (\<^verbatim>\<open>test-plugins/\<close>) is one.  \<^verbatim>\<open>Clients\<close>: what the HTTP clients trust
    and speak, and their timeouts.
  \<^item> \<^verbatim>\<open>Http\<close>, \<^verbatim>\<open>Proxy\<close>, \<^verbatim>\<open>ProxyProps\<close>: requests and header maps, the callbacks of \<open>ZaphylProxy\<close>, and their
    properties.  The state shared by requests is the record \<open>shared\<close>, the state of one request \<open>request_ctx\<close>;
    the answers of files, clock, upstreams and crates during a call are the record \<open>world\<close>.
  \<^item> \<^verbatim>\<open>Exchange\<close>, \<^verbatim>\<open>ExchangeCache\<close>, \<^verbatim>\<open>ExchangeProps\<close>: a request from its first callback to the log line, as steps
    in the order in which Pingora documents the calls, on a server whose requests interleave.
  \<^item> \<^verbatim>\<open>Encoding\<close>, \<^verbatim>\<open>Http3\<close>, \<^verbatim>\<open>Http3Props\<close>: \<open>negotiate_encoding\<close>, and \<open>proxy_request\<close> in its stages;
    \<^verbatim>\<open>Quic\<close>: the listener's loop and its connections, with 0-RTT, as steps on the events of Quinn.
  \<^item> \<^verbatim>\<open>Startup\<close>: \<open>main\<close>'s composition of the parts, \<open>build_server\<close>, a round of the prober, \<^verbatim>\<open>metrics.rs\<close>
    and the log line.  \<^verbatim>\<open>Probing\<close>: the prober's loop beside a running server.
  \<^item> \<^verbatim>\<open>SharedCache\<close>: the calls of both listeners in any order on one cache; the locale \<open>cache_user\<close> is
    the contract of a call (lookups, and puts of entries it may put), interpreted on the callbacks and the
    HTTP/3 handler.  \<^verbatim>\<open>PanicFree\<close>: which calls can panic.
    \<^verbatim>\<open>Serving\<close>: what every callback keeps of the shared state (locale \<open>state_keeper\<close>), from
    start-up on.  \<^verbatim>\<open>Overlap\<close>: requests that overlap, with lookups and puts taken apart into atomic actions.

  \<^bold>\<open>What the lemmas show.\<close> File resolution never leaves the root. Routing is first match, picking
  is round robin that prefers healthy targets, fair when all are healthy and wait free under any interleaving. The
  limiter grants exactly its maximum per window, and at most twice it in any span of a window's length. Access
  decisions follow the two lists. The cache policy, the key and entity-tag comparison are characterised over the
  structure of the headers; an entry file decodes to what was encoded and a truncated one to nothing; after any puts,
  lookups, restarts and I/O failures the tiers return only what was put under the key, and the latest of it, or the
  latest that landed on disk. Validation accepts exactly the valid configurations; loading merges the sites; the site
  commands write files that read back as requested, touch no other file, and a site they add is served by the next
  server that starts; a configuration's document reads back. Handshakes serve the pair on disk when renewals are not
  interrupted, a connection has only a key that fits its certificate, and outages of the authority shorter than the
  renewal window let no served certificate expire. Peers named to Pingora were reachable in the last probe round, if
  any of their route was. On both listeners only admitted requests are served, bodies are bounded, what is stored is
  the origin's whole response, what the cache answers is right for the request's key, early data is replay safe, and
  compression loses nothing; the two cache stages agree, start-up gives both listeners the same rules, a running
  server keeps its routes, limits and bounds and connects only to configured upstreams, under any sequence or overlap
  of requests the cache returns only what the origin gave for the key, and no call panics but for lifetimes that the
  clock cannot take. Lemmas without a claim number that name a concrete input record where code and documentation, or
  two parts of the code, do not fit together.

  \<^bold>\<open>Bounds and termination.\<close>  Every definition is total: recursion is structural or carries its
  measure (the readers of the entry format and of UTF-8 advance in the buffer).  The one loop whose end depends on
  the outside, the wait for the plain-HTTP front, is a partial function, proved to return within 152
  attempts; the loops that never end (accepting, probing, renewing, the epoch) are lists of their turns.  No fuel is used.  Machine
  integers are words where they wrap or saturate (the round-robin counter, the limiter's clock and
  counts, the lengths in entry files) and naturals where the code compares them only.  The running
  totals of body bytes are naturals: the 64-bit totals of the code cannot wrap on bodies that
  were received.

  \<^bold>\<open>Not modelled.\<close>  Pingora and its vendored copy (\<^verbatim>\<open>vendor/\<close>), Hyper, Quinn, rustls, BoringSSL, Wasmtime, clap, the
  TOML parser and the compressors: third-party code that calls, or is called by, what is modelled; it appears as
  arguments and events.  Binding sockets, starting threads and console output.  Getters, which are the fields of
  the records, and the code that macros generate (the plugin bindings, clap's parser).  Tests, benchmarks,
  packaging and the web page.  A call of a listener is one step on the shared state, and the calls of different
  requests interleave (\<^verbatim>\<open>Exchange\<close>); what overlaps inside a call is taken apart where it can matter, at the
  round-robin counter (\<^verbatim>\<open>ConcurrentPick\<close>), the cache tiers (\<^verbatim>\<open>Overlap\<close>) and the entry files (\<^verbatim>\<open>DiskRace\<close>).
\<close>

end
